theory Spec2Isabelle
  imports Complex_Main "HOL-Library.AList"
begin

section \<open>Values exchanged with the remote API\<close>

text \<open>
  JSON documents and the Python values the wrappers pass around. Python's \<open>None\<close> is
  \<open>JNull\<close>; a Python \<open>dict\<close> is an association list in insertion order, with
  \<open>AList.update\<close> as item assignment (replace in place, else append).
  Floating-point numbers are not part of the model.
\<close>

datatype json =
    JNull
  | JBool bool
  | JInt int
  | JStr string
  | JList "json list"
  | JDict "(string \<times> json) list"

type_synonym dict = "(string \<times> json) list"

text \<open>Python truthiness, as used by \<open>if body:\<close>, \<open>data if data else None\<close>, \<open>not response\<close>.\<close>

fun truthy :: "json \<Rightarrow> bool" where
  "truthy JNull = False"
| "truthy (JBool b) = b"
| "truthy (JInt n) = (n \<noteq> 0)"
| "truthy (JStr s) = (s \<noteq> [])"
| "truthy (JList xs) = (xs \<noteq> [])"
| "truthy (JDict d) = (d \<noteq> [])"

text \<open>
  A keyword argument with default \<open>None\<close>: \<open>None\<close> of the option type is an argument
  the caller left out, \<open>Some v\<close> one the caller supplied (possibly \<open>Some JNull\<close>).
\<close>

definition dflt :: "json option \<Rightarrow> json" where
  "dflt a = (case a of None \<Rightarrow> JNull | Some v \<Rightarrow> v)"

section \<open>Requests, responses and the network\<close>

text \<open>
  \<open>verb\<close> is the HTTP method; \<open>Unsupported\<close> stands for any method string that is
  none of the five.

  A numeric header is \<open>Absent\<close>, \<open>Num n\<close> (a text that Python's \<open>int()\<close> reads as
  \<open>n\<close>) or \<open>Malformed\<close> (a text on which \<open>int()\<close> raises \<open>ValueError\<close>).

  The body of a response is empty (\<open>response.content\<close> is falsy), not JSON, or JSON.
\<close>

datatype verb = GET | POST | PUT | PATCH | DELETE | Unsupported

datatype hdr = Absent | Num int | Malformed

datatype body = NoContent | Garbage | Json json

record response =
  status_code :: int
  retry_after :: hdr
  ratelimit_reset :: hdr
  content :: body

text \<open>What one network call yields: a response, or a transport failure with no response.\<close>

datatype reply = Resp response | ConnFail

record request =
  rq_method :: verb
  rq_url :: string
  rq_params :: "dict option"
  rq_json :: "json option"
  rq_headers :: "(string \<times> string) list"

text \<open>
  The world a call runs in: the requests sent so far (one entry per network call), the
  clock read by \<open>time.time()\<close>, the durations passed to \<open>time.sleep\<close>, and the
  dictionaries that live on the heap (\<open>heap w ! a\<close> is the dictionary at address \<open>a\<close>).
  The network is scripted: the \<open>n\<close>-th call (counting from 0) is answered by \<open>net n\<close>.
\<close>

record world =
  sent :: "request list"
  clock :: rat
  slept :: "rat list"
  heap :: "dict list"

type_synonym network = "nat \<Rightarrow> reply"

definition calls :: "world \<Rightarrow> nat" where
  "calls w = length (sent w)"

definition http :: "network \<Rightarrow> request \<Rightarrow> world \<Rightarrow> reply \<times> world" where
  "http net rq w = (net (length (sent w)), w\<lparr>sent := sent w @ [rq]\<rparr>)"

section \<open>Exceptions\<close>

text \<open>
  \<open>reqexn\<close> are the exceptions below \<open>requests.exceptions.RequestException\<close>:
  \<open>HTTPError\<close> (from \<open>raise_for_status\<close>, carrying the response), a transport failure,
  the JSON decoding error of \<open>response.json()\<close>, and a bare \<open>RequestException\<close>.
  \<open>message\<close> is the text carried by the wrappers' own exceptions: a value decoded from
  the server's body, \<open>str(e)\<close> of a request exception, or the "failed after n retries"
  text with \<open>str(last_error)\<close>.
\<close>

datatype reqexn =
    HTTPError response
  | ConnectionError
  | JSONDecodeError
  | RequestException

datatype message =
    ServerMessage json
  | StrOf reqexn
  | FailedAfter int "reqexn option"

datatype exn =
    Req reqexn
  | ValueError
  | TypeError
  | KeyError
  | AttributeError
  | RecursionError
  | GitHubAPIError int message
  | PlainException "int option" message

definition raise_for_status :: "response \<Rightarrow> reqexn + unit" where
  "raise_for_status r =
     (if 400 \<le> status_code r \<and> status_code r < 600 then Inl (HTTPError r) else Inr ())"

definition response_json :: "response \<Rightarrow> reqexn + json" where
  "response_json r = (case content r of Json j \<Rightarrow> Inr j | _ \<Rightarrow> Inl JSONDecodeError)"

text \<open>\<open>s.rstrip('/')\<close> and \<open>s.lstrip('/')\<close>.\<close>

definition strip_slashes_right :: "string \<Rightarrow> string" where
  "strip_slashes_right s = rev (dropWhile (\<lambda>c. c = CHR ''/'') (rev s))"

definition strip_slashes_left :: "string \<Rightarrow> string" where
  "strip_slashes_left s = dropWhile (\<lambda>c. c = CHR ''/'') s"

text \<open>\<open>time.sleep(d)\<close>: a negative duration raises \<open>ValueError\<close>.\<close>

definition sleep :: "rat \<Rightarrow> world \<Rightarrow> exn + world" where
  "sleep d w =
     (if d < 0 then Inl ValueError
      else Inr (w\<lparr>clock := clock w + d, slept := slept w @ [d]\<rparr>))"

section \<open>Chapter 2: \<open>GitHubAPI\<close> on plain \<open>requests\<close> calls\<close>

definition headers_ch2 :: "string \<Rightarrow> (string \<times> string) list" where
  "headers_ch2 token =
     [(''Authorization'', ''Bearer '' @ token), (''Accept'', ''application/vnd.github+json'')]"

definition create_issue_ch2 ::
  "string \<Rightarrow> string \<Rightarrow> string \<Rightarrow> string \<Rightarrow> json \<Rightarrow> json option \<Rightarrow> json option \<Rightarrow> json option
     \<Rightarrow> network \<Rightarrow> world \<Rightarrow> (exn + json) \<times> world" where
  "create_issue_ch2 token base_url owner repo title body assignees labels net w =
     (let url = base_url @ ''/repos/'' @ owner @ ''/'' @ repo @ ''/issues'';
          data = [(''title'', title), (''body'', dflt body),
                  (''assignees'', dflt assignees), (''labels'', dflt labels)];
          (rp, w1) = http net \<lparr>rq_method = POST, rq_url = url, rq_params = None,
                                rq_json = Some (JDict data), rq_headers = headers_ch2 token\<rparr> w
      in case rp of
           ConnFail \<Rightarrow> (Inl (Req ConnectionError), w1)
         | Resp r \<Rightarrow>
             (case raise_for_status r of
                Inl e \<Rightarrow> (Inl (Req e), w1)
              | Inr _ \<Rightarrow>
                  (case response_json r of
                     Inl e \<Rightarrow> (Inl (Req e), w1)
                   | Inr j \<Rightarrow> (Inr j, w1))))"

definition check_if_starred_ch2 ::
  "string \<Rightarrow> string \<Rightarrow> string \<Rightarrow> string \<Rightarrow> network \<Rightarrow> world \<Rightarrow> (exn + bool) \<times> world" where
  "check_if_starred_ch2 token base_url owner repo net w =
     (let url = base_url @ ''/user/starred/'' @ owner @ ''/'' @ repo;
          (rp, w1) = http net \<lparr>rq_method = GET, rq_url = url, rq_params = None,
                                rq_json = None, rq_headers = headers_ch2 token\<rparr> w
      in case rp of
           ConnFail \<Rightarrow> (Inl (Req ConnectionError), w1)
         | Resp r \<Rightarrow> (Inr (status_code r = 204), w1))"

section \<open>Chapter 3 sample: \<open>update_issue\<close>\<close>

definition update_issue_sample ::
  "string \<Rightarrow> string \<Rightarrow> string \<Rightarrow> string \<Rightarrow> string
     \<Rightarrow> json option \<Rightarrow> json option \<Rightarrow> json option \<Rightarrow> json option \<Rightarrow> json option
     \<Rightarrow> network \<Rightarrow> world \<Rightarrow> (exn + json) \<times> world" where
  "update_issue_sample token base_url owner repo issue_number title body state assignees labels net w =
     (let url = base_url @ ''/repos/'' @ owner @ ''/'' @ repo @ ''/issues/'' @ issue_number;
          data = [(''title'', dflt title), (''body'', dflt body), (''state'', dflt state),
                  (''assignees'', dflt assignees), (''labels'', dflt labels)];
          (rp, w1) = http net \<lparr>rq_method = PATCH, rq_url = url, rq_params = None,
                                rq_json = Some (JDict data), rq_headers = headers_ch2 token\<rparr> w
      in case rp of
           ConnFail \<Rightarrow> (Inl (Req ConnectionError), w1)
         | Resp r \<Rightarrow>
             (case raise_for_status r of
                Inl e \<Rightarrow> (Inl (Req e), w1)
              | Inr _ \<Rightarrow>
                  (case response_json r of
                     Inl e \<Rightarrow> (Inl (Req e), w1)
                   | Inr j \<Rightarrow> (Inr j, w1))))"

section \<open>Chapter 4: the function-style and class-style membership checks\<close>

definition headers_ch4 :: "string \<Rightarrow> (string \<times> string) list" where
  "headers_ch4 token =
     [(''Authorization'', ''token '' @ token), (''Accept'', ''application/vnd.github+json''),
      (''X-GitHub-Api-Version'', ''2022-11-28'')]"

text \<open>
  \<open>check_if_starred\<close> of \<open>stargazers.py\<close>. The last branch only calls
  \<open>raise_for_status()\<close>: when that does not raise, the function falls off its end and
  returns Python's \<open>None\<close>, the \<open>None\<close> of the result type here.
\<close>

definition check_if_starred_ch4 ::
  "string \<Rightarrow> string \<Rightarrow> string \<Rightarrow> network \<Rightarrow> world \<Rightarrow> (exn + bool option) \<times> world" where
  "check_if_starred_ch4 token owner repo net w =
     (let url = ''https://api.github.com/user/starred/'' @ owner @ ''/'' @ repo;
          (rp, w1) = http net \<lparr>rq_method = GET, rq_url = url, rq_params = None,
                                rq_json = None, rq_headers = headers_ch4 token\<rparr> w
      in case rp of
           ConnFail \<Rightarrow> (Inl (Req ConnectionError), w1)
         | Resp r \<Rightarrow>
             (if status_code r = 204 then (Inr (Some True), w1)
              else if status_code r = 404 then (Inr (Some False), w1)
              else (case raise_for_status r of
                      Inl e \<Rightarrow> (Inl (Req e), w1)
                    | Inr _ \<Rightarrow> (Inr None, w1))))"

text \<open>
  \<open>StargazersClient.is_repository_starred\<close> of \<open>stargazers-class.py\<close>; the session
  headers are those set by the constructor (\<open>api_key\<close> optional), which also stores
  \<open>base_url.rstrip('/')\<close>.
\<close>

definition session_headers_class :: "string option \<Rightarrow> (string \<times> string) list" where
  "session_headers_class api_key =
     (case api_key of None \<Rightarrow> [] | Some k \<Rightarrow> if k = [] then [] else [(''Authorization'', ''Bearer '' @ k)])
     @ [(''Content-Type'', ''application/json''), (''Accept'', ''application/json'')]"

definition is_repository_starred ::
  "string option \<Rightarrow> string \<Rightarrow> string \<Rightarrow> string \<Rightarrow> network \<Rightarrow> world \<Rightarrow> (exn + bool) \<times> world" where
  "is_repository_starred api_key base_url repository_id user_id net w =
     (let url = strip_slashes_right base_url @ ''/repositories/'' @ repository_id @
                  ''/stargazers/'' @ user_id;
          (rp, w1) = http net \<lparr>rq_method = GET, rq_url = url, rq_params = None,
                                rq_json = None, rq_headers = session_headers_class api_key\<rparr> w
      in case rp of
           ConnFail \<Rightarrow> (Inl (Req ConnectionError), w1)
         | Resp r \<Rightarrow>
             (case raise_for_status r of
                Inr _ \<Rightarrow> (Inr True, w1)
              | Inl e \<Rightarrow>
                  (if status_code r = 404 then (Inr False, w1) else (Inl (Req e), w1))))"

section \<open>Chapter 4: \<open>GitHubAPI\<close> of \<open>output.py\<close>\<close>

definition headers_out :: "string \<Rightarrow> (string \<times> string) list" where
  "headers_out token =
     [(''Authorization'', ''token '' @ token), (''Accept'', ''application/vnd.github+json''),
      (''X-GitHub-Api-Version'', ''2022-11-28'')]"

text \<open>\<open>d.update(extra)\<close> on dictionaries.\<close>

definition dict_update :: "('k \<times> 'v) list \<Rightarrow> ('k \<times> 'v) list \<Rightarrow> ('k \<times> 'v) list" where
  "dict_update d extra = fold (\<lambda>(k, v). AList.update k v) extra d"

text \<open>
  The \<open>except RequestException\<close> clause of \<open>_request\<close>: it reads \<open>e.response.json()\<close>
  and \<open>error_data.get('message', str(e))\<close>; an exception without a response, a body
  that does not decode and a decoded body that is not an object all end in the generic
  \<open>Exception\<close> with \<open>str(e)\<close>. A JSON object is taken to have distinct keys.
\<close>

definition handle_out :: "reqexn \<Rightarrow> exn" where
  "handle_out e =
     (case e of
        HTTPError r \<Rightarrow>
          (case response_json r of
             Inr (JDict d) \<Rightarrow>
               PlainException (Some (status_code r))
                 (case map_of d ''message'' of Some m \<Rightarrow> ServerMessage m | None \<Rightarrow> StrOf e)
           | _ \<Rightarrow> PlainException None (StrOf e))
      | _ \<Rightarrow> PlainException None (StrOf e))"

text \<open>
  The request \<open>_request\<close> hands to \<open>session.request\<close>: the URL is the stored
  \<open>base_url.rstrip('/')\<close> followed by the endpoint, the headers are the client's
  updated with the caller's, and the body is \<open>json=data if data else None\<close>.
\<close>

definition request_for_out ::
  "string \<Rightarrow> string \<Rightarrow> verb \<Rightarrow> string \<Rightarrow> dict option \<Rightarrow> dict option
     \<Rightarrow> (string \<times> string) list option \<Rightarrow> request" where
  "request_for_out token base_url method endpoint data params headers =
     \<lparr>rq_method = method,
      rq_url = strip_slashes_right base_url @ endpoint,
      rq_params = params,
      rq_json = (case data of
                   None \<Rightarrow> None
                 | Some d \<Rightarrow> if d = [] then None else Some (JDict d)),
      rq_headers = (case headers of
                      None \<Rightarrow> headers_out token
                    | Some h \<Rightarrow>
                        if h = [] then headers_out token else dict_update (headers_out token) h)\<rparr>"

text \<open>
  \<open>wait_time = max(reset_time - time.time(), 0) + 1\<close>, with \<open>reset_time\<close> read from
  \<open>X-RateLimit-Reset\<close> (0 when the header is absent) and the clock at \<open>now\<close>.
\<close>

definition reset_wait :: "int \<Rightarrow> rat \<Rightarrow> rat" where
  "reset_wait reset_time now = max (of_int reset_time - now) 0 + 1"

text \<open>
  What \<open>_request\<close> makes of a response whose status is not 429: \<open>raise_for_status\<close>,
  then \<open>None\<close> for a 204 and \<open>response.json()\<close> otherwise; a \<open>RequestException\<close>
  raised on the way goes through the \<open>except\<close> clause. A returned Python \<open>None\<close> is
  \<open>JNull\<close>.
\<close>

definition result_out :: "response \<Rightarrow> exn + json" where
  "result_out r =
     (case raise_for_status r of
        Inl e \<Rightarrow> Inl (handle_out e)
      | Inr _ \<Rightarrow>
          if status_code r = 204 then Inr JNull
          else (case response_json r of
                  Inl e \<Rightarrow> Inl (handle_out e)
                | Inr j \<Rightarrow> Inr j))"

text \<open>
  \<open>_request\<close>. On status 429 it sleeps and calls itself again with the same arguments.
  No counter bounds that recursion; the interpreter's recursion limit does. \<open>room\<close> is
  the number of nested activations of \<open>_request\<close> that the stack has room for when the
  call is made: an activation that finds no room raises \<open>RecursionError\<close> and has sent
  nothing. (The recursive call sits inside the \<open>try\<close>, but what it raises,
  \<open>RecursionError\<close> included, is never a \<open>RequestException\<close>, so the \<open>except\<close>
  clause lets it pass.)
\<close>

fun request_out ::
  "nat \<Rightarrow> string \<Rightarrow> string \<Rightarrow> verb \<Rightarrow> string \<Rightarrow> dict option \<Rightarrow> dict option
     \<Rightarrow> (string \<times> string) list option \<Rightarrow> network \<Rightarrow> world \<Rightarrow> (exn + json) \<times> world" where
  "request_out 0 token base_url method endpoint data params headers net w =
     (Inl RecursionError, w)"
| "request_out (Suc room) token base_url method endpoint data params headers net w =
     (let rq = request_for_out token base_url method endpoint data params headers;
          rp = fst (http net rq w);
          w1 = snd (http net rq w)
      in case rp of
           ConnFail \<Rightarrow> (Inl (handle_out ConnectionError), w1)
         | Resp r \<Rightarrow>
             if status_code r = 429 then
               (case ratelimit_reset r of
                  Malformed \<Rightarrow> (Inl ValueError, w1)
                | h \<Rightarrow>
                    (let reset_time = (case h of Num n \<Rightarrow> n | _ \<Rightarrow> 0);
                         wait_time = reset_wait reset_time (clock w1)
                     in case sleep wait_time w1 of
                          Inl e \<Rightarrow> (Inl e, w1)
                        | Inr w2 \<Rightarrow>
                            request_out room token base_url method endpoint data params headers
                              net w2))
             else (result_out r, w1))"

declare request_out.simps [simp del]

text \<open>
  \<open>len(response) < params['per_page']\<close>: an integer compares with an \<open>int\<close> or a
  \<open>bool\<close>; with any other value Python raises \<open>TypeError\<close>.
\<close>

fun len_lt :: "nat \<Rightarrow> json \<Rightarrow> exn + bool" where
  "len_lt n (JInt k) = Inr (int n < k)"
| "len_lt n (JBool b) = Inr (int n < (if b then 1 else 0))"
| "len_lt n _ = Inl TypeError"

text \<open>
  The \<open>while True\<close> loop of \<open>paginate\<close>. \<open>a\<close> is the address of the \<open>params\<close>
  dictionary, \<open>page\<close> and \<open>all_items\<close> are the loop's variables. Each round stores
  \<open>page\<close> in the dictionary, sends it, and stops on a response that is falsy, not a
  list or empty, or after a page shorter than \<open>params['per_page']\<close>. Every round
  calls \<open>_request\<close> from the same frame, so with the same \<open>room\<close>. Nothing bounds the
  number of rounds, so the function is partial: \<open>None\<close> is a sweep that never ends.
\<close>

partial_function (option) paginate_loop ::
  "nat \<Rightarrow> string \<Rightarrow> string \<Rightarrow> string \<Rightarrow> nat \<Rightarrow> int \<Rightarrow> json list \<Rightarrow> network \<Rightarrow> world
     \<Rightarrow> ((exn + json list) \<times> world) option" where
  "paginate_loop room token base_url endpoint a page all_items net w =
     (let w0 = w\<lparr>heap := (heap w)[a := AList.update ''page'' (JInt page) (heap w ! a)]\<rparr>;
          res = fst (request_out room token base_url GET endpoint None (Some (heap w0 ! a)) None
                       net w0);
          w1 = snd (request_out room token base_url GET endpoint None (Some (heap w0 ! a)) None
                      net w0)
      in case res of
           Inl e \<Rightarrow> Some (Inl e, w1)
         | Inr response \<Rightarrow>
             (case response of
                JList items \<Rightarrow>
                  if items = [] then Some (Inr all_items, w1)
                  else
                    (case map_of (heap w1 ! a) ''per_page'' of
                       None \<Rightarrow> Some (Inl KeyError, w1)
                     | Some pp \<Rightarrow>
                         (case len_lt (length items) pp of
                            Inl e \<Rightarrow> Some (Inl e, w1)
                          | Inr short \<Rightarrow>
                              if short then Some (Inr (all_items @ items), w1)
                              else paginate_loop room token base_url endpoint a (page + 1)
                                     (all_items @ items) net w1))
              | _ \<Rightarrow> Some (Inr all_items, w1)))"

text \<open>
  \<open>paginate\<close>. The caller passes no dictionary (\<open>None\<close>) or the address of one.
  \<open>params = params or {}\<close> keeps the caller's dictionary when it is non-empty and
  allocates a fresh one otherwise; \<open>per_page\<close> is then stored in it (the caller's value
  if there is one, else 100).
\<close>

definition alloc :: "world \<Rightarrow> nat \<times> world" where
  "alloc w = (length (heap w), w\<lparr>heap := heap w @ [[]]\<rparr>)"

definition paginate ::
  "nat \<Rightarrow> string \<Rightarrow> string \<Rightarrow> string \<Rightarrow> nat option \<Rightarrow> network \<Rightarrow> world
     \<Rightarrow> ((exn + json list) \<times> world) option" where
  "paginate room token base_url endpoint params net w =
     (let (a, w1) = (case params of
                       None \<Rightarrow> alloc w
                     | Some p \<Rightarrow> if heap w ! p = [] then alloc w else (p, w));
          d = heap w1 ! a;
          per_page = (case map_of d ''per_page'' of Some v \<Rightarrow> v | None \<Rightarrow> JInt 100);
          w2 = w1\<lparr>heap := (heap w1)[a := AList.update ''per_page'' per_page d]\<rparr>
      in paginate_loop room token base_url endpoint a 1 [] net w2)"

text \<open>
  \<open>create_issue\<close> and \<open>update_issue\<close>. \<open>kwargs\<close> are the extra keyword arguments
  (Python rejects a call that repeats \<open>title\<close> or \<open>body\<close> among them);
  \<open>issue_number\<close> is the text the f-string puts into the path.
\<close>

definition create_issue_out ::
  "nat \<Rightarrow> string \<Rightarrow> string \<Rightarrow> string \<Rightarrow> string \<Rightarrow> string \<Rightarrow> string option \<Rightarrow> dict
     \<Rightarrow> network \<Rightarrow> world \<Rightarrow> (exn + json) \<times> world" where
  "create_issue_out room token base_url owner repo title body kwargs net w =
     (let data0 = dict_update [(''title'', JStr title)] kwargs;
          data = (case body of
                    None \<Rightarrow> data0
                  | Some b \<Rightarrow> if b = [] then data0 else AList.update ''body'' (JStr b) data0)
      in request_out room token base_url POST (''/repos/'' @ owner @ ''/'' @ repo @ ''/issues'')
           (Some data) None None net w)"

definition update_issue_out ::
  "nat \<Rightarrow> string \<Rightarrow> string \<Rightarrow> string \<Rightarrow> string \<Rightarrow> string \<Rightarrow> dict \<Rightarrow> network \<Rightarrow> world
     \<Rightarrow> (exn + json) \<times> world" where
  "update_issue_out room token base_url owner repo issue_number kwargs net w =
     request_out room token base_url PATCH
       (''/repos/'' @ owner @ ''/'' @ repo @ ''/issues/'' @ issue_number)
       (Some kwargs) None None net w"

section \<open>Chapter 4: \<open>GitHubAPIClient\<close> and \<open>GitHubStarsClient\<close> of \<open>stargazers-advanced.py\<close>\<close>

text \<open>
  The client's configuration, shared with \<open>stargazers-advanced2.py\<close>. Delays are
  rational numbers standing for Python's floats.
\<close>

record config =
  cfg_base_url :: string
  cfg_api_key :: "string option"
  cfg_max_retries :: int
  cfg_retry_delay :: rat

definition url_for :: "config \<Rightarrow> string \<Rightarrow> string" where
  "url_for cfg endpoint =
     strip_slashes_right (cfg_base_url cfg) @ ''/'' @ strip_slashes_left endpoint"

definition auth_header :: "string \<Rightarrow> string option \<Rightarrow> (string \<times> string) list" where
  "auth_header scheme api_key =
     (case api_key of
        None \<Rightarrow> []
      | Some k \<Rightarrow> if k = [] then [] else [(''Authorization'', scheme @ k)])"

definition session_headers_adv :: "config \<Rightarrow> (string \<times> string) list" where
  "session_headers_adv cfg =
     dict_update [(''Content-Type'', ''application/json''), (''Accept'', ''application/json'')]
       (auth_header ''Bearer '' (cfg_api_key cfg))"

text \<open>
  The request one round of \<open>_make_request\<close> sends: \<open>json=data\<close> goes with POST, PUT
  and PATCH only; the per-request headers are laid over the session's.
\<close>

definition request_for_adv ::
  "config \<Rightarrow> verb \<Rightarrow> string \<Rightarrow> dict option \<Rightarrow> dict option \<Rightarrow> (string \<times> string) list option
     \<Rightarrow> request" where
  "request_for_adv cfg method endpoint params data headers =
     \<lparr>rq_method = method,
      rq_url = url_for cfg endpoint,
      rq_params = params,
      rq_json = (if method = POST \<or> method = PUT \<or> method = PATCH
                 then map_option JDict data else None),
      rq_headers = dict_update (session_headers_adv cfg)
                     (case headers of None \<Rightarrow> [] | Some h \<Rightarrow> h)\<rparr>"

text \<open>\<open>int(x)\<close> on a float: truncation towards zero.\<close>

definition py_int :: "rat \<Rightarrow> int" where
  "py_int x = (if 0 \<le> x then \<lfloor>x\<rfloor> else \<lceil>x\<rceil>)"

text \<open>
  What the \<open>try\<close> block of \<open>_make_request\<close> does with one reply: it returns the
  response, finds it rate limited (with the number of seconds to wait, from
  \<open>Retry-After\<close> or else \<open>int(delay)\<close>), raises a \<open>RequestException\<close> that the
  \<open>except\<close> clause catches, or raises something that clause does not catch.
\<close>

datatype attempt =
    Returned response
  | RateLimited int
  | Failed reqexn
  | Escaped exn

definition attempt_adv :: "rat \<Rightarrow> reply \<Rightarrow> attempt" where
  "attempt_adv delay rp =
     (case rp of
        ConnFail \<Rightarrow> Failed ConnectionError
      | Resp r \<Rightarrow>
          if status_code r = 429 then
            (case retry_after r of
               Absent \<Rightarrow> RateLimited (py_int delay)
             | Num n \<Rightarrow> RateLimited n
             | Malformed \<Rightarrow> Escaped ValueError)
          else (case raise_for_status r of
                  Inl e \<Rightarrow> Failed e
                | Inr _ \<Rightarrow> Returned r))"

text \<open>
  The \<open>while retries <= self.max_retries\<close> loop of \<open>_make_request\<close>, with its
  variables \<open>retries\<close> and \<open>delay\<close>. A rate-limited round sleeps, counts a retry and
  doubles the delay; a caught exception is re-raised once \<open>retries >= max_retries\<close> and
  otherwise counts a retry, sleeps \<open>delay\<close> and doubles it. Leaving the loop raises a
  bare \<open>RequestException\<close>.
\<close>

function make_request_loop ::
  "config \<Rightarrow> request \<Rightarrow> network \<Rightarrow> int \<Rightarrow> rat \<Rightarrow> world \<Rightarrow> (exn + response) \<times> world" where
  "make_request_loop cfg rq net retries delay w =
     (if retries \<le> cfg_max_retries cfg then
        (if rq_method rq = Unsupported then (Inl ValueError, w)
         else
           (let rp = fst (http net rq w);
                w1 = snd (http net rq w)
            in case attempt_adv delay rp of
                 Returned r \<Rightarrow> (Inr r, w1)
               | Escaped e \<Rightarrow> (Inl e, w1)
               | RateLimited seconds \<Rightarrow>
                   (case sleep (of_int seconds) w1 of
                      Inl e \<Rightarrow> (Inl e, w1)
                    | Inr w2 \<Rightarrow> make_request_loop cfg rq net (retries + 1) (delay * 2) w2)
               | Failed e \<Rightarrow>
                   if retries \<ge> cfg_max_retries cfg then (Inl (Req e), w1)
                   else
                     (case sleep delay w1 of
                        Inl x \<Rightarrow> (Inl x, w1)
                      | Inr w2 \<Rightarrow> make_request_loop cfg rq net (retries + 1) (delay * 2) w2)))
      else (Inl (Req RequestException), w))"
  by pat_completeness auto
termination
  by (relation "measure (\<lambda>(cfg, rq, net, retries, delay, w). nat (cfg_max_retries cfg + 1 - retries))")
     auto

declare make_request_loop.simps [simp del]

definition make_request ::
  "config \<Rightarrow> verb \<Rightarrow> string \<Rightarrow> dict option \<Rightarrow> dict option \<Rightarrow> (string \<times> string) list option
     \<Rightarrow> network \<Rightarrow> world \<Rightarrow> (exn + response) \<times> world" where
  "make_request cfg method endpoint params data headers net w =
     make_request_loop cfg (request_for_adv cfg method endpoint params data headers) net
       0 (cfg_retry_delay cfg) w"

text \<open>\<open>get\<close>: \<open>response.json() if response.content else None\<close>.\<close>

definition get_adv ::
  "config \<Rightarrow> string \<Rightarrow> dict option \<Rightarrow> (string \<times> string) list option \<Rightarrow> network \<Rightarrow> world
     \<Rightarrow> (exn + json) \<times> world" where
  "get_adv cfg endpoint params headers net w =
     (case make_request cfg GET endpoint params None headers net w of
        (Inl e, w1) \<Rightarrow> (Inl e, w1)
      | (Inr r, w1) \<Rightarrow>
          if content r = NoContent then (Inr JNull, w1)
          else (case response_json r of
                  Inl e \<Rightarrow> (Inl (Req e), w1)
                | Inr j \<Rightarrow> (Inr j, w1)))"

text \<open>\<open>check_starred\<close>: only an \<open>HTTPError\<close> is caught, and only a 404 is answered.\<close>

definition check_starred ::
  "config \<Rightarrow> string \<Rightarrow> string \<Rightarrow> network \<Rightarrow> world \<Rightarrow> (exn + bool) \<times> world" where
  "check_starred cfg owner repo net w =
     (case get_adv cfg (''user/starred/'' @ owner @ ''/'' @ repo) None None net w of
        (Inr _, w1) \<Rightarrow> (Inr True, w1)
      | (Inl (Req (HTTPError r)), w1) \<Rightarrow>
          if status_code r = 404 then (Inr False, w1) else (Inl (Req (HTTPError r)), w1)
      | (Inl e, w1) \<Rightarrow> (Inl e, w1))"

section \<open>Chapter 4: \<open>GitHubAPIBase\<close> and \<open>GitHubStargazersAPI\<close> of \<open>stargazers-advanced2.py\<close>\<close>

definition session_headers_adv2 :: "config \<Rightarrow> (string \<times> string) list" where
  "session_headers_adv2 cfg =
     dict_update (auth_header ''token '' (cfg_api_key cfg))
       [(''Content-Type'', ''application/json''), (''Accept'', ''application/vnd.github.v3+json''),
        (''User-Agent'', ''GitHubAPI-Python-Client'')]"

definition request_for_adv2 ::
  "config \<Rightarrow> verb \<Rightarrow> string \<Rightarrow> dict option \<Rightarrow> dict option \<Rightarrow> (string \<times> string) list option
     \<Rightarrow> request" where
  "request_for_adv2 cfg method endpoint params data headers =
     \<lparr>rq_method = method,
      rq_url = url_for cfg endpoint,
      rq_params = params,
      rq_json = map_option JDict data,
      rq_headers = dict_update (session_headers_adv2 cfg)
                     (case headers of None \<Rightarrow> [] | Some h \<Rightarrow> h)\<rparr>"

text \<open>
  The text of the server's error, as both handlers of \<open>_request\<close> read it:
  \<open>error_message = str(e)\<close>, replaced by \<open>error_data["message"]\<close> when
  \<open>"message" in error_data\<close>. A body that does not decode leaves \<open>str(e)\<close>
  (\<open>ValueError\<close> is caught). On a decoded value that is not an object, \<open>in\<close> is list
  membership or substring search, and the subscript that follows raises \<open>TypeError\<close>,
  as does \<open>in\<close> itself on null, a boolean or a number; \<open>TypeError\<close> is not caught.
\<close>

fun starts_with :: "string \<Rightarrow> string \<Rightarrow> bool" where
  "starts_with [] s = True"
| "starts_with (c # cs) [] = False"
| "starts_with (c # cs) (d # ds) = (c = d \<and> starts_with cs ds)"

fun has_substring :: "string \<Rightarrow> string \<Rightarrow> bool" where
  "has_substring sub [] = (sub = [])"
| "has_substring sub (c # cs) = (starts_with sub (c # cs) \<or> has_substring sub cs)"

definition error_message :: "reqexn \<Rightarrow> response \<Rightarrow> exn + message" where
  "error_message e r =
     (case response_json r of
        Inl _ \<Rightarrow> Inr (StrOf e)
      | Inr (JDict d) \<Rightarrow>
          (case map_of d ''message'' of Some m \<Rightarrow> Inr (ServerMessage m) | None \<Rightarrow> Inr (StrOf e))
      | Inr (JList xs) \<Rightarrow> if JStr ''message'' \<in> set xs then Inl TypeError else Inr (StrOf e)
      | Inr (JStr t) \<Rightarrow> if has_substring ''message'' t then Inl TypeError else Inr (StrOf e)
      | Inr _ \<Rightarrow> Inl TypeError)"

text \<open>
  What \<open>_request\<close> returns: the decoded body (Python's \<open>None\<close> is \<open>JNull\<close>), or the
  raw content when \<open>raw_response\<close> is set.
\<close>

datatype payload = Decoded json | Raw body

text \<open>
  What the \<open>try\<close> block of \<open>_request\<close> does with one reply, read at clock time
  \<open>now\<close>: on a 429 with a positive \<open>X-RateLimit-Reset\<close> it waits and goes round again
  (\<open>Waited\<close>); otherwise \<open>raise_for_status\<close>, then the result.
\<close>

datatype attempt2 =
    Returned2 payload
  | Waited rat
  | Failed2 reqexn
  | Escaped2 exn

definition finish_adv2 :: "bool \<Rightarrow> response \<Rightarrow> attempt2" where
  "finish_adv2 raw_response r =
     (case raise_for_status r of
        Inl e \<Rightarrow> Failed2 e
      | Inr _ \<Rightarrow>
          if raw_response then Returned2 (Raw (content r))
          else if content r = NoContent then Returned2 (Decoded JNull)
          else (case response_json r of
                  Inl e \<Rightarrow> Failed2 e
                | Inr j \<Rightarrow> Returned2 (Decoded j)))"

definition attempt_adv2 :: "bool \<Rightarrow> rat \<Rightarrow> reply \<Rightarrow> attempt2" where
  "attempt_adv2 raw_response now rp =
     (case rp of
        ConnFail \<Rightarrow> Failed2 ConnectionError
      | Resp r \<Rightarrow>
          if status_code r = 429 then
            (case ratelimit_reset r of
               Malformed \<Rightarrow> Escaped2 ValueError
             | Absent \<Rightarrow> finish_adv2 raw_response r
             | Num reset_time \<Rightarrow>
                 if reset_time > 0 then Waited (reset_wait reset_time now)
                 else finish_adv2 raw_response r)
          else finish_adv2 raw_response r)"

text \<open>
  The first part of the \<open>except\<close> clause: a caught exception that carries a response
  with a status in 400..499 other than 429 ends the call with \<open>GitHubAPIError\<close>.
\<close>

definition fatal_adv2 :: "reqexn \<Rightarrow> exn option" where
  "fatal_adv2 e =
     (case e of
        HTTPError r \<Rightarrow>
          if 400 \<le> status_code r \<and> status_code r < 500 \<and> status_code r \<noteq> 429 then
            (case error_message e r of
               Inl x \<Rightarrow> Some x
             | Inr m \<Rightarrow> Some (GitHubAPIError (status_code r) m))
          else None
      | _ \<Rightarrow> None)"

text \<open>What is raised after the loop, from \<open>last_error\<close>.\<close>

definition after_loop_adv2 :: "config \<Rightarrow> reqexn option \<Rightarrow> exn" where
  "after_loop_adv2 cfg last_error =
     (case last_error of
        Some (HTTPError r) \<Rightarrow>
          (case error_message (HTTPError r) r of
             Inl x \<Rightarrow> x
           | Inr m \<Rightarrow> GitHubAPIError (status_code r) m)
      | _ \<Rightarrow> GitHubAPIError 0 (FailedAfter (cfg_max_retries cfg) last_error))"

text \<open>
  The \<open>while retries <= self.max_retries\<close> loop of \<open>_request\<close>, with its variables
  \<open>retries\<close> and \<open>last_error\<close>. The wait on a rate limit goes round without touching
  \<open>retries\<close>, so nothing bounds the loop: the function is partial. A caught exception
  counts a retry; unless it is fatal, the loop sleeps
  \<open>retry_delay * 2 ** (retries - 1)\<close> and goes on while \<open>retries <= max_retries\<close>, and
  otherwise falls back to the loop test, which then fails.
\<close>

partial_function (option) request_loop_adv2 ::
  "config \<Rightarrow> request \<Rightarrow> bool \<Rightarrow> network \<Rightarrow> int \<Rightarrow> reqexn option \<Rightarrow> world
     \<Rightarrow> ((exn + payload) \<times> world) option" where
  "request_loop_adv2 cfg rq raw_response net retries last_error w =
     (if retries \<le> cfg_max_retries cfg then
        (let rp = fst (http net rq w);
             w1 = snd (http net rq w)
         in case attempt_adv2 raw_response (clock w1) rp of
              Returned2 p \<Rightarrow> Some (Inr p, w1)
            | Escaped2 e \<Rightarrow> Some (Inl e, w1)
            | Waited wait_time \<Rightarrow>
                (case sleep wait_time w1 of
                   Inl e \<Rightarrow> Some (Inl e, w1)
                 | Inr w2 \<Rightarrow> request_loop_adv2 cfg rq raw_response net retries last_error w2)
            | Failed2 e \<Rightarrow>
                (case fatal_adv2 e of
                   Some x \<Rightarrow> Some (Inl x, w1)
                 | None \<Rightarrow>
                     if retries + 1 \<le> cfg_max_retries cfg then
                       (case sleep (cfg_retry_delay cfg * 2 ^ nat retries) w1 of
                          Inl x \<Rightarrow> Some (Inl x, w1)
                        | Inr w2 \<Rightarrow>
                            request_loop_adv2 cfg rq raw_response net (retries + 1) (Some e) w2)
                     else request_loop_adv2 cfg rq raw_response net (retries + 1) (Some e) w1))
      else Some (Inl (after_loop_adv2 cfg last_error), w))"

definition request_adv2 ::
  "config \<Rightarrow> verb \<Rightarrow> string \<Rightarrow> dict option \<Rightarrow> dict option \<Rightarrow> (string \<times> string) list option
     \<Rightarrow> bool \<Rightarrow> network \<Rightarrow> world \<Rightarrow> ((exn + payload) \<times> world) option" where
  "request_adv2 cfg method endpoint params data headers raw_response net w =
     request_loop_adv2 cfg (request_for_adv2 cfg method endpoint params data headers)
       raw_response net 0 None w"

definition get_adv2 ::
  "config \<Rightarrow> string \<Rightarrow> dict option \<Rightarrow> (string \<times> string) list option \<Rightarrow> bool \<Rightarrow> network \<Rightarrow> world
     \<Rightarrow> ((exn + payload) \<times> world) option" where
  "get_adv2 cfg endpoint params headers raw_response net w =
     request_adv2 cfg GET endpoint params None headers raw_response net w"

text \<open>\<open>check_if_starred\<close>: a \<open>GitHubAPIError\<close> with status 404 is the answer "no".\<close>

definition check_if_starred_adv2 ::
  "config \<Rightarrow> string \<Rightarrow> string \<Rightarrow> network \<Rightarrow> world \<Rightarrow> ((exn + bool) \<times> world) option" where
  "check_if_starred_adv2 cfg owner repo net w =
     map_option
       (\<lambda>(res, w1).
          case res of
            Inr _ \<Rightarrow> (Inr True, w1)
          | Inl (GitHubAPIError st m) \<Rightarrow>
              if st = 404 then (Inr False, w1) else (Inl (GitHubAPIError st m), w1)
          | Inl e \<Rightarrow> (Inl e, w1))
       (get_adv2 cfg (''user/starred/'' @ owner @ ''/'' @ repo) None None False net w)"

text \<open>
  \<open>get_star_history\<close> calls \<open>get\<close> with \<open>raw_response\<close> left at \<open>False\<close>, so what
  comes back is always a decoded value; \<open>decoded\<close> reads it.
\<close>

definition decoded :: "payload \<Rightarrow> json" where
  "decoded p = (case p of Decoded j \<Rightarrow> j | Raw _ \<Rightarrow> JNull)"

text \<open>
  What \<open>all_stargazers.extend(x)\<close> appends: the elements of a list, the keys of an
  object, the characters of a string; any other value is not iterable.
\<close>

fun py_iter :: "json \<Rightarrow> exn + json list" where
  "py_iter (JList xs) = Inr xs"
| "py_iter (JDict d) = Inr (map (\<lambda>kv. JStr (fst kv)) d)"
| "py_iter (JStr s) = Inr (map (\<lambda>c. JStr [c]) s)"
| "py_iter _ = Inl TypeError"

fun is_list :: "json \<Rightarrow> bool" where
  "is_list (JList xs) = True"
| "is_list _ = False"

text \<open>
  The \<open>while True\<close> loop of \<open>get_star_history\<close>, with its variables \<open>page\<close> and
  \<open>all_stargazers\<close>. A \<open>GitHubAPIError\<close> ends the loop quietly; so do a falsy page
  and \<open>page > max_pages\<close> (tested after the page was fetched), and a list shorter than
  100 after it was added.
\<close>

partial_function (option) star_history_loop ::
  "config \<Rightarrow> string \<Rightarrow> string \<Rightarrow> int \<Rightarrow> network \<Rightarrow> int \<Rightarrow> json list \<Rightarrow> world
     \<Rightarrow> ((exn + json list) \<times> world) option" where
  "star_history_loop cfg owner repo max_pages net page all_stargazers w =
     Option.bind
       (get_adv2 cfg (''repos/'' @ owner @ ''/'' @ repo @ ''/stargazers'')
          (Some [(''per_page'', JInt 100), (''page'', JInt page)])
          (Some [(''Accept'', ''application/vnd.github.v3.star+json'')]) False net w)
       (\<lambda>(res, w1).
          case res of
            Inl e \<Rightarrow>
              (case e of
                 GitHubAPIError st m \<Rightarrow> Some (Inr all_stargazers, w1)
               | _ \<Rightarrow> Some (Inl e, w1))
          | Inr p \<Rightarrow>
              (let stargazers_page = decoded p
               in if \<not> truthy stargazers_page \<or> page > max_pages
                  then Some (Inr all_stargazers, w1)
                  else
                    (case py_iter stargazers_page of
                       Inl e \<Rightarrow> Some (Inl e, w1)
                     | Inr items \<Rightarrow>
                         if is_list stargazers_page \<and> length items < 100
                         then Some (Inr (all_stargazers @ items), w1)
                         else star_history_loop cfg owner repo max_pages net (page + 1)
                                (all_stargazers @ items) w1)))"

text \<open>
  The second loop of \<open>get_star_history\<close>: an item that is an object with a truthy
  \<open>user\<close> and a truthy \<open>starred_at\<close> gives one record; every other item is skipped.
  \<open>user.get\<close> on a truthy value that is not an object raises \<open>AttributeError\<close>.
\<close>

definition dict_get :: "dict \<Rightarrow> string \<Rightarrow> json \<Rightarrow> json" where
  "dict_get d k fallback = (case map_of d k of Some v \<Rightarrow> v | None \<Rightarrow> fallback)"

definition history_entry :: "json \<Rightarrow> exn + json option" where
  "history_entry item =
     (case item of
        JDict d \<Rightarrow>
          (let user = dict_get d ''user'' (JDict []);
               starred_at = dict_get d ''starred_at'' JNull
           in if truthy user \<and> truthy starred_at then
                (case user of
                   JDict u \<Rightarrow>
                     Inr (Some (JDict [(''user_id'', dict_get u ''id'' JNull),
                                       (''username'', dict_get u ''login'' JNull),
                                       (''starred_at'', starred_at)]))
                 | _ \<Rightarrow> Inl AttributeError)
              else Inr None)
      | _ \<Rightarrow> Inr None)"

fun history_of :: "json list \<Rightarrow> exn + json list" where
  "history_of [] = Inr []"
| "history_of (item # rest) =
     (case history_entry item of
        Inl e \<Rightarrow> Inl e
      | Inr None \<Rightarrow> history_of rest
      | Inr (Some h) \<Rightarrow>
          (case history_of rest of
             Inl e \<Rightarrow> Inl e
           | Inr hs \<Rightarrow> Inr (h # hs)))"

definition get_star_history ::
  "config \<Rightarrow> string \<Rightarrow> string \<Rightarrow> int \<Rightarrow> network \<Rightarrow> world \<Rightarrow> ((exn + json list) \<times> world) option" where
  "get_star_history cfg owner repo max_pages net w =
     Option.bind (star_history_loop cfg owner repo max_pages net 1 [] w)
       (\<lambda>(res, w1).
          case res of
            Inl e \<Rightarrow> Some (Inl e, w1)
          | Inr all_stargazers \<Rightarrow>
              (case history_of all_stargazers of
                 Inl e \<Rightarrow> Some (Inl e, w1)
               | Inr history \<Rightarrow> Some (Inr history, w1)))"

text \<open>\<open>int(response.headers.get('X-RateLimit-Reset', 0))\<close> on a header that is not malformed.\<close>

definition reset_time_of :: "response \<Rightarrow> int" where
  "reset_time_of r = (case ratelimit_reset r of Num n \<Rightarrow> n | _ \<Rightarrow> 0)"

section \<open>Scripted networks for concrete runs\<close>

text \<open>
  A fresh world, a response with a given status and body and no rate-limit headers, and
  a network that answers the first calls from a list and every later call with a
  fixed reply.
\<close>

definition fresh :: world where
  "fresh = \<lparr>sent = [], clock = 0, slept = [], heap = []\<rparr>"

definition resp :: "int \<Rightarrow> body \<Rightarrow> response" where
  "resp st b = \<lparr>status_code = st, retry_after = Absent, ratelimit_reset = Absent, content = b\<rparr>"

definition script :: "reply list \<Rightarrow> reply \<Rightarrow> network" where
  "script rs d n = (if n < length rs then rs ! n else d)"

text \<open>
  A stack with room for 980 nested activations of \<open>_request\<close>, about what CPython's
  default recursion limit of 1000 leaves to a call from a short script.
\<close>

definition plenty :: nat where
  "plenty = 980"

text \<open>A 201 response with a small JSON object as its body.\<close>

definition created :: response where
  "created = resp 201 (Json (JDict [(''id'', JInt 1)]))"

section \<open>Vocabulary for stating the properties\<close>

text \<open>
  The request one round of \<open>paginate\<close> sends for the dictionary \<open>d\<close>, the
  world after a round that asked for \<open>page\<close> with the dictionary at address \<open>a\<close>,
  a 200 reply that carries a page of items, and \<open>params.get('per_page', 100)\<close>.
\<close>

definition page_request :: "string \<Rightarrow> string \<Rightarrow> string \<Rightarrow> dict \<Rightarrow> request" where
  "page_request token base_url endpoint d =
     request_for_out token base_url GET endpoint None (Some d) None"

definition after_page :: "string \<Rightarrow> string \<Rightarrow> string \<Rightarrow> nat \<Rightarrow> int \<Rightarrow> world \<Rightarrow> world" where
  "after_page token base_url endpoint a page w =
     w\<lparr>sent := sent w @ [page_request token base_url endpoint
                             (AList.update ''page'' (JInt page) (heap w ! a))],
       heap := (heap w)[a := AList.update ''page'' (JInt page) (heap w ! a)]\<rparr>"

definition page_reply :: "json list \<Rightarrow> reply" where
  "page_reply items = Resp (resp 200 (Json (JList items)))"

definition per_page_of :: "dict \<Rightarrow> json" where
  "per_page_of d = (case map_of d ''per_page'' of Some v \<Rightarrow> v | None \<Rightarrow> JInt 100)"

text \<open>
  The world after one network call with \<open>rq\<close> and after a sleep of \<open>d\<close>
  seconds, the request \<open>get_star_history\<close> sends for a page, and a client
  configuration with the constructor's defaults.
\<close>

definition after_call :: "request \<Rightarrow> world \<Rightarrow> world" where
  "after_call rq w = w\<lparr>sent := sent w @ [rq]\<rparr>"

definition after_sleep :: "rat \<Rightarrow> world \<Rightarrow> world" where
  "after_sleep d w = w\<lparr>clock := clock w + d, slept := slept w @ [d]\<rparr>"

definition stargazers_request :: "config \<Rightarrow> string \<Rightarrow> string \<Rightarrow> int \<Rightarrow> request" where
  "stargazers_request cfg owner repo page =
     request_for_adv2 cfg GET (''repos/'' @ owner @ ''/'' @ repo @ ''/stargazers'')
       (Some [(''per_page'', JInt 100), (''page'', JInt page)]) None
       (Some [(''Accept'', ''application/vnd.github.v3.star+json'')])"

definition default_config :: config where
  "default_config =
     \<lparr>cfg_base_url = ''https://api.github.com'', cfg_api_key = Some ''k'',
      cfg_max_retries = 3, cfg_retry_delay = 1\<rparr>"

text \<open>
  An item of a stargazer page that \<open>get_star_history\<close> keeps (an object whose \<open>user\<close>
  is a non-empty object and whose \<open>starred_at\<close> is truthy), and the record it makes of
  it; an item it passes over (not an object, or an object whose \<open>user\<close> or
  \<open>starred_at\<close> is missing or falsy); an item as the star media type delivers it and a
  plain user object; and the network that answers with pages of 100, 100 and 37 copies
  of an item.
\<close>

definition star_item :: "json \<Rightarrow> bool" where
  "star_item item =
     (case item of
        JDict d \<Rightarrow>
          (case dict_get d ''user'' (JDict []) of
             JDict u \<Rightarrow> u \<noteq> [] \<and> truthy (dict_get d ''starred_at'' JNull)
           | _ \<Rightarrow> False)
      | _ \<Rightarrow> False)"

definition skipped :: "json \<Rightarrow> bool" where
  "skipped item =
     (case item of
        JDict d \<Rightarrow>
          \<not> truthy (dict_get d ''user'' (JDict [])) \<or> \<not> truthy (dict_get d ''starred_at'' JNull)
      | _ \<Rightarrow> True)"

definition star_record :: "json \<Rightarrow> json" where
  "star_record item =
     (case item of
        JDict d \<Rightarrow>
          (case dict_get d ''user'' (JDict []) of
             JDict u \<Rightarrow>
               JDict [(''user_id'', dict_get u ''id'' JNull),
                      (''username'', dict_get u ''login'' JNull),
                      (''starred_at'', dict_get d ''starred_at'' JNull)]
           | _ \<Rightarrow> JNull)
      | _ \<Rightarrow> JNull)"

definition octocat_star :: json where
  "octocat_star =
     JDict [(''starred_at'', JStr ''2024-01-01T00:00:00Z''),
            (''user'', JDict [(''login'', JStr ''octocat''), (''id'', JInt 1)])]"

definition octocat_user :: json where
  "octocat_user = JDict [(''login'', JStr ''octocat''), (''id'', JInt 1)]"

definition three_pages :: "json \<Rightarrow> network" where
  "three_pages item =
     script [page_reply (replicate 100 item), page_reply (replicate 100 item)]
       (page_reply (replicate 37 item))"

text \<open>
  A reply that the retry policy treats as a passing failure (no response at all, or a
  5xx status), a response that is a success (2xx), and a network that fails twice
  before it answers.
\<close>

definition retryable :: "reply \<Rightarrow> bool" where
  "retryable rp =
     (case rp of ConnFail \<Rightarrow> True | Resp r \<Rightarrow> 500 \<le> status_code r \<and> status_code r < 600)"

definition success :: "response \<Rightarrow> bool" where
  "success r = (200 \<le> status_code r \<and> status_code r < 300)"

definition ok_response :: response where
  "ok_response = resp 200 (Json (JDict [(''data'', JStr ''test'')]))"

definition flaky :: network where
  "flaky = script [ConnFail, Resp (resp 503 NoContent)] (Resp ok_response)"

text \<open>
  A response with a 4xx status other than 429, and a 404 as the API sends it.
\<close>

definition client_error :: "response \<Rightarrow> bool" where
  "client_error r = (400 \<le> status_code r \<and> status_code r < 500 \<and> status_code r \<noteq> 429)"

text \<open>
  A reply that \<open>_make_request\<close> of \<open>stargazers-advanced.py\<close> counts as a failed
  attempt: no response at all, or a 4xx or 5xx status other than 429.
\<close>

definition failure :: "reply \<Rightarrow> bool" where
  "failure rp =
     (case rp of
        ConnFail \<Rightarrow> True
      | Resp r \<Rightarrow> 400 \<le> status_code r \<and> status_code r < 600 \<and> status_code r \<noteq> 429)"

definition not_found :: response where
  "not_found = resp 404 (Json (JDict [(''message'', JStr ''Not Found'')]))"

definition no_content :: response where
  "no_content = resp 204 NoContent"

text \<open>
  A network whose first three replies are failed attempts of different kinds and whose
  fourth reply, like every later one, is the 404.
\<close>

definition mixed_failures :: network where
  "mixed_failures =
     script [Resp (resp 500 NoContent), ConnFail, Resp (resp 403 NoContent)] (Resp not_found)"

text \<open>
  A 429 response without rate-limit headers, one whose \<open>X-RateLimit-Reset\<close> is \<open>t\<close>,
  and one whose \<open>Retry-After\<close> is \<open>n\<close>.
\<close>

definition rate_limited :: response where
  "rate_limited = resp 429 NoContent"

definition limited_until :: "int \<Rightarrow> response" where
  "limited_until t = rate_limited\<lparr>ratelimit_reset := Num t\<rparr>"

definition retry_in :: "int \<Rightarrow> response" where
  "retry_in n = rate_limited\<lparr>retry_after := Num n\<rparr>"

section \<open>Chapter 2 membership check: what it returns\<close>

text \<open>
  Claim C9. The Chapter 2 \<open>check_if_starred\<close> answers every response, whatever its status,
  with the boolean "the status is 204", so it returns false for 200, 401, 403 and every
  5xx status, and no response makes it raise; it performs exactly one network call.
\<close>

theorem check_if_starred_ch2_status:
  "net (length (sent w)) = Resp r \<Longrightarrow>
   fst (check_if_starred_ch2 token base_url owner repo net w) = Inr (status_code r = 204) \<and>
   calls (snd (check_if_starred_ch2 token base_url owner repo net w)) = calls w + 1"
  by (simp add: check_if_starred_ch2_def http_def calls_def)

theorem check_if_starred_ch2_status_witness:
  "script [] (Resp (resp 200 NoContent)) (length (sent fresh)) = Resp (resp 200 NoContent) \<and>
   fst (check_if_starred_ch2 ''t'' ''https://api.github.com'' ''octocat'' ''Hello-World''
          (script [] (Resp (resp 200 NoContent))) fresh) = Inr False \<and>
   calls (snd (check_if_starred_ch2 ''t'' ''https://api.github.com'' ''octocat'' ''Hello-World''
          (script [] (Resp (resp 200 NoContent))) fresh)) = 1"
  using check_if_starred_ch2_status
          [of "script [] (Resp (resp 200 NoContent))" fresh "resp 200 NoContent"
              "''t''" "''https://api.github.com''" "''octocat''" "''Hello-World''"]
  by (simp add: script_def fresh_def resp_def calls_def)

section \<open>Lemmas about \<open>_request\<close> of \<open>output.py\<close>\<close>

lemma reset_wait_positive: "\<not> reset_wait t now < 0"
  by (simp add: reset_wait_def max_def)

lemma sleep_reset_wait:
  "sleep (reset_wait t now) w =
     Inr (w\<lparr>clock := clock w + reset_wait t now, slept := slept w @ [reset_wait t now]\<rparr>)"
  by (simp add: sleep_def reset_wait_positive)

lemma request_out_no_room:
  "request_out 0 token base_url meth endpoint data params headers net w = (Inl RecursionError, w)"
  by (simp add: request_out.simps)

lemma request_out_final:
  assumes "0 < room" and "net (length (sent w)) = Resp r" and "status_code r \<noteq> 429"
  shows "request_out room token base_url meth endpoint data params headers net w =
         (result_out r,
          w\<lparr>sent := sent w @ [request_for_out token base_url meth endpoint data params headers]\<rparr>)"
  using assms by (cases room) (simp_all add: request_out.simps http_def Let_def)

lemma request_out_connfail:
  assumes "0 < room" and "net (length (sent w)) = ConnFail"
  shows "request_out room token base_url meth endpoint data params headers net w =
         (Inl (handle_out ConnectionError),
          w\<lparr>sent := sent w @ [request_for_out token base_url meth endpoint data params headers]\<rparr>)"
  using assms by (cases room) (simp_all add: request_out.simps http_def Let_def)

lemma request_out_malformed:
  assumes "0 < room" and "net (length (sent w)) = Resp r" and "status_code r = 429"
    and "ratelimit_reset r = Malformed"
  shows "request_out room token base_url meth endpoint data params headers net w =
         (Inl ValueError,
          w\<lparr>sent := sent w @ [request_for_out token base_url meth endpoint data params headers]\<rparr>)"
  using assms by (cases room) (simp_all add: request_out.simps http_def Let_def)

lemma request_out_429:
  assumes "net (length (sent w)) = Resp r" and "status_code r = 429"
    and "ratelimit_reset r \<noteq> Malformed"
  shows "request_out (Suc room) token base_url meth endpoint data params headers net w =
         request_out room token base_url meth endpoint data params headers net
           (w\<lparr>sent := sent w @ [request_for_out token base_url meth endpoint data params headers],
              clock := clock w + reset_wait (reset_time_of r) (clock w),
              slept := slept w @ [reset_wait (reset_time_of r) (clock w)]\<rparr>)"
  using assms
  by (simp add: request_out.simps http_def Let_def sleep_reset_wait reset_time_of_def
        split: hdr.splits)

text \<open>
  A call sends the same request again and again, at most \<open>room\<close> times and at least
  once when there is room at all, and leaves the heap alone.
\<close>

lemma request_out_sent:
  "\<exists>n. sent (snd (request_out room token base_url meth endpoint data params headers net w)) =
          sent w @ replicate n (request_for_out token base_url meth endpoint data params headers)
       \<and> n \<le> room \<and> (0 < room \<longrightarrow> 0 < n)
       \<and> heap (snd (request_out room token base_url meth endpoint data params headers net w))
           = heap w"
proof (induction room arbitrary: w)
  case 0
  have "sent w = sent w @ replicate 0
          (request_for_out token base_url meth endpoint data params headers)" by simp
  then show ?case unfolding request_out_no_room by (intro exI[of _ 0]) simp
next
  case (Suc room)
  let ?rq = "request_for_out token base_url meth endpoint data params headers"
  let ?w1 = "w\<lparr>sent := sent w @ [?rq]\<rparr>"
  let ?run = "request_out (Suc room) token base_url meth endpoint data params headers net w"
  have one: "snd ?run = ?w1 \<Longrightarrow> ?case"
    by (intro exI[of _ "Suc 0"]) simp
  show ?case
  proof (cases "net (length (sent w))")
    case ConnFail
    then show ?thesis by (intro one) (simp add: request_out_connfail)
  next
    case (Resp r)
    show ?thesis
    proof (cases "status_code r = 429")
      case False
      with Resp show ?thesis by (intro one) (simp add: request_out_final[where r = r])
    next
      case True
      show ?thesis
      proof (cases "ratelimit_reset r = Malformed")
        case True
        with \<open>status_code r = 429\<close> Resp show ?thesis
          by (intro one) (simp add: request_out_malformed[where r = r])
      next
        case False
        define w2 where "w2 = w\<lparr>sent := sent w @ [?rq],
              clock := clock w + reset_wait (reset_time_of r) (clock w),
              slept := slept w @ [reset_wait (reset_time_of r) (clock w)]\<rparr>"
        have step: "?run = request_out room token base_url meth endpoint data params headers net w2"
          unfolding w2_def using Resp True False by (rule request_out_429)
        from Suc[of w2] obtain n where
          n: "sent (snd (request_out room token base_url meth endpoint data params headers net w2))
                = sent w2 @ replicate n ?rq" "n \<le> room"
             "heap (snd (request_out room token base_url meth endpoint data params headers net w2))
                = heap w2"
          by blast
        have "sent (snd ?run) = sent w @ replicate (Suc n) ?rq"
          using n(1) by (simp add: step w2_def)
        moreover have "heap (snd ?run) = heap w" using n(3) by (simp add: step w2_def)
        ultimately show ?thesis using n(2) by (intro exI[of _ "Suc n"]) simp
      qed
    qed
  qed
qed

text \<open>
  If some later reply is not a 429, the call has come back by that reply; when it comes
  back on that very reply the result is the one made from it; and a call that returns
  a value has sent something.
\<close>

lemma request_out_returns:
  assumes "length (sent w) \<le> n" and "net n = Resp r" and "status_code r \<noteq> 429"
  shows "length (sent (snd (request_out room token base_url meth endpoint data params headers net w)))
           \<le> Suc n
         \<and> (length (sent (snd (request_out room token base_url meth endpoint data params headers
                                  net w))) = Suc n
              \<longrightarrow> fst (request_out room token base_url meth endpoint data params headers net w)
                    = result_out r)
         \<and> ((\<exists>j. fst (request_out room token base_url meth endpoint data params headers net w)
                    = Inr j)
              \<longrightarrow> length (sent w)
                    < length (sent (snd (request_out room token base_url meth endpoint data params
                                            headers net w))))"
  using assms(1)
proof (induction room arbitrary: w)
  case 0
  then show ?case by (simp add: request_out_no_room)
next
  case (Suc room)
  let ?rq = "request_for_out token base_url meth endpoint data params headers"
  show ?case
  proof (cases "net (length (sent w))")
    case ConnFail
    with Suc(2) assms(2) have "length (sent w) < n" by (cases "length (sent w) = n") auto
    with ConnFail show ?thesis by (simp add: request_out_connfail)
  next
    case (Resp r')
    show ?thesis
    proof (cases "status_code r' = 429")
      case False
      show ?thesis
      proof (cases "length (sent w) = n")
        case True
        with Resp assms(2) have "r' = r" by simp
        with Resp False True show ?thesis by (simp add: request_out_final[where r = r'])
      next
        case ne: False
        with Suc(2) have "length (sent w) < n" by simp
        with Resp False show ?thesis by (simp add: request_out_final[where r = r'])
      qed
    next
      case True
      with Resp assms(2,3) have "length (sent w) \<noteq> n" by auto
      with Suc(2) have lt: "length (sent w) < n" by simp
      show ?thesis
      proof (cases "ratelimit_reset r' = Malformed")
        case True
        with \<open>status_code r' = 429\<close> Resp lt show ?thesis
          by (simp add: request_out_malformed[where r = r'])
      next
        case False
        define w2 where "w2 = w\<lparr>sent := sent w @ [?rq],
              clock := clock w + reset_wait (reset_time_of r') (clock w),
              slept := slept w @ [reset_wait (reset_time_of r') (clock w)]\<rparr>"
        have len: "length (sent w2) = Suc (length (sent w))" by (simp add: w2_def)
        have step: "request_out (Suc room) token base_url meth endpoint data params headers net w =
                    request_out room token base_url meth endpoint data params headers net w2"
          unfolding w2_def using Resp True False by (rule request_out_429)
        have "length (sent w2) \<le> n" using lt len by simp
        from Suc(1)[OF this] show ?thesis
          unfolding step using len
          by (metis Suc_lessD)
      qed
    qed
  qed
qed

section \<open>Bodies of the create and update wrappers\<close>

text \<open>
  Claim C6, as amended. \<open>create_issue\<close> of \<open>output.py\<close>, called with \<open>owner\<close>,
  \<open>repo\<close> and \<open>title\<close> only, always comes back, with a result or an exception, and
  all it has sent by then is one and the same request, once or several times (at least
  once, unless the stack had no room for \<open>_request\<close> at all), whose JSON body has
  \<open>title\<close> as its only key. \<open>create_issue\<close> of Chapter 2 always sends the four keys
  \<open>title\<close>, \<open>body\<close>, \<open>assignees\<close> and \<open>labels\<close>, with null for each optional
  argument the caller left out.
\<close>

theorem create_issue_bodies:
  "(\<exists>n. sent (snd (create_issue_out room token base_url owner repo title None [] net w)) =
          sent w @ replicate n
            (request_for_out token base_url POST (''/repos/'' @ owner @ ''/'' @ repo @ ''/issues'')
               (Some [(''title'', JStr title)]) None None) \<and>
        n \<le> room \<and> (0 < room \<longrightarrow> 0 < n)) \<and>
   rq_json (request_for_out token base_url POST (''/repos/'' @ owner @ ''/'' @ repo @ ''/issues'')
              (Some [(''title'', JStr title)]) None None) =
     Some (JDict [(''title'', JStr title)]) \<and>
   rq_json (last (sent (snd (create_issue_ch2 token2 base_url2 owner2 repo2 title2 body assignees labels
                               net2 w2)))) =
     Some (JDict [(''title'', title2), (''body'', dflt body),
                  (''assignees'', dflt assignees), (''labels'', dflt labels)])"
proof (intro conjI)
  let ?ep = "''/repos/'' @ owner @ ''/'' @ repo @ ''/issues''"
  have "create_issue_out room token base_url owner repo title None [] net w =
        request_out room token base_url POST ?ep (Some [(''title'', JStr title)]) None None net w"
    by (simp add: create_issue_out_def dict_update_def)
  then show "\<exists>n. sent (snd (create_issue_out room token base_url owner repo title None [] net w)) =
          sent w @ replicate n
            (request_for_out token base_url POST ?ep (Some [(''title'', JStr title)]) None None) \<and>
        n \<le> room \<and> (0 < room \<longrightarrow> 0 < n)"
    using request_out_sent[of room token base_url POST ?ep "Some [(''title'', JStr title)]"
            None None net w]
    by auto
next
  show "rq_json (request_for_out token base_url POST (''/repos/'' @ owner @ ''/'' @ repo @ ''/issues'')
              (Some [(''title'', JStr title)]) None None) =
     Some (JDict [(''title'', JStr title)])"
    by (simp add: request_for_out_def)
next
  show "rq_json (last (sent (snd (create_issue_ch2 token2 base_url2 owner2 repo2 title2 body assignees labels
                               net2 w2)))) =
     Some (JDict [(''title'', title2), (''body'', dflt body),
                  (''assignees'', dflt assignees), (''labels'', dflt labels)])"
    by (simp add: create_issue_ch2_def http_def Let_def split: reply.splits sum.splits)
qed

theorem create_issue_bodies_witness:
  "create_issue_out plenty ''t'' ''https://api.github.com/'' ''octocat'' ''Hello-World'' ''Bug'' None []
       (script [] (Resp created)) fresh
     = (Inr (JDict [(''id'', JInt 1)]),
        fresh\<lparr>sent := [request_for_out ''t'' ''https://api.github.com/'' POST
                           ''/repos/octocat/Hello-World/issues''
                           (Some [(''title'', JStr ''Bug'')]) None None]\<rparr>) \<and>
   rq_url (request_for_out ''t'' ''https://api.github.com/'' POST
             ''/repos/octocat/Hello-World/issues'' (Some [(''title'', JStr ''Bug'')]) None None)
     = ''https://api.github.com/repos/octocat/Hello-World/issues'' \<and>
   rq_json (request_for_out ''t'' ''https://api.github.com/'' POST
              ''/repos/octocat/Hello-World/issues'' (Some [(''title'', JStr ''Bug'')]) None None)
     = Some (JDict [(''title'', JStr ''Bug'')]) \<and>
   (\<exists>n. sent (snd (create_issue_out plenty ''t'' ''https://api.github.com/'' ''octocat''
                      ''Hello-World'' ''Bug'' None [] (script [] (Resp created)) fresh)) =
          sent fresh @ replicate n
            (request_for_out ''t'' ''https://api.github.com/'' POST
               ''/repos/octocat/Hello-World/issues'' (Some [(''title'', JStr ''Bug'')]) None None) \<and>
        n \<le> plenty \<and> 0 < n)"
proof -
  let ?net = "script [] (Resp created)"
  let ?rq = "request_for_out ''t'' ''https://api.github.com/'' POST
               ''/repos/octocat/Hello-World/issues'' (Some [(''title'', JStr ''Bug'')]) None None"
  have room: "0 < plenty" by (simp add: plenty_def)
  have run: "create_issue_out plenty ''t'' ''https://api.github.com/'' ''octocat'' ''Hello-World''
               ''Bug'' None [] ?net fresh
             = (Inr (JDict [(''id'', JInt 1)]), fresh\<lparr>sent := [?rq]\<rparr>)"
    by (simp add: create_issue_out_def dict_update_def
          request_out_final[where r = created, OF room] script_def
          fresh_def created_def resp_def result_out_def raise_for_status_def response_json_def)
  have url: "rq_url ?rq = ''https://api.github.com/repos/octocat/Hello-World/issues''"
    by (simp add: request_for_out_def strip_slashes_right_def)
  from create_issue_bodies[of plenty "''t''" "''https://api.github.com/''" "''octocat''"
        "''Hello-World''" "''Bug''" ?net fresh] room run url
  show ?thesis by simp
qed

theorem create_issue_ch2_sends_nulls:
  "rq_json (last (sent (snd (create_issue_ch2 ''t'' ''https://api.github.com'' ''octocat''
                               ''Hello-World'' (JStr ''Bug'') None None None
                               (script [] (Resp created)) fresh)))) =
     Some (JDict [(''title'', JStr ''Bug''), (''body'', JNull),
                  (''assignees'', JNull), (''labels'', JNull)])"
  by (simp add: create_issue_ch2_def http_def script_def fresh_def created_def resp_def dflt_def
        raise_for_status_def response_json_def)


text \<open>
  Claim C7, as amended. \<open>update_issue\<close> of \<open>output.py\<close> always comes back, with a
  result or an exception, and all it has sent by then is one and the same request, once
  or several times (at least once, unless the stack had no room for \<open>_request\<close> at
  all), whose JSON body holds exactly the keyword arguments the caller supplied, and
  which has no body at all when there are none. \<open>update_issue\<close> of the Chapter 3 sample
  always sends the five keys \<open>title\<close>, \<open>body\<close>, \<open>state\<close>, \<open>assignees\<close> and
  \<open>labels\<close>, with null for each argument the caller left out.
\<close>

theorem update_issue_bodies:
  "(\<exists>n. sent (snd (update_issue_out room token base_url owner repo issue_number kwargs net w)) =
          sent w @ replicate n
            (request_for_out token base_url PATCH
               (''/repos/'' @ owner @ ''/'' @ repo @ ''/issues/'' @ issue_number)
               (Some kwargs) None None) \<and>
        n \<le> room \<and> (0 < room \<longrightarrow> 0 < n)) \<and>
   rq_json (request_for_out token base_url PATCH
              (''/repos/'' @ owner @ ''/'' @ repo @ ''/issues/'' @ issue_number)
              (Some kwargs) None None) =
     (if kwargs = [] then None else Some (JDict kwargs)) \<and>
   rq_json (last (sent (snd (update_issue_sample token2 base_url2 owner2 repo2 issue_number2
                               title body state assignees labels net2 w2)))) =
     Some (JDict [(''title'', dflt title), (''body'', dflt body), (''state'', dflt state),
                  (''assignees'', dflt assignees), (''labels'', dflt labels)])"
proof (intro conjI)
  let ?ep = "''/repos/'' @ owner @ ''/'' @ repo @ ''/issues/'' @ issue_number"
  show "\<exists>n. sent (snd (update_issue_out room token base_url owner repo issue_number kwargs net w)) =
          sent w @ replicate n (request_for_out token base_url PATCH ?ep (Some kwargs) None None) \<and>
        n \<le> room \<and> (0 < room \<longrightarrow> 0 < n)"
    using request_out_sent[of room token base_url PATCH ?ep "Some kwargs" None None net w]
    by (auto simp: update_issue_out_def)
next
  show "rq_json (request_for_out token base_url PATCH
              (''/repos/'' @ owner @ ''/'' @ repo @ ''/issues/'' @ issue_number)
              (Some kwargs) None None) =
     (if kwargs = [] then None else Some (JDict kwargs))"
    by (simp add: request_for_out_def)
next
  show "rq_json (last (sent (snd (update_issue_sample token2 base_url2 owner2 repo2 issue_number2
                               title body state assignees labels net2 w2)))) =
     Some (JDict [(''title'', dflt title), (''body'', dflt body), (''state'', dflt state),
                  (''assignees'', dflt assignees), (''labels'', dflt labels)])"
    by (simp add: update_issue_sample_def http_def Let_def split: reply.splits sum.splits)
qed

theorem update_issue_bodies_witness:
  "update_issue_out plenty ''t'' ''https://api.github.com'' ''octocat'' ''Hello-World'' ''7''
       [(''state'', JStr ''closed'')] (script [] (Resp created)) fresh
     = (Inr (JDict [(''id'', JInt 1)]),
        fresh\<lparr>sent := [request_for_out ''t'' ''https://api.github.com'' PATCH
                           ''/repos/octocat/Hello-World/issues/7''
                           (Some [(''state'', JStr ''closed'')]) None None]\<rparr>) \<and>
   rq_json (request_for_out ''t'' ''https://api.github.com'' PATCH
              ''/repos/octocat/Hello-World/issues/7'' (Some [(''state'', JStr ''closed'')])
              None None)
     = Some (JDict [(''state'', JStr ''closed'')]) \<and>
   (\<exists>n. sent (snd (update_issue_out plenty ''t'' ''https://api.github.com'' ''octocat''
                      ''Hello-World'' ''7'' [(''state'', JStr ''closed'')]
                      (script [] (Resp created)) fresh)) =
          sent fresh @ replicate n
            (request_for_out ''t'' ''https://api.github.com'' PATCH
               ''/repos/octocat/Hello-World/issues/7'' (Some [(''state'', JStr ''closed'')])
               None None) \<and>
        n \<le> plenty \<and> 0 < n)"
proof -
  let ?net = "script [] (Resp created)"
  let ?rq = "request_for_out ''t'' ''https://api.github.com'' PATCH
               ''/repos/octocat/Hello-World/issues/7'' (Some [(''state'', JStr ''closed'')])
               None None"
  have room: "0 < plenty" by (simp add: plenty_def)
  have run: "update_issue_out plenty ''t'' ''https://api.github.com'' ''octocat'' ''Hello-World'' ''7''
       [(''state'', JStr ''closed'')] ?net fresh
             = (Inr (JDict [(''id'', JInt 1)]), fresh\<lparr>sent := [?rq]\<rparr>)"
    by (simp add: update_issue_out_def
          request_out_final[where r = created, OF room] script_def
          fresh_def created_def resp_def result_out_def raise_for_status_def response_json_def)
  from update_issue_bodies[of plenty "''t''" "''https://api.github.com''" "''octocat''"
        "''Hello-World''" "''7''" "[(''state'', JStr ''closed'')]" ?net fresh] room run
  show ?thesis by simp
qed

theorem update_issue_sample_sends_nulls:
  "rq_json (last (sent (snd (update_issue_sample ''t'' ''https://api.github.com'' ''octocat''
                               ''Hello-World'' ''7'' None None (Some (JStr ''closed'')) None None
                               (script [] (Resp created)) fresh)))) =
     Some (JDict [(''title'', JNull), (''body'', JNull), (''state'', JStr ''closed''),
                  (''assignees'', JNull), (''labels'', JNull)])"
  by (simp add: update_issue_sample_def http_def script_def fresh_def created_def resp_def dflt_def
        raise_for_status_def response_json_def)

section \<open>Lemmas about \<open>paginate\<close>\<close>

lemma paginate_loop_unfold:
  "paginate_loop room token base_url endpoint a page all_items net w =
     (case request_out room token base_url GET endpoint None
             (Some (AList.update ''page'' (JInt page) (heap w ! a))) None net
             (w\<lparr>heap := (heap w)[a := AList.update ''page'' (JInt page) (heap w ! a)]\<rparr>) of
        (res, w1) \<Rightarrow>
           (case res of
                Inl e \<Rightarrow> Some (Inl e, w1)
              | Inr response \<Rightarrow>
                  (case response of
                     JList items \<Rightarrow>
                       if items = [] then Some (Inr all_items, w1)
                       else
                         (case map_of (heap w1 ! a) ''per_page'' of
                            None \<Rightarrow> Some (Inl KeyError, w1)
                          | Some pp \<Rightarrow>
                              (case len_lt (length items) pp of
                                 Inl e \<Rightarrow> Some (Inl e, w1)
                               | Inr short \<Rightarrow>
                                   if short then Some (Inr (all_items @ items), w1)
                                   else paginate_loop room token base_url endpoint a (page + 1)
                                          (all_items @ items) net w1))
                   | _ \<Rightarrow> Some (Inr all_items, w1))))"
  if "a < length (heap w)"
proof -
  let ?d = "AList.update ''page'' (JInt page) (heap w ! a)"
  let ?w0 = "w\<lparr>heap := (heap w)[a := ?d]\<rparr>"
  have d: "heap ?w0 ! a = ?d" using that by simp
  obtain res w1 where
    ro: "request_out room token base_url GET endpoint None (Some ?d) None net ?w0 = (res, w1)"
    by (cases "request_out room token base_url GET endpoint None (Some ?d) None net ?w0")
  show ?thesis
    by (subst paginate_loop.simps) (unfold Let_def d ro fst_conv snd_conv prod.case, rule refl)
qed

lemma paginate_loop_step:
  assumes "a < length (heap w)" and "net (length (sent w)) = Resp r" and "status_code r \<noteq> 429"
    and "0 < room"
  shows "paginate_loop room token base_url endpoint a page all_items net w =
     (case result_out r of
        Inl e \<Rightarrow> Some (Inl e, after_page token base_url endpoint a page w)
      | Inr response \<Rightarrow>
          (case response of
             JList items \<Rightarrow>
               if items = [] then Some (Inr all_items, after_page token base_url endpoint a page w)
               else
                 (case map_of (heap w ! a) ''per_page'' of
                    None \<Rightarrow> Some (Inl KeyError, after_page token base_url endpoint a page w)
                  | Some pp \<Rightarrow>
                      (case len_lt (length items) pp of
                         Inl e \<Rightarrow> Some (Inl e, after_page token base_url endpoint a page w)
                       | Inr short \<Rightarrow>
                           if short
                           then Some (Inr (all_items @ items), after_page token base_url endpoint a page w)
                           else paginate_loop room token base_url endpoint a (page + 1)
                                  (all_items @ items) net (after_page token base_url endpoint a page w)))
           | _ \<Rightarrow> Some (Inr all_items, after_page token base_url endpoint a page w)))"
proof -
  let ?d = "AList.update ''page'' (JInt page) (heap w ! a)"
  let ?w0 = "w\<lparr>heap := (heap w)[a := ?d]\<rparr>"
  have "net (length (sent ?w0)) = Resp r" using assms(2) by simp
  from request_out_final[where net = net and w = ?w0 and r = r, OF assms(4) this assms(3)]
  have ro: "request_out room token base_url GET endpoint None (Some ?d) None net ?w0 =
            (result_out r, after_page token base_url endpoint a page w)"
    by (simp add: after_page_def page_request_def)
  have h: "heap (after_page token base_url endpoint a page w) ! a = ?d"
    using assms(1) by (simp add: after_page_def)
  have pp: "map_of ?d ''per_page'' = map_of (heap w ! a) ''per_page''"
    by (simp add: update_conv')
  show ?thesis
    by (subst paginate_loop_unfold[OF assms(1)]) (simp add: ro h pp split: sum.splits json.splits)
qed


text \<open>
  What a finished sweep leaves behind: only the dictionary at \<open>a\<close> has changed, its
  \<open>page\<close> entry holds the number of the last page asked for, and, when the stack had
  room for \<open>_request\<close>, it is the very dictionary that went out with the last request.
\<close>

lemma paginate_loop_heap:
  assumes "paginate_loop room token base_url endpoint a page all_items net w = Some y"
  shows "a < length (heap w) \<longrightarrow>
         length (heap (snd y)) = length (heap w) \<and>
         (\<forall>b. b \<noteq> a \<longrightarrow> heap (snd y) ! b = heap w ! b) \<and>
         (\<exists>p. page \<le> p \<and> heap (snd y) ! a = AList.update ''page'' (JInt p) (heap w ! a)) \<and>
         (0 < room \<longrightarrow> sent (snd y) \<noteq> [] \<and>
                      rq_params (last (sent (snd y))) = Some (heap (snd y) ! a))"
proof (rule paginate_loop.raw_induct
    [where P = "\<lambda>room token base_url endpoint a page all_items net w y.
       a < length (heap w) \<longrightarrow>
         length (heap (snd y)) = length (heap w) \<and>
         (\<forall>b. b \<noteq> a \<longrightarrow> heap (snd y) ! b = heap w ! b) \<and>
         (\<exists>p. page \<le> p \<and> heap (snd y) ! a = AList.update ''page'' (JInt p) (heap w ! a)) \<and>
         (0 < room \<longrightarrow> sent (snd y) \<noteq> [] \<and>
                      rq_params (last (sent (snd y))) = Some (heap (snd y) ! a))",
     OF _ assms], goal_cases)
  case (1 f room tok url ep a page acc net w y)
  show ?case
  proof
    assume a: "a < length (heap w)"
    let ?d = "AList.update ''page'' (JInt page) (heap w ! a)"
    let ?w0 = "w\<lparr>heap := (heap w)[a := ?d]\<rparr>"
    let ?rq = "request_for_out tok url GET ep None (Some ?d) None"
    define res where "res = fst (request_out room tok url GET ep None (Some ?d) None net ?w0)"
    define w1 where "w1 = snd (request_out room tok url GET ep None (Some ?d) None net ?w0)"
    have d0: "heap ?w0 ! a = ?d" using a by simp
    note rest = 1(2)[unfolded Let_def d0, folded res_def w1_def]
    from request_out_sent[of room tok url GET ep None "Some ?d" None net ?w0] obtain n where
      s1: "sent w1 = sent w @ replicate n ?rq" and n: "0 < room \<longrightarrow> 0 < n"
      and h1: "heap w1 = (heap w)[a := ?d]"
      by (auto simp: w1_def)
    have sent1: "sent w1 \<noteq> [] \<and> rq_params (last (sent w1)) = Some (heap w1 ! a)" if "0 < room"
    proof -
      from n that obtain m where m: "n = Suc m" by (cases n) auto
      have "last (sent w1) = ?rq" unfolding s1 m by (simp del: replicate.simps)
      moreover have "sent w1 \<noteq> []" unfolding s1 m by simp
      ultimately show ?thesis using a by (simp add: h1 request_for_out_def)
    qed
    from rest consider (stop) "snd y = w1"
      | (more) acc' where "f room tok url ep a (page + 1) acc' net w1 = Some y"
      by (auto split: sum.splits json.splits option.splits if_splits)
    then show "length (heap (snd y)) = length (heap w) \<and>
         (\<forall>b. b \<noteq> a \<longrightarrow> heap (snd y) ! b = heap w ! b) \<and>
         (\<exists>p. page \<le> p \<and> heap (snd y) ! a = AList.update ''page'' (JInt p) (heap w ! a)) \<and>
         (0 < room \<longrightarrow> sent (snd y) \<noteq> [] \<and>
                      rq_params (last (sent (snd y))) = Some (heap (snd y) ! a))"
    proof cases
      case stop
      have "page \<le> page \<and> heap w1 ! a = AList.update ''page'' (JInt page) (heap w ! a)"
        using a by (simp add: h1)
      then have "\<exists>p. page \<le> p \<and> heap w1 ! a = AList.update ''page'' (JInt p) (heap w ! a)"
        by blast
      with stop sent1 show ?thesis by (simp add: h1)
    next
      case more
      have a1: "a < length (heap w1)" using a by (simp add: h1)
      from 1(1)[OF more] a1 obtain p where
        len: "length (heap (snd y)) = length (heap w1)"
        and others: "\<forall>b. b \<noteq> a \<longrightarrow> heap (snd y) ! b = heap w1 ! b"
        and p: "page + 1 \<le> p" "heap (snd y) ! a = AList.update ''page'' (JInt p) (heap w1 ! a)"
        and par: "0 < room \<longrightarrow> sent (snd y) \<noteq> [] \<and>
                    rq_params (last (sent (snd y))) = Some (heap (snd y) ! a)"
        by blast
      have "page \<le> p \<and> heap (snd y) ! a = AList.update ''page'' (JInt p) (heap w ! a)"
        using p a by (simp add: h1)
      then have "\<exists>p. page \<le> p \<and> heap (snd y) ! a = AList.update ''page'' (JInt p) (heap w ! a)"
        by blast
      moreover have "\<forall>b. b \<noteq> a \<longrightarrow> heap (snd y) ! b = heap w ! b"
        using others by (simp add: h1)
      ultimately show ?thesis using len par by (simp add: h1)
    qed
  qed
qed


section \<open>The caller's dictionary after \<open>paginate\<close>\<close>

text \<open>
  Claim C10, as amended. When the caller passes a non-empty \<open>params\<close> dictionary and
  the call comes back (with a result or an exception), that same dictionary has been
  changed in place: it now is the caller's dictionary with \<open>per_page\<close> set (the
  caller's own value, else 100) and \<open>page\<close> set to a page number, and it is exactly
  what the last request carried, so \<open>page\<close> is the last page asked for (a request was
  sent when the stack had room for \<open>_request\<close>). An empty dictionary passed by the
  caller is left empty: \<open>params or {}\<close> replaces it by a fresh one.
\<close>

theorem paginate_params_in_place:
  assumes "a < length (heap w)"
    and "paginate room token base_url endpoint (Some a) net w = Some (res, w')"
  shows "(heap w ! a \<noteq> [] \<longrightarrow>
            (\<exists>p. 1 \<le> p \<and>
                 heap w' ! a =
                   AList.update ''page'' (JInt p)
                     (AList.update ''per_page'' (per_page_of (heap w ! a)) (heap w ! a))) \<and>
            (0 < room \<longrightarrow> rq_params (last (sent w')) = Some (heap w' ! a))) \<and>
         (heap w ! a = [] \<longrightarrow> heap w' ! a = [])"
proof (intro conjI impI)
  assume ne: "heap w ! a \<noteq> []"
  let ?d = "AList.update ''per_page'' (per_page_of (heap w ! a)) (heap w ! a)"
  let ?w2 = "w\<lparr>heap := (heap w)[a := ?d]\<rparr>"
  from assms(2) ne have loop: "paginate_loop room token base_url endpoint a 1 [] net ?w2 = Some (res, w')"
    by (simp add: paginate_def per_page_of_def Let_def)
  have a2: "a < length (heap ?w2)" and d2: "heap ?w2 ! a = ?d"
    using assms(1) by simp_all
  from paginate_loop_heap[OF loop] a2 d2
  show "\<exists>p. 1 \<le> p \<and> heap w' ! a = AList.update ''page'' (JInt p) ?d"
    by auto
  assume "0 < room"
  with paginate_loop_heap[OF loop] a2 d2
  show "rq_params (last (sent w')) = Some (heap w' ! a)"
    by auto
next
  assume e: "heap w ! a = []"
  let ?a = "length (heap w)"
  let ?w2 = "w\<lparr>heap := (heap w @ [[]])[?a := AList.update ''per_page'' (JInt 100) []]\<rparr>"
  from assms(2) e have loop: "paginate_loop room token base_url endpoint ?a 1 [] net ?w2 = Some (res, w')"
    by (simp add: paginate_def alloc_def Let_def)
  have "?a < length (heap ?w2)" by simp
  with paginate_loop_heap[OF loop] have "\<forall>b. b \<noteq> ?a \<longrightarrow> heap w' ! b = heap ?w2 ! b"
    by simp
  moreover have "a \<noteq> ?a" using assms(1) by simp
  ultimately have "heap w' ! a = heap ?w2 ! a" by blast
  also have "\<dots> = heap w ! a" using assms(1) by (simp add: nth_append)
  finally show "heap w' ! a = []" using e by simp
qed


lemma resp_fields:
  "status_code (resp st b) = st" "content (resp st b) = b"
  "retry_after (resp st b) = Absent" "ratelimit_reset (resp st b) = Absent"
  by (simp_all add: resp_def)

lemma page_reply_result:
  "result_out (resp 200 (Json (JList items))) = Inr (JList items)"
  by (simp add: result_out_def resp_def raise_for_status_def response_json_def)

lemma plenty_room: "0 < plenty"
  by (simp add: plenty_def)

theorem paginate_params_in_place_witness:
  "0 < length (heap (fresh\<lparr>heap := [[(''state'', JStr ''open'')]]\<rparr>)) \<and> 0 < plenty \<and>
   paginate plenty ''t'' ''https://api.github.com'' ''/user/orgs'' (Some 0) (script [] (page_reply []))
       (fresh\<lparr>heap := [[(''state'', JStr ''open'')]]\<rparr>)
     = Some (Inr [],
             after_page ''t'' ''https://api.github.com'' ''/user/orgs'' 0 1
               (fresh\<lparr>heap := [[(''state'', JStr ''open''), (''per_page'', JInt 100)]]\<rparr>)) \<and>
   heap (after_page ''t'' ''https://api.github.com'' ''/user/orgs'' 0 1
           (fresh\<lparr>heap := [[(''state'', JStr ''open''), (''per_page'', JInt 100)]]\<rparr>)) ! 0
     = [(''state'', JStr ''open''), (''per_page'', JInt 100), (''page'', JInt 1)] \<and>
   rq_params (last (sent (after_page ''t'' ''https://api.github.com'' ''/user/orgs'' 0 1
           (fresh\<lparr>heap := [[(''state'', JStr ''open''), (''per_page'', JInt 100)]]\<rparr>))))
     = Some [(''state'', JStr ''open''), (''per_page'', JInt 100), (''page'', JInt 1)]"
proof -
  let ?net = "script [] (page_reply [])"
  let ?w = "fresh\<lparr>heap := [[(''state'', JStr ''open'')]]\<rparr>"
  let ?w' = "after_page ''t'' ''https://api.github.com'' ''/user/orgs'' 0 1
               (fresh\<lparr>heap := [[(''state'', JStr ''open''), (''per_page'', JInt 100)]]\<rparr>)"
  have a: "0 < length (heap ?w)" by simp
  have run: "paginate plenty ''t'' ''https://api.github.com'' ''/user/orgs'' (Some 0) ?net ?w
             = Some (Inr [], ?w')"
    by (simp add: paginate_def Let_def
          paginate_loop_step[where r = "resp 200 (Json (JList []))", OF _ _ _ plenty_room]
          page_reply_result script_def page_reply_def fresh_def resp_fields)
  have h: "heap ?w' ! 0 = [(''state'', JStr ''open''), (''per_page'', JInt 100), (''page'', JInt 1)]"
    by (simp add: after_page_def)
  from paginate_params_in_place[OF a run] plenty_room
  have "rq_params (last (sent ?w')) = Some (heap ?w' ! 0)"
    by simp
  with a run h plenty_room show ?thesis by simp
qed

theorem paginate_empty_params_untouched:
  "paginate plenty ''t'' ''https://api.github.com'' ''/user/orgs'' (Some 0) (script [] (page_reply []))
       (fresh\<lparr>heap := [[]]\<rparr>)
     = Some (Inr [],
             after_page ''t'' ''https://api.github.com'' ''/user/orgs'' 1 1
               (fresh\<lparr>heap := [[], [(''per_page'', JInt 100)]]\<rparr>)) \<and>
   heap (after_page ''t'' ''https://api.github.com'' ''/user/orgs'' 1 1
           (fresh\<lparr>heap := [[], [(''per_page'', JInt 100)]]\<rparr>)) ! 0 = []"
  by (simp add: paginate_def Let_def alloc_def
        paginate_loop_step[where r = "resp 200 (Json (JList []))", OF _ _ _ plenty_room]
        page_reply_result script_def page_reply_def fresh_def resp_fields after_page_def)

section \<open>Lemmas about \<open>_request\<close> of \<open>stargazers-advanced2.py\<close>\<close>

lemma sleep_after_sleep: "0 \<le> d \<Longrightarrow> sleep d w = Inr (after_sleep d w)"
  by (simp add: sleep_def after_sleep_def)

lemma after_call_fields:
  "sent (after_call rq w) = sent w @ [rq]" "clock (after_call rq w) = clock w"
  "slept (after_call rq w) = slept w" "heap (after_call rq w) = heap w"
  by (simp_all add: after_call_def)

lemma after_sleep_fields:
  "sent (after_sleep d w) = sent w" "clock (after_sleep d w) = clock w + d"
  "slept (after_sleep d w) = slept w @ [d]" "heap (after_sleep d w) = heap w"
  by (simp_all add: after_sleep_def)

lemma request_loop_adv2_unfold:
  "request_loop_adv2 cfg rq raw_response net retries last_error w =
     (if retries \<le> cfg_max_retries cfg then
        (case attempt_adv2 raw_response (clock w) (net (length (sent w))) of
              Returned2 p \<Rightarrow> Some (Inr p, after_call rq w)
            | Escaped2 e \<Rightarrow> Some (Inl e, after_call rq w)
            | Waited wait_time \<Rightarrow>
                (case sleep wait_time (after_call rq w) of
                   Inl e \<Rightarrow> Some (Inl e, after_call rq w)
                 | Inr w2 \<Rightarrow> request_loop_adv2 cfg rq raw_response net retries last_error w2)
            | Failed2 e \<Rightarrow>
                (case fatal_adv2 e of
                   Some x \<Rightarrow> Some (Inl x, after_call rq w)
                 | None \<Rightarrow>
                     if retries + 1 \<le> cfg_max_retries cfg then
                       (case sleep (cfg_retry_delay cfg * 2 ^ nat retries) (after_call rq w) of
                          Inl x \<Rightarrow> Some (Inl x, after_call rq w)
                        | Inr w2 \<Rightarrow>
                            request_loop_adv2 cfg rq raw_response net (retries + 1) (Some e) w2)
                     else request_loop_adv2 cfg rq raw_response net (retries + 1) (Some e)
                            (after_call rq w)))
      else Some (Inl (after_loop_adv2 cfg last_error), w))"
  unfolding after_call_def
  by (subst request_loop_adv2.simps) (simp add: http_def Let_def)

lemma request_loop_adv2_exhausted:
  "\<not> retries \<le> cfg_max_retries cfg \<Longrightarrow>
   request_loop_adv2 cfg rq raw_response net retries last_error w =
     Some (Inl (after_loop_adv2 cfg last_error), w)"
  by (subst request_loop_adv2_unfold) simp

lemma attempt_adv2_waited: "attempt_adv2 raw_response now rp = Waited d \<Longrightarrow> 0 \<le> d"
  by (auto simp: attempt_adv2_def finish_adv2_def reset_wait_def max_def
           split: reply.splits if_splits hdr.splits sum.splits)

lemma attempt_adv2_success:
  assumes "status_code r \<noteq> 429" and "raise_for_status r = Inr ()" and "content r = Json j"
  shows "attempt_adv2 False now (Resp r) = Returned2 (Decoded j)"
  using assms by (simp add: attempt_adv2_def finish_adv2_def response_json_def)

text \<open>
  If some later reply is a success with a JSON body, the loop returns, at the latest on
  that reply; a returned value has cost at least one call; and when the loop gets to
  that reply, it returns its decoded body.
\<close>

lemma request_loop_adv2_returns:
  assumes "length (sent w) \<le> n" and "net n = Resp r"
    and "status_code r \<noteq> 429" and "raise_for_status r = Inr ()" and "content r = Json j"
  shows "\<exists>res w'. request_loop_adv2 cfg rq False net retries last_error w = Some (res, w')
           \<and> length (sent w') \<le> Suc n
           \<and> (\<forall>p. res = Inr p \<longrightarrow> length (sent w) < length (sent w'))
           \<and> (length (sent w') = Suc n \<longrightarrow> res = Inr (Decoded j))"
  using assms(1)
proof (induction "n - length (sent w)" arbitrary: w retries last_error)
  case 0
  then have n: "length (sent w) = n" by simp
  show ?case
  proof (cases "retries \<le> cfg_max_retries cfg")
    case False
    then show ?thesis using n by (simp add: request_loop_adv2_exhausted)
  next
    case True
    have "attempt_adv2 False (clock w) (net (length (sent w))) = Returned2 (Decoded j)"
      using n assms(2-5) by (simp add: attempt_adv2_success)
    with True n show ?thesis
      by (subst request_loop_adv2_unfold) (simp add: after_call_fields)
  qed
next
  case (Suc k)
  then have lt: "length (sent w) < n" by simp
  let ?w1 = "after_call rq w"
  have len1: "length (sent ?w1) = Suc (length (sent w))" by (simp add: after_call_fields)
  have IH: "\<exists>res w'. request_loop_adv2 cfg rq False net retries' le' w2 = Some (res, w')
           \<and> length (sent w') \<le> Suc n
           \<and> (\<forall>p. res = Inr p \<longrightarrow> length (sent w) < length (sent w'))
           \<and> (length (sent w') = Suc n \<longrightarrow> res = Inr (Decoded j))"
    if "length (sent w2) = Suc (length (sent w))" for w2 retries' le'
  proof -
    have "k = n - length (sent w2)" using Suc(2) that by simp
    moreover have "length (sent w2) \<le> n" using lt that by simp
    ultimately obtain res w' where
      "request_loop_adv2 cfg rq False net retries' le' w2 = Some (res, w')"
      "length (sent w') \<le> Suc n"
      "\<forall>p. res = Inr p \<longrightarrow> length (sent w2) < length (sent w')"
      "length (sent w') = Suc n \<longrightarrow> res = Inr (Decoded j)"
      using Suc(1)[of w2 retries' le'] by blast
    with that show ?thesis by auto
  qed
  show ?case
  proof (cases "retries \<le> cfg_max_retries cfg")
    case False
    then show ?thesis using lt by (simp add: request_loop_adv2_exhausted)
  next
    case True
    show ?thesis
    proof (cases "attempt_adv2 False (clock w) (net (length (sent w)))")
      case (Returned2 p)
      with True lt show ?thesis
        by (subst request_loop_adv2_unfold) (simp add: after_call_fields)
    next
      case (Escaped2 e)
      with True lt show ?thesis
        by (subst request_loop_adv2_unfold) (simp add: after_call_fields)
    next
      case (Waited d)
      from attempt_adv2_waited[OF Waited] have "0 \<le> d" .
      then have sl: "sleep d ?w1 = Inr (after_sleep d ?w1)" by (rule sleep_after_sleep)
      have "length (sent (after_sleep d ?w1)) = Suc (length (sent w))"
        by (simp add: after_sleep_fields after_call_fields)
      from IH[OF this, of retries last_error] True Waited sl show ?thesis
        by (subst request_loop_adv2_unfold) simp
    next
      case (Failed2 e)
      show ?thesis
      proof (cases "fatal_adv2 e")
        case (Some x)
        with True lt Failed2 show ?thesis
          by (subst request_loop_adv2_unfold) (simp add: after_call_fields)
      next
        case None
        show ?thesis
        proof (cases "retries + 1 \<le> cfg_max_retries cfg")
          case False
          have "request_loop_adv2 cfg rq False net retries last_error w =
                request_loop_adv2 cfg rq False net (retries + 1) (Some e) ?w1"
            using True Failed2 None False by (subst request_loop_adv2_unfold) simp
          also have "\<dots> = Some (Inl (after_loop_adv2 cfg (Some e)), ?w1)"
            using False by (rule request_loop_adv2_exhausted)
          finally show ?thesis using lt by (simp add: after_call_fields)
        next
          case more: True
          show ?thesis
          proof (cases "sleep (cfg_retry_delay cfg * 2 ^ nat retries) ?w1")
            case (Inl x)
            with True Failed2 None more lt show ?thesis
              by (subst request_loop_adv2_unfold) (simp add: after_call_fields)
          next
            case (Inr w2)
            then have "length (sent w2) = Suc (length (sent w))"
              by (auto simp: sleep_def after_call_fields split: if_splits)
            from IH[OF this, of "retries + 1" "Some e"] True Failed2 None more Inr show ?thesis
              by (subst request_loop_adv2_unfold) simp
          qed
        qed
      qed
    qed
  qed
qed


section \<open>Termination of the pagination sweeps\<close>

lemma paginate_loop_returns:
  assumes "a < length (heap w)" and "length (sent w) \<le> n"
    and "net n = Resp r" and "status_code r \<noteq> 429" and "result_out r = Inr (JList items)"
    and "map_of (heap w ! a) ''per_page'' = Some (JInt per_page)"
    and "items = [] \<or> int (length items) < per_page"
  shows "\<exists>res w'. paginate_loop room token base_url endpoint a page all_items net w = Some (res, w')"
  using assms(1,2,6)
proof (induction "n - length (sent w)" arbitrary: w page all_items rule: less_induct)
  case less
  let ?d = "AList.update ''page'' (JInt page) (heap w ! a)"
  let ?w0 = "w\<lparr>heap := (heap w)[a := ?d]\<rparr>"
  obtain res w1 where
    ro: "request_out room token base_url GET endpoint None (Some ?d) None net ?w0 = (res, w1)"
    by (cases "request_out room token base_url GET endpoint None (Some ?d) None net ?w0")
  have "length (sent ?w0) \<le> n" using less.prems(2) by simp
  from request_out_returns[where net = net and n = n and w = ?w0 and r = r and token = token
        and base_url = base_url and meth = GET and endpoint = endpoint and data = None and params = "Some ?d"
        and headers = None and room = room, OF this assms(3,4)]
  have bound: "length (sent w1) \<le> Suc n"
    and final: "length (sent w1) = Suc n \<longrightarrow> res = result_out r"
    and grow: "(\<exists>j. res = Inr j) \<longrightarrow> length (sent w) < length (sent w1)"
    by (simp_all add: ro)
  from request_out_sent[of room token base_url GET endpoint None "Some ?d" None net ?w0]
  have h1: "heap w1 = (heap w)[a := ?d]" by (auto simp: ro)
  have a1: "a < length (heap w1)" using less.prems(1) by (simp add: h1)
  have pp1: "map_of (heap w1 ! a) ''per_page'' = Some (JInt per_page)"
    using less.prems(1,3) by (simp add: h1 update_conv')
  have unfold: "paginate_loop room token base_url endpoint a page all_items net w =
        (case res of
                Inl e \<Rightarrow> Some (Inl e, w1)
              | Inr response \<Rightarrow>
                  (case response of
                     JList items \<Rightarrow>
                       if items = [] then Some (Inr all_items, w1)
                       else
                         (case len_lt (length items) (JInt per_page) of
                                 Inl e \<Rightarrow> Some (Inl e, w1)
                               | Inr short \<Rightarrow>
                                   if short then Some (Inr (all_items @ items), w1)
                                   else paginate_loop room token base_url endpoint a (page + 1)
                                          (all_items @ items) net w1)
                   | _ \<Rightarrow> Some (Inr all_items, w1)))"
    by (subst paginate_loop_unfold[OF less.prems(1)]) (simp add: ro pp1 split: sum.splits json.splits)
  show ?case
  proof (cases res)
    case (Inl e)
    then show ?thesis by (simp add: unfold)
  next
    case (Inr response)
    show ?thesis
    proof (cases response)
      case (JList items')
      show ?thesis
      proof (cases "items' = [] \<or> int (length items') < per_page")
        case True
        with Inr JList show ?thesis by (auto simp: unfold)
      next
        case False
        with final Inr JList assms(5,7) have "length (sent w1) \<noteq> Suc n" by auto
        with bound have b1: "length (sent w1) \<le> n" by simp
        from grow Inr have "length (sent w) < length (sent w1)" by simp
        with b1 have "n - length (sent w1) < n - length (sent w)" by arith
        from less.hyps[OF this a1 b1 pp1, of "page + 1" "all_items @ items'"]
        show ?thesis using Inr JList False by (simp add: unfold)
      qed
    qed (simp_all add: unfold Inr)
  qed
qed

lemma paginate_returns:
  assumes "params = None \<or> (\<exists>a. params = Some a \<and> a < length (heap w))"
    and "length (sent w) \<le> n"
    and "net n = Resp r" and "status_code r \<noteq> 429" and "result_out r = Inr (JList items)"
    and "per_page_of (case params of None \<Rightarrow> [] | Some a \<Rightarrow> heap w ! a) = JInt per_page"
    and "items = [] \<or> int (length items) < per_page"
  shows "\<exists>res w'. paginate room token base_url endpoint params net w = Some (res, w')"
proof (cases "params = None \<or> (\<exists>a. params = Some a \<and> heap w ! a = [])")
  case True
  let ?a = "length (heap w)"
  let ?w2 = "w\<lparr>heap := (heap w @ [[]])[?a := AList.update ''per_page'' (JInt 100) []]\<rparr>"
  from True have eq: "paginate room token base_url endpoint params net w =
                      paginate_loop room token base_url endpoint ?a 1 [] net ?w2"
    by (auto simp: paginate_def alloc_def Let_def)
  from True assms(6) have pp: "per_page = 100" by (auto simp: per_page_of_def)
  have "\<exists>res w'. paginate_loop room token base_url endpoint ?a 1 [] net ?w2 = Some (res, w')"
  proof (rule paginate_loop_returns[where net = net and n = n and r = r and items = items
        and per_page = per_page, OF _ _ assms(3,4,5) _ assms(7)])
    show "?a < length (heap ?w2)" by simp
    show "length (sent ?w2) \<le> n" using assms(2) by simp
    show "map_of (heap ?w2 ! ?a) ''per_page'' = Some (JInt per_page)" by (simp add: pp)
  qed
  with eq show ?thesis by simp
next
  case False
  with assms(1) obtain a where a: "params = Some a" "a < length (heap w)" "heap w ! a \<noteq> []"
    by auto
  let ?d = "AList.update ''per_page'' (per_page_of (heap w ! a)) (heap w ! a)"
  let ?w2 = "w\<lparr>heap := (heap w)[a := ?d]\<rparr>"
  from a have eq: "paginate room token base_url endpoint params net w =
                      paginate_loop room token base_url endpoint a 1 [] net ?w2"
    by (simp add: paginate_def per_page_of_def Let_def)
  from a assms(6) have pp: "per_page_of (heap w ! a) = JInt per_page" by simp
  have "\<exists>res w'. paginate_loop room token base_url endpoint a 1 [] net ?w2 = Some (res, w')"
  proof (rule paginate_loop_returns[where net = net and n = n and r = r and items = items
        and per_page = per_page, OF _ _ assms(3,4,5) _ assms(7)])
    show "a < length (heap ?w2)" using a by simp
    show "length (sent ?w2) \<le> n" using assms(2) by simp
    show "map_of (heap ?w2 ! a) ''per_page'' = Some (JInt per_page)"
      using a by (simp add: pp update_conv')
  qed
  with eq show ?thesis by simp
qed


lemma star_history_loop_unfold:
  assumes "request_loop_adv2 cfg (stargazers_request cfg owner repo page) False net 0 None w
             = Some (res, w1)"
  shows "star_history_loop cfg owner repo max_pages net page all_stargazers w =
          (case res of
            Inl e \<Rightarrow>
              (case e of
                 GitHubAPIError st m \<Rightarrow> Some (Inr all_stargazers, w1)
               | _ \<Rightarrow> Some (Inl e, w1))
          | Inr p \<Rightarrow>
              (if \<not> truthy (decoded p) \<or> page > max_pages
                  then Some (Inr all_stargazers, w1)
                  else
                    (case py_iter (decoded p) of
                       Inl e \<Rightarrow> Some (Inl e, w1)
                     | Inr items \<Rightarrow>
                         if is_list (decoded p) \<and> length items < 100
                         then Some (Inr (all_stargazers @ items), w1)
                         else star_history_loop cfg owner repo max_pages net (page + 1)
                                (all_stargazers @ items) w1)))"
  using assms
  by (subst star_history_loop.simps)
     (simp add: get_adv2_def request_adv2_def stargazers_request_def Let_def cong: sum.case_cong)

lemma star_history_loop_returns:
  assumes "length (sent w) \<le> n" and "net n = Resp r"
    and "status_code r \<noteq> 429" and "raise_for_status r = Inr ()"
    and "content r = Json (JList items)" and "length items < 100"
  shows "\<exists>res w'. star_history_loop cfg owner repo max_pages net page all_stargazers w
                   = Some (res, w')"
  using assms(1)
proof (induction "n - length (sent w)" arbitrary: w page all_stargazers rule: less_induct)
  case less
  from request_loop_adv2_returns[where net = net and n = n and w = w and r = r
        and j = "JList items" and cfg = cfg and rq = "stargazers_request cfg owner repo page"
        and retries = 0 and last_error = None, OF less.prems assms(2-5)]
  obtain res w1 where
    run: "request_loop_adv2 cfg (stargazers_request cfg owner repo page) False net 0 None w
            = Some (res, w1)"
    and bound: "length (sent w1) \<le> Suc n"
    and grow: "\<forall>p. res = Inr p \<longrightarrow> length (sent w) < length (sent w1)"
    and final: "length (sent w1) = Suc n \<longrightarrow> res = Inr (Decoded (JList items))"
    by blast
  note unfold = star_history_loop_unfold[OF run, where max_pages = max_pages
      and all_stargazers = all_stargazers]
  show ?case
  proof (cases res)
    case (Inl e)
    then show ?thesis by (cases e) (simp_all add: unfold)
  next
    case (Inr p)
    show ?thesis
    proof (cases "\<not> truthy (decoded p) \<or> page > max_pages")
      case True
      with Inr show ?thesis by (simp add: unfold)
    next
      case go: False
      show ?thesis
      proof (cases "py_iter (decoded p)")
        case (Inl e)
        with Inr go show ?thesis by (simp add: unfold)
      next
        case its: (Inr its)
        show ?thesis
        proof (cases "is_list (decoded p) \<and> length its < 100")
          case True
          with Inr go its show ?thesis by (simp add: unfold)
        next
          case False
          have "length (sent w1) \<noteq> Suc n"
          proof
            assume "length (sent w1) = Suc n"
            with final Inr have "p = Decoded (JList items)" by simp
            with its have "is_list (decoded p) \<and> its = items" by (simp add: decoded_def)
            with False assms(6) show False by simp
          qed
          with bound have b1: "length (sent w1) \<le> n" by simp
          from grow Inr have "length (sent w) < length (sent w1)" by simp
          with b1 have "n - length (sent w1) < n - length (sent w)" by arith
          from less.hyps[OF this b1, of "page + 1" "all_stargazers @ its"]
          show ?thesis using Inr go its False by (simp add: unfold)
        qed
      qed
    qed
  qed
qed

lemma get_star_history_returns:
  assumes "length (sent w) \<le> n" and "net n = Resp r"
    and "status_code r \<noteq> 429" and "raise_for_status r = Inr ()"
    and "content r = Json (JList items)" and "length items < 100"
  shows "\<exists>res w'. get_star_history cfg owner repo max_pages net w = Some (res, w')"
proof -
  from star_history_loop_returns[where net = net and n = n and r = r and items = items
        and cfg = cfg and owner = owner and repo = repo and max_pages = max_pages
        and page = 1 and all_stargazers = "[]", OF assms]
  obtain res w1 where "star_history_loop cfg owner repo max_pages net 1 [] w = Some (res, w1)"
    by blast
  then show ?thesis
    by (simp add: get_star_history_def split: sum.splits)
qed


lemma ok_result_out:
  assumes "status_code r = 200" and "content r = Json j"
  shows "result_out r = Inr j"
  using assms by (simp add: result_out_def raise_for_status_def response_json_def)

text \<open>
  Claim C8. In the well-behaved case the sweep terminates: if some reply still to come
  (the \<open>n\<close>-th network call) is a 200 response whose body is a list that is empty or
  shorter than \<open>per_page\<close>, then \<open>paginate\<close> comes back, whatever the replies before
  it are; and if it is shorter than 100, \<open>get_star_history\<close> comes back.
\<close>

theorem pagination_terminates:
  assumes "length (sent w) \<le> n" and "net n = Resp r"
    and "status_code r = 200" and "content r = Json (JList items)"
  shows "((params = None \<or> (\<exists>a. params = Some a \<and> a < length (heap w))) \<and>
          per_page_of (case params of None \<Rightarrow> [] | Some a \<Rightarrow> heap w ! a) = JInt per_page \<and>
          (items = [] \<or> int (length items) < per_page)
          \<longrightarrow> (\<exists>res w'. paginate room token base_url endpoint params net w = Some (res, w'))) \<and>
         (length items < 100
          \<longrightarrow> (\<exists>res w'. get_star_history cfg owner repo max_pages net w = Some (res, w')))"
proof (intro conjI impI)
  assume h: "(params = None \<or> (\<exists>a. params = Some a \<and> a < length (heap w))) \<and>
          per_page_of (case params of None \<Rightarrow> [] | Some a \<Rightarrow> heap w ! a) = JInt per_page \<and>
          (items = [] \<or> int (length items) < per_page)"
  have st: "status_code r \<noteq> 429" using assms(3) by simp
  have res: "result_out r = Inr (JList items)" using assms(3,4) by (rule ok_result_out)
  from h show "\<exists>res w'. paginate room token base_url endpoint params net w = Some (res, w')"
    using paginate_returns[where net = net and n = n and r = r and items = items
        and per_page = per_page and params = params and w = w, OF _ assms(1,2) st res]
    by blast
next
  assume short: "length items < 100"
  have st: "status_code r \<noteq> 429" using assms(3) by simp
  have ok: "raise_for_status r = Inr ()" using assms(3) by (simp add: raise_for_status_def)
  show "\<exists>res w'. get_star_history cfg owner repo max_pages net w = Some (res, w')"
    by (rule get_star_history_returns[where net = net and n = n and r = r and items = items,
          OF assms(1,2) st ok assms(4) short])
qed

theorem pagination_terminates_witness:
  "length (sent (fresh\<lparr>heap := [[(''per_page'', JInt 2)]]\<rparr>)) \<le> 1 \<and>
   script [page_reply [JInt 1, JInt 2]] (page_reply [JInt 3]) 1 = Resp (resp 200 (Json (JList [JInt 3]))) \<and>
   (\<exists>res w'. paginate plenty ''t'' ''https://api.github.com'' ''/user/orgs'' (Some 0)
                (script [page_reply [JInt 1, JInt 2]] (page_reply [JInt 3]))
                (fresh\<lparr>heap := [[(''per_page'', JInt 2)]]\<rparr>) = Some (res, w')) \<and>
   (\<exists>res w'. get_star_history default_config ''octocat'' ''Hello-World'' 100
                (script [page_reply [JInt 1, JInt 2]] (page_reply [JInt 3]))
                (fresh\<lparr>heap := [[(''per_page'', JInt 2)]]\<rparr>) = Some (res, w'))"
proof -
  let ?net = "script [page_reply [JInt 1, JInt 2]] (page_reply [JInt 3])"
  let ?w = "fresh\<lparr>heap := [[(''per_page'', JInt 2)]]\<rparr>"
  have 1: "length (sent ?w) \<le> 1" by (simp add: fresh_def)
  have 2: "?net 1 = Resp (resp 200 (Json (JList [JInt 3])))"
    by (simp add: script_def page_reply_def)
  have 3: "status_code (resp 200 (Json (JList [JInt 3]))) = 200"
    and 4: "content (resp 200 (Json (JList [JInt 3]))) = Json (JList [JInt 3])"
    by (simp_all add: resp_fields)
  from pagination_terminates[where net = ?net and n = 1 and w = ?w
      and r = "resp 200 (Json (JList [JInt 3]))" and items = "[JInt 3]" and params = "Some 0"
      and per_page = 2 and token = "''t''" and base_url = "''https://api.github.com''"
      and endpoint = "''/user/orgs''" and room = plenty and cfg = default_config and owner = "''octocat''"
      and repo = "''Hello-World''" and max_pages = 100, OF 1 2 3 4]
  have "(\<exists>res w'. paginate plenty ''t'' ''https://api.github.com'' ''/user/orgs'' (Some 0) ?net ?w
            = Some (res, w')) \<and>
        (\<exists>res w'. get_star_history default_config ''octocat'' ''Hello-World'' 100 ?net ?w
            = Some (res, w'))"
    by (simp add: per_page_of_def fresh_def)
  with 1 2 show ?thesis by simp
qed

section \<open>The pages a sweep fetches and what it returns\<close>

lemma paginate_loop_sweep:
  assumes "a < length (heap w)"
    and "map_of (heap w ! a) ''per_page'' = Some (JInt per_page)"
    and "\<forall>i\<le>k. net (length (sent w) + i) = page_reply (pages i)"
    and "\<forall>i<k. pages i \<noteq> [] \<and> per_page \<le> int (length (pages i))"
    and "pages k = [] \<or> int (length (pages k)) < per_page"
    and "0 < room"
  shows "paginate_loop room token base_url endpoint a page all_items net w =
     Some (Inr (all_items @ concat (map pages [0..<Suc k])),
           w\<lparr>sent := sent w @
                   map (\<lambda>i. page_request token base_url endpoint
                               (AList.update ''page'' (JInt (page + int i)) (heap w ! a)))
                     [0..<Suc k],
             heap := (heap w)[a := AList.update ''page'' (JInt (page + int k)) (heap w ! a)]\<rparr>)"
  using assms(1-5)
proof (induction k arbitrary: w page all_items pages)
  case 0
  let ?r = "resp 200 (Json (JList (pages 0)))"
  have net0: "net (length (sent w)) = Resp ?r"
    using 0(3)[rule_format, of 0] by (simp add: page_reply_def)
  have st: "status_code ?r \<noteq> 429" by (simp add: resp_fields)
  have short: "pages 0 \<noteq> [] \<longrightarrow> int (length (pages 0)) < per_page" using 0(5) by blast
  show ?case
    using short
    by (subst paginate_loop_step[where r = ?r and net = net and w = w and a = a, OF 0(1) net0 st assms(6)])
       (simp add: page_reply_result 0(2) after_page_def)
next
  case (Suc k)
  let ?r = "resp 200 (Json (JList (pages 0)))"
  let ?d = "heap w ! a"
  let ?w1 = "after_page token base_url endpoint a page w"
  have net0: "net (length (sent w)) = Resp ?r"
    using Suc(4)[rule_format, of 0] by (simp add: page_reply_def)
  have st: "status_code ?r \<noteq> 429" by (simp add: resp_fields)
  have full: "pages 0 \<noteq> []" "\<not> int (length (pages 0)) < per_page"
    using Suc(5) by auto
  have step: "paginate_loop room token base_url endpoint a page all_items net w =
              paginate_loop room token base_url endpoint a (page + 1) (all_items @ pages 0) net ?w1"
    using full
    by (subst paginate_loop_step[where r = ?r and net = net and w = w and a = a, OF Suc(2) net0 st assms(6)])
       (simp add: page_reply_result Suc(3))
  have a1: "a < length (heap ?w1)" using Suc(2) by (simp add: after_page_def)
  have h1: "heap ?w1 ! a = AList.update ''page'' (JInt page) ?d"
    using Suc(2) by (simp add: after_page_def)
  have pp1: "map_of (heap ?w1 ! a) ''per_page'' = Some (JInt per_page)"
    using Suc(3) by (simp add: h1 update_conv')
  have len1: "length (sent ?w1) = Suc (length (sent w))" by (simp add: after_page_def)
  have net1: "\<forall>i\<le>k. net (length (sent ?w1) + i) = page_reply (pages (Suc i))"
  proof (intro allI impI)
    fix i assume "i \<le> k"
    then have "Suc i \<le> Suc k" by simp
    from Suc(4)[rule_format, OF this] show "net (length (sent ?w1) + i) = page_reply (pages (Suc i))"
      by (simp add: len1)
  qed
  have full1: "\<forall>i<k. pages (Suc i) \<noteq> [] \<and> per_page \<le> int (length (pages (Suc i)))"
    using Suc(5) by auto
  have last1: "pages (Suc k) = [] \<or> int (length (pages (Suc k))) < per_page"
    using Suc(6) .
  note IH = Suc(1)[where w = ?w1 and pages = "\<lambda>i. pages (Suc i)" and page = "page + 1"
      and all_items = "all_items @ pages 0", OF a1 pp1 net1 full1 last1]
  have ar: "page + 1 + int i = page + int (Suc i)" for i by simp
  have items: "(all_items @ pages 0) @ concat (map (\<lambda>i. pages (Suc i)) [0..<Suc k]) =
               all_items @ concat (map pages [0..<Suc (Suc k)])"
    by (simp only: map_upt_Suc[of pages "Suc k"] concat.simps append_assoc)
  have reqs: "sent ?w1 @
                map (\<lambda>i. page_request token base_url endpoint
                            (AList.update ''page'' (JInt (page + 1 + int i)) (heap ?w1 ! a)))
                  [0..<Suc k] =
              sent w @
                map (\<lambda>i. page_request token base_url endpoint
                            (AList.update ''page'' (JInt (page + int i)) ?d))
                  [0..<Suc (Suc k)]"
  proof -
    have "map (\<lambda>i. page_request token base_url endpoint
                            (AList.update ''page'' (JInt (page + int i)) ?d))
                  [0..<Suc (Suc k)] =
          page_request token base_url endpoint (AList.update ''page'' (JInt page) ?d) #
          map (\<lambda>i. page_request token base_url endpoint
                            (AList.update ''page'' (JInt (page + int (Suc i))) ?d))
                  [0..<Suc k]"
      by (subst map_upt_Suc) simp
    moreover have "(\<lambda>i. page_request token base_url endpoint
                            (AList.update ''page'' (JInt (page + 1 + int i)) (heap ?w1 ! a))) =
                   (\<lambda>i. page_request token base_url endpoint
                            (AList.update ''page'' (JInt (page + int (Suc i))) ?d))"
      by (simp only: h1 ar update_last)
    moreover have "sent ?w1 = sent w @ [page_request token base_url endpoint
                                           (AList.update ''page'' (JInt page) ?d)]"
      by (simp add: after_page_def)
    ultimately show ?thesis by simp
  qed
  have hp: "(heap ?w1)[a := AList.update ''page'' (JInt (page + 1 + int k)) (heap ?w1 ! a)] =
            (heap w)[a := AList.update ''page'' (JInt (page + int (Suc k))) ?d]"
    by (simp only: h1 ar update_last) (simp add: after_page_def)
  have world: "?w1\<lparr>sent := sent ?w1 @
                   map (\<lambda>i. page_request token base_url endpoint
                               (AList.update ''page'' (JInt (page + 1 + int i)) (heap ?w1 ! a)))
                     [0..<Suc k],
             heap := (heap ?w1)[a := AList.update ''page'' (JInt (page + 1 + int k)) (heap ?w1 ! a)]\<rparr>
           = w\<lparr>sent := sent w @
                   map (\<lambda>i. page_request token base_url endpoint
                               (AList.update ''page'' (JInt (page + int i)) ?d))
                     [0..<Suc (Suc k)],
             heap := (heap w)[a := AList.update ''page'' (JInt (page + int (Suc k))) ?d]\<rparr>"
    unfolding reqs hp by (simp add: after_page_def)
  show ?case
    unfolding step IH items world ..
qed


lemma paginate_sweep:
  assumes "params = None \<or> (\<exists>a. params = Some a \<and> a < length (heap w))"
    and "per_page_of (case params of None \<Rightarrow> [] | Some a \<Rightarrow> heap w ! a) = JInt per_page"
    and "\<forall>i\<le>k. net (length (sent w) + i) = page_reply (pages i)"
    and "\<forall>i<k. pages i \<noteq> [] \<and> per_page \<le> int (length (pages i))"
    and "pages k = [] \<or> int (length (pages k)) < per_page"
    and "0 < room"
  shows "\<exists>w'. paginate room token base_url endpoint params net w =
                 Some (Inr (concat (map pages [0..<Suc k])), w') \<and>
              sent w' = sent w @
                map (\<lambda>i. page_request token base_url endpoint
                            (AList.update ''page'' (JInt (1 + int i))
                               (AList.update ''per_page'' (JInt per_page)
                                  (case params of None \<Rightarrow> [] | Some a \<Rightarrow> heap w ! a))))
                  [0..<Suc k]"
proof (cases "params = None \<or> (\<exists>a. params = Some a \<and> heap w ! a = [])")
  case True
  let ?a = "length (heap w)"
  let ?w2 = "w\<lparr>heap := (heap w @ [[]])[?a := AList.update ''per_page'' (JInt 100) []]\<rparr>"
  from True have eq: "paginate room token base_url endpoint params net w =
                      paginate_loop room token base_url endpoint ?a 1 [] net ?w2"
    by (auto simp: paginate_def alloc_def Let_def)
  from True assms(2) have pp: "per_page = 100" by (auto simp: per_page_of_def)
  from True have d0: "(case params of None \<Rightarrow> [] | Some a \<Rightarrow> heap w ! a) = []" by auto
  have a2: "?a < length (heap ?w2)" by simp
  have h2: "heap ?w2 ! ?a = AList.update ''per_page'' (JInt per_page) []" by (simp add: pp)
  have pp2: "map_of (heap ?w2 ! ?a) ''per_page'' = Some (JInt per_page)" by (simp add: pp)
  have net2: "\<forall>i\<le>k. net (length (sent ?w2) + i) = page_reply (pages i)"
    using assms(3) by simp
  show ?thesis
    unfolding eq d0
    by (subst paginate_loop_sweep[where net = net and w = ?w2 and a = ?a and k = k
          and pages = pages and per_page = per_page, OF a2 pp2 net2 assms(4,5,6)])
       (simp add: pp)
next
  case False
  with assms(1) obtain a where a: "params = Some a" "a < length (heap w)" "heap w ! a \<noteq> []"
    by auto
  let ?d = "AList.update ''per_page'' (JInt per_page) (heap w ! a)"
  let ?w2 = "w\<lparr>heap := (heap w)[a := ?d]\<rparr>"
  from a assms(2) have pp: "per_page_of (heap w ! a) = JInt per_page" by simp
  from a have eq: "paginate room token base_url endpoint params net w =
                      paginate_loop room token base_url endpoint a 1 [] net ?w2"
    using pp by (simp add: paginate_def per_page_of_def Let_def)
  have a2: "a < length (heap ?w2)" using a by simp
  have h2: "heap ?w2 ! a = ?d" using a by simp
  have pp2: "map_of (heap ?w2 ! a) ''per_page'' = Some (JInt per_page)"
    using a by (simp add: update_conv')
  have net2: "\<forall>i\<le>k. net (length (sent ?w2) + i) = page_reply (pages i)"
    using assms(3) by simp
  show ?thesis
    unfolding eq
    by (subst paginate_loop_sweep[where net = net and w = ?w2 and a = a and k = k
          and pages = pages and per_page = per_page, OF a2 pp2 net2 assms(4,5,6)])
       (simp add: a)
qed

lemma request_loop_adv2_page:
  assumes "0 \<le> cfg_max_retries cfg" and "net (length (sent w)) = page_reply items"
  shows "request_loop_adv2 cfg rq False net 0 None w =
         Some (Inr (Decoded (JList items)), after_call rq w)"
proof -
  have "attempt_adv2 False (clock w) (net (length (sent w))) = Returned2 (Decoded (JList items))"
    unfolding assms(2) page_reply_def
    by (rule attempt_adv2_success) (simp_all add: resp_fields raise_for_status_def)
  with assms(1) show ?thesis
    by (subst request_loop_adv2_unfold) simp
qed

lemma star_history_loop_sweep:
  assumes "0 \<le> cfg_max_retries cfg"
    and "\<forall>i\<le>k. net (length (sent w) + i) = page_reply (pages i)"
    and "\<forall>i<k. 100 \<le> length (pages i)"
    and "length (pages k) < 100"
    and "page + int k \<le> max_pages"
  shows "star_history_loop cfg owner repo max_pages net page all_stargazers w =
     Some (Inr (all_stargazers @ concat (map pages [0..<Suc k])),
           w\<lparr>sent := sent w @
                   map (\<lambda>i. stargazers_request cfg owner repo (page + int i)) [0..<Suc k]\<rparr>)"
  using assms(2-5)
proof (induction k arbitrary: w page all_stargazers pages)
  case 0
  have net0: "net (length (sent w)) = page_reply (pages 0)"
    using 0(1)[rule_format, of 0] by simp
  note run = request_loop_adv2_page[where net = net and w = w and items = "pages 0"
      and rq = "stargazers_request cfg owner repo page", OF assms(1) net0]
  show ?case
    using 0(3,4)
    by (subst star_history_loop_unfold[OF run])
       (cases "pages 0"; simp add: decoded_def after_call_def)
next
  case (Suc k)
  let ?w1 = "after_call (stargazers_request cfg owner repo page) w"
  have net0: "net (length (sent w)) = page_reply (pages 0)"
    using Suc(2)[rule_format, of 0] by simp
  note run = request_loop_adv2_page[where net = net and w = w and items = "pages 0"
      and rq = "stargazers_request cfg owner repo page", OF assms(1) net0]
  have full: "100 \<le> length (pages 0)" using Suc(3) by simp
  then have ne: "pages 0 \<noteq> []" by auto
  have step: "star_history_loop cfg owner repo max_pages net page all_stargazers w =
              star_history_loop cfg owner repo max_pages net (page + 1)
                (all_stargazers @ pages 0) ?w1"
    using full ne Suc(5)
    by (subst star_history_loop_unfold[OF run]) (simp add: decoded_def)
  have len1: "length (sent ?w1) = Suc (length (sent w))" by (simp add: after_call_fields)
  have net1: "\<forall>i\<le>k. net (length (sent ?w1) + i) = page_reply (pages (Suc i))"
  proof (intro allI impI)
    fix i assume "i \<le> k"
    then have "Suc i \<le> Suc k" by simp
    from Suc(2)[rule_format, OF this] show "net (length (sent ?w1) + i) = page_reply (pages (Suc i))"
      by (simp add: len1)
  qed
  have full1: "\<forall>i<k. 100 \<le> length (pages (Suc i))" using Suc(3) by auto
  have mp: "page + 1 + int k \<le> max_pages" using Suc(5) by simp
  note IH = Suc(1)[where w = ?w1 and pages = "\<lambda>i. pages (Suc i)" and page = "page + 1"
      and all_stargazers = "all_stargazers @ pages 0", OF net1 full1 Suc(4) mp]
  have ar: "page + 1 + int i = page + int (Suc i)" for i by simp
  have items: "(all_stargazers @ pages 0) @ concat (map (\<lambda>i. pages (Suc i)) [0..<Suc k]) =
               all_stargazers @ concat (map pages [0..<Suc (Suc k)])"
    by (simp only: map_upt_Suc[of pages "Suc k"] concat.simps append_assoc)
  have reqs: "sent ?w1 @
                map (\<lambda>i. stargazers_request cfg owner repo (page + 1 + int i)) [0..<Suc k] =
              sent w @
                map (\<lambda>i. stargazers_request cfg owner repo (page + int i)) [0..<Suc (Suc k)]"
  proof -
    have "map (\<lambda>i. stargazers_request cfg owner repo (page + int i)) [0..<Suc (Suc k)] =
          stargazers_request cfg owner repo page #
          map (\<lambda>i. stargazers_request cfg owner repo (page + int (Suc i))) [0..<Suc k]"
      by (subst map_upt_Suc) simp
    then show ?thesis
      by (simp only: ar after_call_fields) simp
  qed
  have world: "?w1\<lparr>sent := sent ?w1 @
                map (\<lambda>i. stargazers_request cfg owner repo (page + 1 + int i)) [0..<Suc k]\<rparr>
             = w\<lparr>sent := sent w @
                map (\<lambda>i. stargazers_request cfg owner repo (page + int i)) [0..<Suc (Suc k)]\<rparr>"
    unfolding reqs by (simp add: after_call_def)
  show ?case
    unfolding step IH items world ..
qed

lemma get_star_history_sweep:
  assumes "0 \<le> cfg_max_retries cfg"
    and "\<forall>i\<le>k. net (length (sent w) + i) = page_reply (pages i)"
    and "\<forall>i<k. 100 \<le> length (pages i)"
    and "length (pages k) < 100"
    and "1 + int k \<le> max_pages"
  shows "get_star_history cfg owner repo max_pages net w =
     Some (history_of (concat (map pages [0..<Suc k])),
           w\<lparr>sent := sent w @
                   map (\<lambda>i. stargazers_request cfg owner repo (1 + int i)) [0..<Suc k]\<rparr>)"
  unfolding get_star_history_def
  by (subst star_history_loop_sweep[where net = net and k = k and pages = pages, OF assms])
     (simp split: sum.splits)


lemma history_entry_star_item:
  "star_item item \<Longrightarrow> history_entry item = Inr (Some (star_record item))"
  by (auto simp: star_item_def star_record_def history_entry_def Let_def split: json.splits)

lemma history_of_star_items:
  "\<forall>x\<in>set xs. star_item x \<Longrightarrow> history_of xs = Inr (map star_record xs)"
  by (induction xs) (simp_all add: history_entry_star_item)

lemma history_of_plain_users: "history_of (replicate n octocat_user) = Inr []"
  by (induction n) (simp_all add: history_entry_def octocat_user_def dict_get_def)

lemma history_entry_skipped:
  "skipped item \<Longrightarrow> history_entry item = Inr None"
  by (auto simp: skipped_def history_entry_def Let_def split: json.splits)

lemma history_entry_other:
  "\<not> star_item item \<Longrightarrow> \<not> skipped item \<Longrightarrow> history_entry item = Inl AttributeError"
  by (auto simp: star_item_def skipped_def history_entry_def Let_def split: json.splits)

lemma star_item_not_skipped: "star_item item \<Longrightarrow> \<not> skipped item"
  by (auto simp: star_item_def skipped_def split: json.splits)

lemma history_of_items:
  "history_of xs =
     (if \<forall>x\<in>set xs. star_item x \<or> skipped x
      then Inr (map star_record (filter star_item xs))
      else Inl AttributeError)"
proof (induction xs)
  case Nil
  show ?case by simp
next
  case (Cons x xs)
  consider (star) "star_item x" | (skip) "skipped x" | (other) "\<not> star_item x" "\<not> skipped x"
    by blast
  then show ?case
  proof cases
    case star
    then show ?thesis using Cons by (simp add: history_entry_star_item)
  next
    case skip
    then have "\<not> star_item x" using star_item_not_skipped by blast
    with skip show ?thesis using Cons by (simp add: history_entry_skipped)
  next
    case other
    then show ?thesis by (simp add: history_entry_other)
  qed
qed

section \<open>The pagination sweeps\<close>

text \<open>
  Claim C3, as amended. Let the replies to the next \<open>k + 1\<close> calls be 200 responses
  carrying the lists \<open>pages 0\<close>, ..., \<open>pages k\<close>.

  \<open>paginate\<close> of \<open>output.py\<close>, called with room on the stack for \<open>_request\<close>: when
  every page before the last is non-empty and not shorter than \<open>per_page\<close> (the
  caller's value, else 100) and the last one is empty or shorter, it makes exactly these
  \<open>k + 1\<close> calls, asking for page 1, 2, ... with \<open>per_page\<close> and \<open>page\<close> among the
  parameters, and returns the items of all pages in the order the server sent them.

  \<open>get_star_history\<close>, with \<open>max_retries\<close> not negative: when every page before the
  last has at least 100 items, the last has fewer, and \<open>k + 1\<close> does not exceed
  \<open>max_pages\<close>, it makes exactly these \<open>k + 1\<close> calls, asking for page 1, 2, ... with
  \<open>per_page\<close> 100. It does not return the items. If every item is either an object
  with a non-empty object as \<open>user\<close> and a truthy \<open>starred_at\<close>, or an item that is
  passed over (not an object, or \<open>user\<close> or \<open>starred_at\<close> missing or falsy), it
  returns, in order, one record of user id, user name and time for each item of the
  first kind and nothing for the others. If some item has a truthy \<open>user\<close> that is not
  an object, together with a truthy \<open>starred_at\<close>, it raises \<open>AttributeError\<close>.
\<close>

theorem pagination_sweep:
  assumes "\<forall>i\<le>k. net (length (sent w) + i) = page_reply (pages i)"
  shows "(0 < room \<and> (params = None \<or> (\<exists>a. params = Some a \<and> a < length (heap w))) \<and>
          per_page_of (case params of None \<Rightarrow> [] | Some a \<Rightarrow> heap w ! a) = JInt per_page \<and>
          (\<forall>i<k. pages i \<noteq> [] \<and> per_page \<le> int (length (pages i))) \<and>
          (pages k = [] \<or> int (length (pages k)) < per_page)
          \<longrightarrow> (\<exists>w'. paginate room token base_url endpoint params net w =
                       Some (Inr (concat (map pages [0..<Suc k])), w') \<and>
                     sent w' = sent w @
                       map (\<lambda>i. page_request token base_url endpoint
                                   (AList.update ''page'' (JInt (1 + int i))
                                      (AList.update ''per_page'' (JInt per_page)
                                         (case params of None \<Rightarrow> [] | Some a \<Rightarrow> heap w ! a))))
                         [0..<Suc k])) \<and>
         (0 \<le> cfg_max_retries cfg \<and> (\<forall>i<k. 100 \<le> length (pages i)) \<and>
          length (pages k) < 100 \<and> 1 + int k \<le> max_pages
          \<longrightarrow> get_star_history cfg owner repo max_pages net w =
                Some (if \<forall>x\<in>set (concat (map pages [0..<Suc k])). star_item x \<or> skipped x
                      then Inr (map star_record
                                  (filter star_item (concat (map pages [0..<Suc k]))))
                      else Inl AttributeError,
                      w\<lparr>sent := sent w @
                              map (\<lambda>i. stargazers_request cfg owner repo (1 + int i))
                                [0..<Suc k]\<rparr>))"
proof (intro conjI impI)
  assume h: "0 < room \<and> (params = None \<or> (\<exists>a. params = Some a \<and> a < length (heap w))) \<and>
          per_page_of (case params of None \<Rightarrow> [] | Some a \<Rightarrow> heap w ! a) = JInt per_page \<and>
          (\<forall>i<k. pages i \<noteq> [] \<and> per_page \<le> int (length (pages i))) \<and>
          (pages k = [] \<or> int (length (pages k)) < per_page)"
  then have 0: "0 < room"
    and 1: "params = None \<or> (\<exists>a. params = Some a \<and> a < length (heap w))"
    and 2: "per_page_of (case params of None \<Rightarrow> [] | Some a \<Rightarrow> heap w ! a) = JInt per_page"
    and 3: "\<forall>i<k. pages i \<noteq> [] \<and> per_page \<le> int (length (pages i))"
    and 4: "pages k = [] \<or> int (length (pages k)) < per_page"
    by blast+
  show "\<exists>w'. paginate room token base_url endpoint params net w =
                       Some (Inr (concat (map pages [0..<Suc k])), w') \<and>
                     sent w' = sent w @
                       map (\<lambda>i. page_request token base_url endpoint
                                   (AList.update ''page'' (JInt (1 + int i))
                                      (AList.update ''per_page'' (JInt per_page)
                                         (case params of None \<Rightarrow> [] | Some a \<Rightarrow> heap w ! a))))
                         [0..<Suc k]"
    by (rule paginate_sweep[where net = net and k = k and pages = pages, OF 1 2 assms 3 4 0])
next
  assume h: "0 \<le> cfg_max_retries cfg \<and> (\<forall>i<k. 100 \<le> length (pages i)) \<and>
          length (pages k) < 100 \<and> 1 + int k \<le> max_pages"
  then have 1: "0 \<le> cfg_max_retries cfg" and 2: "\<forall>i<k. 100 \<le> length (pages i)"
    and 3: "length (pages k) < 100" and 4: "1 + int k \<le> max_pages"
    by blast+
  show "get_star_history cfg owner repo max_pages net w =
                Some (if \<forall>x\<in>set (concat (map pages [0..<Suc k])). star_item x \<or> skipped x
                      then Inr (map star_record
                                  (filter star_item (concat (map pages [0..<Suc k]))))
                      else Inl AttributeError,
                      w\<lparr>sent := sent w @
                              map (\<lambda>i. stargazers_request cfg owner repo (1 + int i))
                                [0..<Suc k]\<rparr>)"
    unfolding history_of_items[symmetric]
    by (rule get_star_history_sweep[where net = net and k = k and pages = pages, OF 1 assms 2 3 4])
qed


lemma three_pages_replies:
  "\<forall>i\<le>Suc (Suc 0). three_pages item (length (sent fresh) + i) =
       page_reply (if i < Suc (Suc 0) then replicate 100 item else replicate 37 item)"
  by (auto simp: three_pages_def script_def fresh_def le_Suc_eq)

lemma fresh_fields:
  "sent fresh = []" "clock fresh = 0" "slept fresh = []" "heap fresh = []"
  by (simp_all add: fresh_def)

lemma replicate_237:
  "replicate 100 x @ replicate 100 x @ replicate 37 x = replicate 237 x"
  by (simp add: replicate_add[symmetric])

theorem pagination_sweep_witness:
  "(\<exists>w'. paginate plenty ''t'' ''https://api.github.com'' ''/repos/octocat/Hello-World/stargazers''
            None (three_pages octocat_star) fresh
          = Some (Inr (replicate 237 octocat_star), w') \<and> length (sent w') = 3) \<and>
   (\<exists>w'. get_star_history default_config ''octocat'' ''Hello-World'' 100
            (three_pages octocat_star) fresh
          = Some (Inr (replicate 237 (star_record octocat_star)), w') \<and> length (sent w') = 3)"
proof -
  let ?pages = "\<lambda>i. if i < Suc (Suc 0) then replicate 100 octocat_star
                     else replicate 37 octocat_star"
  have star: "star_item octocat_star"
    by (simp add: star_item_def octocat_star_def dict_get_def)
  have items: "concat (map ?pages [0..<Suc (Suc (Suc 0))]) = replicate 237 octocat_star"
    by (simp add: replicate_237)
  note sweep = pagination_sweep[where net = "three_pages octocat_star" and w = fresh
      and k = "Suc (Suc 0)" and pages = ?pages and params = None and per_page = 100
      and room = plenty and token = "''t''" and base_url = "''https://api.github.com''"
      and endpoint = "''/repos/octocat/Hello-World/stargazers''"
      and cfg = default_config and owner = "''octocat''" and repo = "''Hello-World''"
      and max_pages = 100, OF three_pages_replies, unfolded items]
  from sweep[THEN conjunct1] have
    "\<exists>w'. paginate plenty ''t'' ''https://api.github.com'' ''/repos/octocat/Hello-World/stargazers''
            None (three_pages octocat_star) fresh
          = Some (Inr (replicate 237 octocat_star), w') \<and> length (sent w') = 3"
    by (auto simp: per_page_of_def fresh_fields plenty_room)
  moreover from sweep[THEN conjunct2] star have
    "get_star_history default_config ''octocat'' ''Hello-World'' 100
            (three_pages octocat_star) fresh
       = Some (Inr (replicate 237 (star_record octocat_star)),
               fresh\<lparr>sent := sent fresh @
                  map (\<lambda>i. stargazers_request default_config ''octocat'' ''Hello-World'' (1 + int i))
                    [0..<Suc (Suc (Suc 0))]\<rparr>)"
    by (simp add: default_config_def)
  ultimately show ?thesis by (simp add: fresh_fields)
qed

theorem get_star_history_drops_items:
  "get_star_history default_config ''octocat'' ''Hello-World'' 100
       (three_pages octocat_user) fresh
     = Some (Inr [],
             fresh\<lparr>sent := [stargazers_request default_config ''octocat'' ''Hello-World'' 1,
                             stargazers_request default_config ''octocat'' ''Hello-World'' 2,
                             stargazers_request default_config ''octocat'' ''Hello-World'' 3]\<rparr>)"
proof -
  let ?pages = "\<lambda>i. if i < Suc (Suc 0) then replicate 100 octocat_user
                     else replicate 37 octocat_user"
  have "get_star_history default_config ''octocat'' ''Hello-World'' 100
            (three_pages octocat_user) fresh
       = Some (history_of (concat (map ?pages [0..<Suc (Suc (Suc 0))])),
               fresh\<lparr>sent := sent fresh @
                  map (\<lambda>i. stargazers_request default_config ''octocat'' ''Hello-World'' (1 + int i))
                    [0..<Suc (Suc (Suc 0))]\<rparr>)"
    by (rule get_star_history_sweep[where net = "three_pages octocat_user" and pages = ?pages,
          OF _ three_pages_replies])
       (simp_all add: default_config_def)
  then show ?thesis
    by (simp add: replicate_237 history_of_plain_users fresh_fields)
qed

section \<open>Lemmas about \<open>_make_request\<close> of \<open>stargazers-advanced.py\<close>\<close>

lemma make_request_loop_unfold:
  "make_request_loop cfg rq net retries delay w =
     (if retries \<le> cfg_max_retries cfg then
        (if rq_method rq = Unsupported then (Inl ValueError, w)
         else
           (case attempt_adv delay (net (length (sent w))) of
                 Returned r \<Rightarrow> (Inr r, after_call rq w)
               | Escaped e \<Rightarrow> (Inl e, after_call rq w)
               | RateLimited seconds \<Rightarrow>
                   (case sleep (of_int seconds) (after_call rq w) of
                      Inl e \<Rightarrow> (Inl e, after_call rq w)
                    | Inr w2 \<Rightarrow> make_request_loop cfg rq net (retries + 1) (delay * 2) w2)
               | Failed e \<Rightarrow>
                   if retries \<ge> cfg_max_retries cfg then (Inl (Req e), after_call rq w)
                   else
                     (case sleep delay (after_call rq w) of
                        Inl x \<Rightarrow> (Inl x, after_call rq w)
                      | Inr w2 \<Rightarrow> make_request_loop cfg rq net (retries + 1) (delay * 2) w2)))
      else (Inl (Req RequestException), w))"
  unfolding after_call_def
  by (subst make_request_loop.simps) (simp add: http_def Let_def)

lemma attempt_adv_retryable:
  "retryable rp \<Longrightarrow> \<exists>e. attempt_adv delay rp = Failed e"
  by (auto simp: retryable_def attempt_adv_def raise_for_status_def split: reply.splits)

lemma attempt_adv_success:
  "success r \<Longrightarrow> attempt_adv delay (Resp r) = Returned r"
  by (simp add: success_def attempt_adv_def raise_for_status_def)

lemma attempt_adv2_retryable:
  "retryable rp \<Longrightarrow> \<exists>e. attempt_adv2 raw_response now rp = Failed2 e \<and> fatal_adv2 e = None"
  by (auto simp: retryable_def attempt_adv2_def finish_adv2_def raise_for_status_def fatal_adv2_def
           split: reply.splits)

lemma success_adv2:
  "success r \<Longrightarrow> content r = Json j \<Longrightarrow> attempt_adv2 False now (Resp r) = Returned2 (Decoded j)"
  by (rule attempt_adv2_success) (simp_all add: success_def raise_for_status_def)

lemma backoff_shift:
  "d # map (\<lambda>i. d * 2 * 2 ^ i) [0..<k] = map (\<lambda>i. d * 2 ^ i) [0..<Suc k]" for d :: rat
  by (subst map_upt_Suc) simp

lemma make_request_loop_retries:
  assumes "rq_method rq \<noteq> Unsupported"
    and "0 \<le> delay" and "retries + int k \<le> cfg_max_retries cfg"
    and "\<forall>i<k. retryable (net (length (sent w) + i))"
    and "net (length (sent w) + k) = Resp r" and "success r"
  shows "\<exists>w'. make_request_loop cfg rq net retries delay w = (Inr r, w') \<and>
              sent w' = sent w @ replicate (Suc k) rq \<and>
              slept w' = slept w @ map (\<lambda>i. delay * 2 ^ i) [0..<k]"
  using assms(2-5)
proof (induction k arbitrary: w retries delay)
  case 0
  then have "retries \<le> cfg_max_retries cfg" by simp
  moreover have "attempt_adv delay (net (length (sent w))) = Returned r"
    using 0(4) assms(6) by (simp add: attempt_adv_success)
  ultimately show ?case
    using assms(1) by (subst make_request_loop_unfold) (simp add: after_call_fields)
next
  case (Suc k)
  let ?w2 = "after_sleep delay (after_call rq w)"
  have r: "retries \<le> cfg_max_retries cfg" "\<not> retries \<ge> cfg_max_retries cfg"
    using Suc(3) by simp_all
  from Suc(4)[rule_format, of 0] obtain e where
    e: "attempt_adv delay (net (length (sent w))) = Failed e"
    using attempt_adv_retryable by force
  have step: "make_request_loop cfg rq net retries delay w =
              make_request_loop cfg rq net (retries + 1) (delay * 2) ?w2"
    using assms(1) r e Suc(2)
    by (subst make_request_loop_unfold) (simp add: sleep_after_sleep)
  have len2: "length (sent ?w2) = Suc (length (sent w))"
    by (simp add: after_sleep_fields after_call_fields)
  have d2: "0 \<le> delay * 2" using Suc(2) by simp
  have r2: "retries + 1 + int k \<le> cfg_max_retries cfg" using Suc(3) by simp
  have f2: "\<forall>i<k. retryable (net (length (sent ?w2) + i))"
  proof (intro allI impI)
    fix i assume "i < k"
    then have "Suc i < Suc k" by simp
    from Suc(4)[rule_format, OF this] show "retryable (net (length (sent ?w2) + i))"
      by (simp add: len2)
  qed
  have n2: "net (length (sent ?w2) + k) = Resp r" using Suc(5) by (simp add: len2)
  from Suc(1)[OF d2 r2 f2 n2] obtain w' where
    w': "make_request_loop cfg rq net (retries + 1) (delay * 2) ?w2 = (Inr r, w')"
        "sent w' = sent ?w2 @ replicate (Suc k) rq"
        "slept w' = slept ?w2 @ map (\<lambda>i. delay * 2 * 2 ^ i) [0..<k]"
    by blast
  have "sent w' = sent w @ replicate (Suc (Suc k)) rq"
    using w'(2) by (simp add: after_sleep_fields after_call_fields replicate_app_Cons_same)
  moreover have "slept w' = slept w @ map (\<lambda>i. delay * 2 ^ i) [0..<Suc k]"
    unfolding w'(3) backoff_shift[symmetric]
    by (simp add: after_sleep_fields after_call_fields)
  ultimately show ?case using step w'(1) by simp
qed


lemma backoff_shift_from:
  "d * 2 ^ n # map (\<lambda>i. d * 2 ^ (Suc n + i)) [0..<k] = map (\<lambda>i. d * 2 ^ (n + i)) [0..<Suc k]"
  for d :: rat
  by (subst map_upt_Suc) simp

lemma request_loop_adv2_retries:
  assumes "0 \<le> cfg_retry_delay cfg"
    and "0 \<le> retries" and "retries + int k \<le> cfg_max_retries cfg"
    and "\<forall>i<k. retryable (net (length (sent w) + i))"
    and "net (length (sent w) + k) = Resp r" and "success r" and "content r = Json j"
  shows "\<exists>w'. request_loop_adv2 cfg rq False net retries last_error w
                 = Some (Inr (Decoded j), w') \<and>
              sent w' = sent w @ replicate (Suc k) rq \<and>
              slept w' = slept w @ map (\<lambda>i. cfg_retry_delay cfg * 2 ^ (nat retries + i)) [0..<k]"
  using assms(2-5)
proof (induction k arbitrary: w retries last_error)
  case 0
  then have "retries \<le> cfg_max_retries cfg" by simp
  moreover have "attempt_adv2 False (clock w) (net (length (sent w))) = Returned2 (Decoded j)"
    using 0(4) assms(6,7) by (simp add: success_adv2)
  ultimately show ?case
    by (subst request_loop_adv2_unfold) (simp add: after_call_fields)
next
  case (Suc k)
  let ?d = "cfg_retry_delay cfg * 2 ^ nat retries"
  let ?w2 = "after_sleep ?d (after_call rq w)"
  have r: "retries \<le> cfg_max_retries cfg" "retries + 1 \<le> cfg_max_retries cfg"
    using Suc(3) by simp_all
  from Suc(4)[rule_format, of 0] obtain e where
    e: "attempt_adv2 False (clock w) (net (length (sent w))) = Failed2 e" "fatal_adv2 e = None"
    using attempt_adv2_retryable by force
  have d: "0 \<le> ?d" using assms(1) by simp
  have step: "request_loop_adv2 cfg rq False net retries last_error w =
              request_loop_adv2 cfg rq False net (retries + 1) (Some e) ?w2"
    using r e by (subst request_loop_adv2_unfold) (simp add: sleep_after_sleep[OF d])
  have len2: "length (sent ?w2) = Suc (length (sent w))"
    by (simp add: after_sleep_fields after_call_fields)
  have r0: "0 \<le> retries + 1" using Suc(2) by simp
  have r2: "retries + 1 + int k \<le> cfg_max_retries cfg" using Suc(3) by simp
  have f2: "\<forall>i<k. retryable (net (length (sent ?w2) + i))"
  proof (intro allI impI)
    fix i assume "i < k"
    then have "Suc i < Suc k" by simp
    from Suc(4)[rule_format, OF this] show "retryable (net (length (sent ?w2) + i))"
      by (simp add: len2)
  qed
  have n2: "net (length (sent ?w2) + k) = Resp r" using Suc(5) by (simp add: len2)
  from Suc(1)[OF r0 r2 f2 n2, of "Some e"] obtain w' where
    w': "request_loop_adv2 cfg rq False net (retries + 1) (Some e) ?w2 = Some (Inr (Decoded j), w')"
        "sent w' = sent ?w2 @ replicate (Suc k) rq"
        "slept w' = slept ?w2 @
           map (\<lambda>i. cfg_retry_delay cfg * 2 ^ (nat (retries + 1) + i)) [0..<k]"
    by blast
  have nat1: "nat (retries + 1) = Suc (nat retries)" using Suc(2) by simp
  have "sent w' = sent w @ replicate (Suc (Suc k)) rq"
    using w'(2) by (simp add: after_sleep_fields after_call_fields replicate_app_Cons_same)
  moreover have "slept w' = slept w @
        map (\<lambda>i. cfg_retry_delay cfg * 2 ^ (nat retries + i)) [0..<Suc k]"
    unfolding w'(3) nat1 backoff_shift_from[symmetric]
    by (simp add: after_sleep_fields after_call_fields)
  ultimately show ?case using step w'(1) by simp
qed

section \<open>Retries that end in success\<close>

text \<open>
  Claim C1. Let the next \<open>k\<close> replies be retryable failures (a transport failure or a
  5xx response), with \<open>k \<le> max_retries\<close>, and the reply after them a success (2xx)
  with a JSON body. Then \<open>_make_request\<close> returns that very response, \<open>get\<close> of
  \<open>stargazers-advanced.py\<close> and \<open>_request\<close> of \<open>stargazers-advanced2.py\<close> return
  its decoded body, and each has made exactly \<open>k + 1\<close> network calls. (The retry delay
  of the configuration is not negative, and the method is one \<open>_make_request\<close> knows.)
\<close>

theorem retries_then_success:
  assumes "0 \<le> cfg_retry_delay cfg" and "int k \<le> cfg_max_retries cfg"
    and "\<forall>i<k. retryable (net (calls w + i))"
    and "net (calls w + k) = Resp r" and "success r" and "content r = Json j"
  shows "(meth \<noteq> Unsupported \<longrightarrow>
            (\<exists>w'. make_request cfg meth endpoint params data headers net w = (Inr r, w') \<and>
                  calls w' = calls w + k + 1)) \<and>
         (\<exists>w'. get_adv cfg endpoint params headers net w = (Inr j, w') \<and>
               calls w' = calls w + k + 1) \<and>
         (\<exists>w'. request_adv2 cfg meth endpoint params data headers False net w
                  = Some (Inr (Decoded j), w') \<and>
               calls w' = calls w + k + 1)"
proof (intro conjI impI)
  assume m: "meth \<noteq> Unsupported"
  let ?rq = "request_for_adv cfg meth endpoint params data headers"
  have "rq_method ?rq \<noteq> Unsupported" using m by (simp add: request_for_adv_def)
  from make_request_loop_retries[where net = net and w = w and k = k and r = r, OF this assms(1) _
      assms(3,4,5)[unfolded calls_def], of 0] assms(2)
  obtain w' where "make_request_loop cfg ?rq net 0 (cfg_retry_delay cfg) w = (Inr r, w')"
    "sent w' = sent w @ replicate (Suc k) ?rq" by auto
  then show "\<exists>w'. make_request cfg meth endpoint params data headers net w = (Inr r, w') \<and>
                  calls w' = calls w + k + 1"
    by (simp add: make_request_def calls_def)
next
  let ?rq = "request_for_adv cfg GET endpoint params None headers"
  have "rq_method ?rq \<noteq> Unsupported" by (simp add: request_for_adv_def)
  from make_request_loop_retries[where net = net and w = w and k = k and r = r, OF this assms(1) _
      assms(3,4,5)[unfolded calls_def], of 0] assms(2)
  obtain w' where "make_request_loop cfg ?rq net 0 (cfg_retry_delay cfg) w = (Inr r, w')"
    "sent w' = sent w @ replicate (Suc k) ?rq" by auto
  then show "\<exists>w'. get_adv cfg endpoint params headers net w = (Inr j, w') \<and>
               calls w' = calls w + k + 1"
    using assms(6) by (simp add: get_adv_def make_request_def calls_def response_json_def)
next
  let ?rq = "request_for_adv2 cfg meth endpoint params data headers"
  from request_loop_adv2_retries[where net = net and w = w and k = k and r = r and j = j
      and retries = 0 and rq = ?rq and last_error = None,
      OF assms(1) _ _ assms(3,4,5,6)[unfolded calls_def]] assms(2)
  obtain w' where "request_loop_adv2 cfg ?rq False net 0 None w = Some (Inr (Decoded j), w')"
    "sent w' = sent w @ replicate (Suc k) ?rq" by auto
  then show "\<exists>w'. request_adv2 cfg meth endpoint params data headers False net w
                  = Some (Inr (Decoded j), w') \<and>
               calls w' = calls w + k + 1"
    by (simp add: request_adv2_def calls_def)
qed


theorem retries_then_success_witness:
  "(\<exists>w'. make_request default_config GET ''test/endpoint'' None None None flaky fresh
            = (Inr ok_response, w') \<and> calls w' = 3) \<and>
   (\<exists>w'. get_adv default_config ''test/endpoint'' None None flaky fresh
            = (Inr (JDict [(''data'', JStr ''test'')]), w') \<and> calls w' = 3) \<and>
   (\<exists>w'. request_adv2 default_config GET ''test/endpoint'' None None None False flaky fresh
            = Some (Inr (Decoded (JDict [(''data'', JStr ''test'')])), w') \<and> calls w' = 3)"
proof -
  have 1: "0 \<le> cfg_retry_delay default_config"
    and 2: "int (Suc (Suc 0)) \<le> cfg_max_retries default_config"
    by (simp_all add: default_config_def)
  have 3: "\<forall>i<Suc (Suc 0). retryable (flaky (calls fresh + i))"
    by (auto simp: flaky_def script_def calls_def fresh_fields retryable_def resp_fields
          less_Suc_eq)
  have 4: "flaky (calls fresh + Suc (Suc 0)) = Resp ok_response"
    by (simp add: flaky_def script_def calls_def fresh_fields)
  have 5: "success ok_response"
    and 6: "content ok_response = Json (JDict [(''data'', JStr ''test'')])"
    by (simp_all add: success_def ok_response_def resp_fields)
  from retries_then_success[where cfg = default_config and k = "Suc (Suc 0)" and net = flaky
      and w = fresh and r = ok_response and j = "JDict [(''data'', JStr ''test'')]"
      and meth = GET and endpoint = "''test/endpoint''" and params = None and data = None
      and headers = None, OF 1 2 3 4 5 6]
  show ?thesis by (simp add: calls_def fresh_fields eval_nat_numeral)
qed

section \<open>Client errors\<close>

lemma default_config_fields:
  "cfg_max_retries default_config = 3" "cfg_retry_delay default_config = 1"
  by (simp_all add: default_config_def)

lemma request_for_adv_method:
  "rq_method (request_for_adv cfg meth endpoint params data headers) = meth"
  by (simp add: request_for_adv_def)

lemma attempt_adv2_client_error:
  "client_error r \<Longrightarrow> attempt_adv2 raw_response now (Resp r) = Failed2 (HTTPError r)"
  by (simp add: client_error_def attempt_adv2_def finish_adv2_def raise_for_status_def)

lemma fatal_adv2_client_error:
  "client_error r \<Longrightarrow> error_message (HTTPError r) r = Inr m \<Longrightarrow>
   fatal_adv2 (HTTPError r) = Some (GitHubAPIError (status_code r) m)"
  by (simp add: client_error_def fatal_adv2_def)

lemma request_loop_adv2_fatal:
  assumes "net (length (sent w)) = Resp r" and "client_error r"
    and "retries \<le> cfg_max_retries cfg" and "error_message (HTTPError r) r = Inr m"
  shows "request_loop_adv2 cfg rq raw_response net retries last_error w =
         Some (Inl (GitHubAPIError (status_code r) m), after_call rq w)"
  using assms(3)
  by (subst request_loop_adv2_unfold)
     (simp add: assms(1) attempt_adv2_client_error[OF assms(2)]
        fatal_adv2_client_error[OF assms(2,4)])

lemma error_message_object:
  "content r = Json (JDict d) \<Longrightarrow>
   error_message e r =
     Inr (case map_of d ''message'' of Some v \<Rightarrow> ServerMessage v | None \<Rightarrow> StrOf e)"
  by (simp add: error_message_def response_json_def split: option.splits)

lemma error_message_undecodable:
  "content r = NoContent \<or> content r = Garbage \<Longrightarrow> error_message e r = Inr (StrOf e)"
  by (auto simp: error_message_def response_json_def)

lemma attempt_adv_client_error:
  "client_error r \<Longrightarrow> attempt_adv delay (Resp r) = Failed (HTTPError r)"
  by (simp add: client_error_def attempt_adv_def raise_for_status_def)

lemma make_request_loop_failed_retry:
  assumes "net (length (sent w)) = Resp r" and "attempt_adv delay (Resp r) = Failed e"
    and "rq_method rq \<noteq> Unsupported" and "retries < cfg_max_retries cfg" and "0 \<le> delay"
  shows "make_request_loop cfg rq net retries delay w =
         make_request_loop cfg rq net (retries + 1) (delay * 2)
           (after_sleep delay (after_call rq w))"
  using assms(3,4)
  by (subst make_request_loop_unfold) (simp add: assms(1,2) sleep_after_sleep[OF assms(5)])

lemma make_request_loop_failed_last:
  assumes "net (length (sent w)) = Resp r" and "attempt_adv delay (Resp r) = Failed e"
    and "rq_method rq \<noteq> Unsupported" and "retries = cfg_max_retries cfg"
  shows "make_request_loop cfg rq net retries delay w = (Inl (Req e), after_call rq w)"
  using assms(3,4)
  by (subst make_request_loop_unfold) (simp add: assms(1,2))








section \<open>Membership checks\<close>

lemma attempt_adv_failure:
  "failure rp \<Longrightarrow> \<exists>e. attempt_adv delay rp = Failed e"
  by (auto simp: failure_def attempt_adv_def raise_for_status_def split: reply.splits)

lemma make_request_loop_failure_retry:
  assumes "failure (net (length (sent w)))"
    and "rq_method rq \<noteq> Unsupported" and "retries < cfg_max_retries cfg" and "0 \<le> delay"
  shows "make_request_loop cfg rq net retries delay w =
         make_request_loop cfg rq net (retries + 1) (delay * 2)
           (after_sleep delay (after_call rq w))"
proof -
  from attempt_adv_failure[OF assms(1)] obtain e where
    "attempt_adv delay (net (length (sent w))) = Failed e" by blast
  then show ?thesis
    using assms(2,3)
    by (subst make_request_loop_unfold) (simp add: sleep_after_sleep[OF assms(4)])
qed

text \<open>
  When every attempt before the last one fails and the last one is answered by a 4xx
  status other than 429, \<open>_make_request\<close> raises the \<open>HTTPError\<close> of that last
  response.
\<close>

lemma make_request_loop_last_attempt:
  assumes "rq_method rq \<noteq> Unsupported" and "client_error r"
    and "0 \<le> delay" and "retries \<le> cfg_max_retries cfg"
    and "\<forall>i<nat (cfg_max_retries cfg - retries). failure (net (length (sent w) + i))"
    and "net (length (sent w) + nat (cfg_max_retries cfg - retries)) = Resp r"
  shows "\<exists>w'. make_request_loop cfg rq net retries delay w = (Inl (Req (HTTPError r)), w') \<and>
              sent w' = sent w @ replicate (nat (cfg_max_retries cfg - retries) + 1) rq"
  using assms(3-6)
proof (induction "nat (cfg_max_retries cfg - retries)" arbitrary: w retries delay)
  case 0
  then have eq: "retries = cfg_max_retries cfg" by simp
  have net0: "net (length (sent w)) = Resp r" using 0(5) eq by simp
  show ?case
    using 0(1)
    by (subst make_request_loop_failed_last[where net = net and w = w and r = r,
          OF net0 attempt_adv_client_error[OF assms(2)] assms(1) eq])
       (simp add: after_call_fields)
next
  case (Suc n)
  then have lt: "retries < cfg_max_retries cfg" by simp
  let ?w2 = "after_sleep delay (after_call rq w)"
  have pos: "0 < nat (cfg_max_retries cfg - retries)" using lt by simp
  have net0: "failure (net (length (sent w)))" using Suc(5)[rule_format, OF pos] by simp
  have step: "make_request_loop cfg rq net retries delay w =
              make_request_loop cfg rq net (retries + 1) (delay * 2) ?w2"
    by (rule make_request_loop_failure_retry[where net = net and w = w, OF net0 assms(1) lt Suc(3)])
  have n: "n = nat (cfg_max_retries cfg - (retries + 1))" using Suc(2) by simp
  have d2: "0 \<le> delay * 2" using Suc(3) by simp
  have r2: "retries + 1 \<le> cfg_max_retries cfg" using lt by simp
  have len2: "length (sent ?w2) = Suc (length (sent w))"
    by (simp add: after_sleep_fields after_call_fields)
  have cnt: "nat (cfg_max_retries cfg - retries) = Suc (nat (cfg_max_retries cfg - (retries + 1)))"
    using lt by simp
  have net2: "\<forall>i<nat (cfg_max_retries cfg - (retries + 1)). failure (net (length (sent ?w2) + i))"
  proof (intro allI impI)
    fix i assume "i < nat (cfg_max_retries cfg - (retries + 1))"
    then have "Suc i < nat (cfg_max_retries cfg - retries)" using cnt by simp
    from Suc(5)[rule_format, OF this] show "failure (net (length (sent ?w2) + i))"
      by (simp add: len2)
  qed
  have last2: "net (length (sent ?w2) + nat (cfg_max_retries cfg - (retries + 1))) = Resp r"
    using Suc(6) by (simp add: len2 cnt)
  from Suc(1)[OF n d2 r2 net2 last2] obtain w' where
    w': "make_request_loop cfg rq net (retries + 1) (delay * 2) ?w2 = (Inl (Req (HTTPError r)), w')"
        "sent w' = sent ?w2 @ replicate (nat (cfg_max_retries cfg - (retries + 1)) + 1) rq"
    by blast
  have "sent w' = sent w @ replicate (nat (cfg_max_retries cfg - retries) + 1) rq"
    unfolding w'(2) cnt
    by (simp add: after_sleep_fields after_call_fields replicate_app_Cons_same)
  with step w'(1) show ?case by simp
qed

lemma check_starred_true:
  assumes "net (length (sent w)) = Resp r" and "success r"
    and "content r = NoContent \<or> (\<exists>j. content r = Json j)" and "0 \<le> cfg_max_retries cfg"
  shows "fst (check_starred cfg owner repo net w) = Inr True \<and>
         calls (snd (check_starred cfg owner repo net w)) = calls w + 1"
proof -
  let ?rq = "request_for_adv cfg GET (''user/starred/'' @ owner @ ''/'' @ repo) None None None"
  have "attempt_adv (cfg_retry_delay cfg) (net (length (sent w))) = Returned r"
    using assms(1,2) by (simp add: attempt_adv_success)
  then have "make_request_loop cfg ?rq net 0 (cfg_retry_delay cfg) w = (Inr r, after_call ?rq w)"
    using assms(4) by (subst make_request_loop_unfold) (simp add: request_for_adv_method)
  then show ?thesis
    using assms(3)
    by (auto simp: check_starred_def get_adv_def make_request_def response_json_def calls_def
          after_call_fields)
qed

lemma check_starred_false:
  assumes "status_code r = 404" and "0 \<le> cfg_max_retries cfg" and "0 \<le> cfg_retry_delay cfg"
    and "\<forall>i<nat (cfg_max_retries cfg). failure (net (length (sent w) + i))"
    and "net (length (sent w) + nat (cfg_max_retries cfg)) = Resp r"
  shows "fst (check_starred cfg owner repo net w) = Inr False \<and>
         calls (snd (check_starred cfg owner repo net w)) = calls w + nat (cfg_max_retries cfg) + 1"
proof -
  let ?rq = "request_for_adv cfg GET (''user/starred/'' @ owner @ ''/'' @ repo) None None None"
  have ce: "client_error r" using assms(1) by (simp add: client_error_def)
  have m: "rq_method ?rq \<noteq> Unsupported" by (simp add: request_for_adv_method)
  have all: "\<forall>i<nat (cfg_max_retries cfg - 0). failure (net (length (sent w) + i))"
    and last: "net (length (sent w) + nat (cfg_max_retries cfg - 0)) = Resp r"
    using assms(4,5) by simp_all
  from make_request_loop_last_attempt[where net = net and w = w and r = r and retries = 0
      and cfg = cfg and rq = ?rq and delay = "cfg_retry_delay cfg", OF m ce assms(3,2) all last]
  obtain w' where
    "make_request_loop cfg ?rq net 0 (cfg_retry_delay cfg) w = (Inl (Req (HTTPError r)), w')"
    "sent w' = sent w @ replicate (nat (cfg_max_retries cfg) + 1) ?rq"
    by auto
  then show ?thesis
    using assms(1) by (simp add: check_starred_def get_adv_def make_request_def calls_def)
qed

lemma check_starred_retries_404:
  assumes "net (length (sent w)) = Resp r" and "status_code r = 404"
    and "0 < cfg_max_retries cfg" and "0 \<le> cfg_retry_delay cfg"
    and "net (length (sent w) + 1) = Resp rn" and "success rn"
    and "content rn = NoContent \<or> (\<exists>j. content rn = Json j)"
  shows "fst (check_starred cfg owner repo net w) = Inr True \<and>
         calls (snd (check_starred cfg owner repo net w)) = calls w + 2"
proof -
  let ?rq = "request_for_adv cfg GET (''user/starred/'' @ owner @ ''/'' @ repo) None None None"
  let ?w2 = "after_sleep (cfg_retry_delay cfg) (after_call ?rq w)"
  have ce: "client_error r" using assms(2) by (simp add: client_error_def)
  have m: "rq_method ?rq \<noteq> Unsupported" by (simp add: request_for_adv_method)
  have "make_request_loop cfg ?rq net 0 (cfg_retry_delay cfg) w =
        make_request_loop cfg ?rq net (0 + 1) (cfg_retry_delay cfg * 2) ?w2"
    by (rule make_request_loop_failed_retry[where r = r and net = net and w = w,
          OF assms(1) attempt_adv_client_error[OF ce] m assms(3,4)])
  also have "\<dots> = (Inr rn, after_call ?rq ?w2)"
    using assms(3,5)
    by (subst make_request_loop_unfold)
       (simp add: request_for_adv_method after_sleep_fields after_call_fields
          attempt_adv_success[OF assms(6)])
  finally show ?thesis
    using assms(7)
    by (auto simp: check_starred_def get_adv_def make_request_def response_json_def calls_def
          after_call_fields after_sleep_fields)
qed

lemma check_if_starred_adv2_true:
  assumes "net (length (sent w)) = Resp r" and "success r"
    and "content r = NoContent \<or> (\<exists>j. content r = Json j)" and "0 \<le> cfg_max_retries cfg"
  shows "\<exists>w'. check_if_starred_adv2 cfg owner repo net w = Some (Inr True, w') \<and>
              calls w' = calls w + 1"
proof -
  let ?rq = "request_for_adv2 cfg GET (''user/starred/'' @ owner @ ''/'' @ repo) None None None"
  from assms(2,3) obtain p where
    "attempt_adv2 False (clock w) (Resp r) = Returned2 p"
    by (auto simp: success_def attempt_adv2_def finish_adv2_def raise_for_status_def
          response_json_def)
  then have "request_loop_adv2 cfg ?rq False net 0 None w = Some (Inr p, after_call ?rq w)"
    using assms(1,4) by (subst request_loop_adv2_unfold) simp
  then show ?thesis
    by (simp add: check_if_starred_adv2_def get_adv2_def request_adv2_def calls_def
          after_call_fields)
qed

lemma error_message_total:
  assumes "\<forall>j. content r = Json j \<longrightarrow> (\<exists>d. j = JDict d)"
  shows "\<exists>m. error_message e r = Inr m"
proof (cases "content r")
  case (Json j)
  with assms obtain d where "content r = Json (JDict d)" by auto
  then show ?thesis by (simp add: error_message_object)
qed (simp_all add: error_message_undecodable)

lemma check_if_starred_adv2_false:
  assumes "net (length (sent w)) = Resp r" and "status_code r = 404"
    and "0 \<le> cfg_max_retries cfg" and "\<forall>j. content r = Json j \<longrightarrow> (\<exists>d. j = JDict d)"
  shows "\<exists>w'. check_if_starred_adv2 cfg owner repo net w = Some (Inr False, w') \<and>
              calls w' = calls w + 1"
proof -
  let ?rq = "request_for_adv2 cfg GET (''user/starred/'' @ owner @ ''/'' @ repo) None None None"
  have ce: "client_error r" using assms(2) by (simp add: client_error_def)
  from error_message_total[OF assms(4)] obtain m where
    m: "error_message (HTTPError r) r = Inr m" by blast
  have "request_loop_adv2 cfg ?rq False net 0 None w =
        Some (Inl (GitHubAPIError (status_code r) m), after_call ?rq w)"
    by (rule request_loop_adv2_fatal[where net = net and w = w and r = r, OF assms(1) ce assms(3) m])
  then show ?thesis
    using assms(2)
    by (simp add: check_if_starred_adv2_def get_adv2_def request_adv2_def calls_def
          after_call_fields)
qed



text \<open>
  Claim C4, as amended. Let the call be answered by the response \<open>r\<close>.

  \<open>check_if_starred\<close> of Chapter 2 and of Chapter 4 and \<open>is_repository_starred\<close> make
  one call; \<open>check_starred\<close> of \<open>stargazers-advanced.py\<close> and \<open>check_if_starred\<close> of
  \<open>stargazers-advanced2.py\<close> retry.

  On a 204 every membership check returns true, after that one call. On a 404,
  \<open>check_if_starred\<close> of Chapter 2 and of Chapter 4, \<open>is_repository_starred\<close> and
  \<open>check_if_starred\<close> of \<open>stargazers-advanced2.py\<close> return false without raising,
  after that one call. \<open>check_starred\<close> of \<open>stargazers-advanced.py\<close> returns false
  when the 404 answers its last attempt, number \<open>max_retries + 1\<close>, the attempts before
  it having failed (no response, or a 4xx or 5xx status other than 429); a 404 on an
  earlier attempt is retried like any failure, so that a 404 followed by a success
  returns true after two calls. On a 200, \<open>is_repository_starred\<close>, \<open>check_starred\<close>
  and the \<open>check_if_starred\<close> of \<open>stargazers-advanced2.py\<close> return true after that one
  call, and the \<open>check_if_starred\<close> of Chapter 2 returns false. (For the two retrying
  clients: \<open>max_retries\<close> and the retry delay are not negative, the body of a 204 or 200
  is empty or JSON, and the body of the 404, if JSON, is an object.)
\<close>

theorem membership_checks:
  assumes "net (calls w) = Resp r"
  shows "(calls (snd (check_if_starred_ch2 token base_url owner repo net w)) = calls w + 1 \<and>
          calls (snd (check_if_starred_ch4 token owner repo net w)) = calls w + 1 \<and>
          calls (snd (is_repository_starred api_key base_url repository_id user_id net w))
            = calls w + 1) \<and>
         (status_code r = 204 \<longrightarrow>
            fst (check_if_starred_ch2 token base_url owner repo net w) = Inr True \<and>
            fst (check_if_starred_ch4 token owner repo net w) = Inr (Some True) \<and>
            fst (is_repository_starred api_key base_url repository_id user_id net w) = Inr True) \<and>
         (status_code r = 404 \<longrightarrow>
            fst (check_if_starred_ch2 token base_url owner repo net w) = Inr False \<and>
            fst (check_if_starred_ch4 token owner repo net w) = Inr (Some False) \<and>
            fst (is_repository_starred api_key base_url repository_id user_id net w) = Inr False) \<and>
         (status_code r = 200 \<longrightarrow>
            fst (check_if_starred_ch2 token base_url owner repo net w) = Inr False \<and>
            fst (is_repository_starred api_key base_url repository_id user_id net w) = Inr True) \<and>
         ((status_code r = 204 \<or> status_code r = 200) \<and>
          (content r = NoContent \<or> (\<exists>j. content r = Json j)) \<and> 0 \<le> cfg_max_retries cfg \<longrightarrow>
            fst (check_starred cfg owner repo net w) = Inr True \<and>
            calls (snd (check_starred cfg owner repo net w)) = calls w + 1 \<and>
            (\<exists>w'. check_if_starred_adv2 cfg owner repo net w = Some (Inr True, w') \<and>
                  calls w' = calls w + 1)) \<and>
         (status_code r = 404 \<and> 0 \<le> cfg_max_retries cfg \<and>
          (\<forall>j. content r = Json j \<longrightarrow> (\<exists>d. j = JDict d)) \<longrightarrow>
            (\<exists>w'. check_if_starred_adv2 cfg owner repo net w = Some (Inr False, w') \<and>
                  calls w' = calls w + 1)) \<and>
         (0 \<le> cfg_max_retries cfg \<and> 0 \<le> cfg_retry_delay cfg \<and>
          (\<forall>i<nat (cfg_max_retries cfg). failure (net (calls w + i))) \<and>
          net (calls w + nat (cfg_max_retries cfg)) = Resp rl \<and> status_code rl = 404 \<longrightarrow>
            fst (check_starred cfg owner repo net w) = Inr False \<and>
            calls (snd (check_starred cfg owner repo net w)) =
              calls w + nat (cfg_max_retries cfg) + 1) \<and>
         (status_code r = 404 \<and> 0 < cfg_max_retries cfg \<and> 0 \<le> cfg_retry_delay cfg \<and>
          net (calls w + 1) = Resp rn \<and> success rn \<and>
          (content rn = NoContent \<or> (\<exists>j. content rn = Json j)) \<longrightarrow>
            fst (check_starred cfg owner repo net w) = Inr True \<and>
            calls (snd (check_starred cfg owner repo net w)) = calls w + 2)"
proof -
  note n = assms[unfolded calls_def]
  have one: "calls (snd (check_if_starred_ch2 token base_url owner repo net w)) = calls w + 1 \<and>
          calls (snd (check_if_starred_ch4 token owner repo net w)) = calls w + 1 \<and>
          calls (snd (is_repository_starred api_key base_url repository_id user_id net w))
            = calls w + 1"
    using n
    by (simp add: check_if_starred_ch2_def check_if_starred_ch4_def is_repository_starred_def
          http_def raise_for_status_def calls_def Let_def)
  have c204: "fst (check_if_starred_ch2 token base_url owner repo net w) = Inr True \<and>
            fst (check_if_starred_ch4 token owner repo net w) = Inr (Some True) \<and>
            fst (is_repository_starred api_key base_url repository_id user_id net w) = Inr True"
    if "status_code r = 204"
    using n that
    by (simp add: check_if_starred_ch2_def check_if_starred_ch4_def is_repository_starred_def
          http_def raise_for_status_def)
  have c404: "fst (check_if_starred_ch2 token base_url owner repo net w) = Inr False \<and>
            fst (check_if_starred_ch4 token owner repo net w) = Inr (Some False) \<and>
            fst (is_repository_starred api_key base_url repository_id user_id net w) = Inr False"
    if "status_code r = 404"
    using n that
    by (simp add: check_if_starred_ch2_def check_if_starred_ch4_def is_repository_starred_def
          http_def raise_for_status_def)
  have c200: "fst (check_if_starred_ch2 token base_url owner repo net w) = Inr False \<and>
            fst (is_repository_starred api_key base_url repository_id user_id net w) = Inr True"
    if "status_code r = 200"
    using n that
    by (simp add: check_if_starred_ch2_def is_repository_starred_def http_def
          raise_for_status_def)
  have ok: "fst (check_starred cfg owner repo net w) = Inr True \<and>
            calls (snd (check_starred cfg owner repo net w)) = calls w + 1 \<and>
            (\<exists>w'. check_if_starred_adv2 cfg owner repo net w = Some (Inr True, w') \<and>
                  calls w' = calls w + 1)"
    if "(status_code r = 204 \<or> status_code r = 200) \<and>
          (content r = NoContent \<or> (\<exists>j. content r = Json j)) \<and> 0 \<le> cfg_max_retries cfg"
  proof -
    from that have s: "success r" by (auto simp: success_def)
    from that have b: "content r = NoContent \<or> (\<exists>j. content r = Json j)"
      and m: "0 \<le> cfg_max_retries cfg" by blast+
    show ?thesis
      using check_starred_true[where net = net and w = w and r = r, OF n s b m]
        check_if_starred_adv2_true[where net = net and w = w and r = r, OF n s b m]
      by blast
  qed
  have no2: "\<exists>w'. check_if_starred_adv2 cfg owner repo net w = Some (Inr False, w') \<and>
                  calls w' = calls w + 1"
    if "status_code r = 404 \<and> 0 \<le> cfg_max_retries cfg \<and>
          (\<forall>j. content r = Json j \<longrightarrow> (\<exists>d. j = JDict d))"
    using check_if_starred_adv2_false[where net = net and w = w and r = r, OF n] that
    by blast
  have no1: "fst (check_starred cfg owner repo net w) = Inr False \<and>
            calls (snd (check_starred cfg owner repo net w)) =
              calls w + nat (cfg_max_retries cfg) + 1"
    if "0 \<le> cfg_max_retries cfg \<and> 0 \<le> cfg_retry_delay cfg \<and>
          (\<forall>i<nat (cfg_max_retries cfg). failure (net (calls w + i))) \<and>
          net (calls w + nat (cfg_max_retries cfg)) = Resp rl \<and> status_code rl = 404"
    using check_starred_false[where net = net and w = w and r = rl and cfg = cfg] that
    by (simp add: calls_def)
  have again: "fst (check_starred cfg owner repo net w) = Inr True \<and>
            calls (snd (check_starred cfg owner repo net w)) = calls w + 2"
    if "status_code r = 404 \<and> 0 < cfg_max_retries cfg \<and> 0 \<le> cfg_retry_delay cfg \<and>
          net (calls w + 1) = Resp rn \<and> success rn \<and>
          (content rn = NoContent \<or> (\<exists>j. content rn = Json j))"
    using check_starred_retries_404[where net = net and w = w and r = r and rn = rn
        and cfg = cfg, OF n] that
    by (simp add: calls_def)
  from one c204 c404 c200 ok no2 no1 again show ?thesis by blast
qed


theorem membership_checks_witness:
  "(fst (check_if_starred_ch2 ''t'' ''https://api.github.com'' ''octocat'' ''Hello-World''
           (script [] (Resp no_content)) fresh) = Inr True \<and>
    fst (check_if_starred_ch4 ''t'' ''octocat'' ''Hello-World''
           (script [] (Resp no_content)) fresh) = Inr (Some True) \<and>
    fst (is_repository_starred (Some ''k'') ''https://api.github.com'' ''repo1'' ''user1''
           (script [] (Resp no_content)) fresh) = Inr True \<and>
    fst (check_starred default_config ''octocat'' ''Hello-World''
           (script [] (Resp no_content)) fresh) = Inr True \<and>
    calls (snd (check_starred default_config ''octocat'' ''Hello-World''
           (script [] (Resp no_content)) fresh)) = 1 \<and>
    (\<exists>w'. check_if_starred_adv2 default_config ''octocat'' ''Hello-World''
           (script [] (Resp no_content)) fresh = Some (Inr True, w') \<and> calls w' = 1)) \<and>
   (fst (check_if_starred_ch2 ''t'' ''https://api.github.com'' ''octocat'' ''Hello-World''
           (script [] (Resp not_found)) fresh) = Inr False \<and>
    calls (snd (check_if_starred_ch2 ''t'' ''https://api.github.com'' ''octocat'' ''Hello-World''
           (script [] (Resp not_found)) fresh)) = 1 \<and>
    fst (check_if_starred_ch4 ''t'' ''octocat'' ''Hello-World''
           (script [] (Resp not_found)) fresh) = Inr (Some False) \<and>
    calls (snd (check_if_starred_ch4 ''t'' ''octocat'' ''Hello-World''
           (script [] (Resp not_found)) fresh)) = 1 \<and>
    fst (is_repository_starred (Some ''k'') ''https://api.github.com'' ''repo1'' ''user1''
           (script [] (Resp not_found)) fresh) = Inr False \<and>
    calls (snd (is_repository_starred (Some ''k'') ''https://api.github.com'' ''repo1'' ''user1''
           (script [] (Resp not_found)) fresh)) = 1 \<and>
    (\<exists>w'. check_if_starred_adv2 default_config ''octocat'' ''Hello-World''
           (script [] (Resp not_found)) fresh = Some (Inr False, w') \<and> calls w' = 1) \<and>
    fst (check_starred default_config ''octocat'' ''Hello-World''
           (script [] (Resp not_found)) fresh) = Inr False \<and>
    calls (snd (check_starred default_config ''octocat'' ''Hello-World''
           (script [] (Resp not_found)) fresh)) = 4) \<and>
   (fst (check_starred default_config ''octocat'' ''Hello-World'' mixed_failures fresh)
      = Inr False \<and>
    calls (snd (check_starred default_config ''octocat'' ''Hello-World'' mixed_failures fresh))
      = 4) \<and>
   (fst (check_starred default_config ''octocat'' ''Hello-World''
           (script [Resp not_found] (Resp no_content)) fresh) = Inr True \<and>
    calls (snd (check_starred default_config ''octocat'' ''Hello-World''
           (script [Resp not_found] (Resp no_content)) fresh)) = 2) \<and>
   (fst (check_if_starred_ch2 ''t'' ''https://api.github.com'' ''octocat'' ''Hello-World''
           (script [] (Resp ok_response)) fresh) = Inr False \<and>
    fst (is_repository_starred (Some ''k'') ''https://api.github.com'' ''repo1'' ''user1''
           (script [] (Resp ok_response)) fresh) = Inr True \<and>
    fst (check_starred default_config ''octocat'' ''Hello-World''
           (script [] (Resp ok_response)) fresh) = Inr True \<and>
    (\<exists>w'. check_if_starred_adv2 default_config ''octocat'' ''Hello-World''
           (script [] (Resp ok_response)) fresh = Some (Inr True, w')))"
proof -
  have n: "script [] (Resp x) (calls fresh) = Resp x" for x
    by (simp add: script_def calls_def fresh_fields)
  have all: "(\<forall>i<nat (cfg_max_retries default_config).
               failure (script [] (Resp not_found) (calls fresh + i))) \<and>
             script [] (Resp not_found) (calls fresh + nat (cfg_max_retries default_config))
               = Resp not_found"
    by (simp add: script_def failure_def not_found_def resp_fields)
  have nm: "mixed_failures (calls fresh) = Resp (resp 500 NoContent)"
    by (simp add: mixed_failures_def script_def calls_def fresh_fields)
  have allm: "(\<forall>i<nat (cfg_max_retries default_config). failure (mixed_failures (calls fresh + i))) \<and>
              mixed_failures (calls fresh + nat (cfg_max_retries default_config)) = Resp not_found"
    by (auto simp: mixed_failures_def script_def calls_def fresh_fields default_config_fields
          failure_def resp_fields eval_nat_numeral less_Suc_eq)
  have n2: "script [Resp not_found] (Resp no_content) (calls fresh) = Resp not_found"
    "script [Resp not_found] (Resp no_content) (calls fresh + 1) = Resp no_content"
    by (simp_all add: script_def calls_def fresh_fields)
  note t204 = membership_checks[where net = "script [] (Resp no_content)" and w = fresh
      and r = no_content and cfg = default_config and token = "''t''"
      and base_url = "''https://api.github.com''" and owner = "''octocat''"
      and repo = "''Hello-World''" and api_key = "Some ''k''"
      and repository_id = "''repo1''" and user_id = "''user1''", OF n]
  note t404 = membership_checks[where net = "script [] (Resp not_found)" and w = fresh
      and r = not_found and rl = not_found and cfg = default_config and token = "''t''"
      and base_url = "''https://api.github.com''" and owner = "''octocat''"
      and repo = "''Hello-World''" and api_key = "Some ''k''"
      and repository_id = "''repo1''" and user_id = "''user1''", OF n]
  note tmix = membership_checks[where net = mixed_failures and w = fresh
      and r = "resp 500 NoContent" and rl = not_found and cfg = default_config
      and owner = "''octocat''" and repo = "''Hello-World''", OF nm]
  note tagain = membership_checks[where net = "script [Resp not_found] (Resp no_content)"
      and w = fresh and r = not_found and rn = no_content and cfg = default_config
      and owner = "''octocat''" and repo = "''Hello-World''", OF n2(1)]
  note t200 = membership_checks[where net = "script [] (Resp ok_response)" and w = fresh
      and r = ok_response and cfg = default_config and token = "''t''"
      and base_url = "''https://api.github.com''" and owner = "''octocat''"
      and repo = "''Hello-World''" and api_key = "Some ''k''"
      and repository_id = "''repo1''" and user_id = "''user1''", OF n]
  have s204: "status_code no_content = 204" "content no_content = NoContent"
    "success no_content"
    by (simp_all add: no_content_def resp_fields success_def)
  have s404: "status_code not_found = 404"
    "content not_found = Json (JDict [(''message'', JStr ''Not Found'')])"
    by (simp_all add: not_found_def resp_fields)
  have s200: "status_code ok_response = 200"
    "content ok_response = Json (JDict [(''data'', JStr ''test'')])"
    by (simp_all add: ok_response_def resp_fields)
  have c0: "calls fresh = 0" by (simp add: calls_def fresh_fields)
  have a: "fst (check_if_starred_ch2 ''t'' ''https://api.github.com'' ''octocat'' ''Hello-World''
           (script [] (Resp no_content)) fresh) = Inr True \<and>
    fst (check_if_starred_ch4 ''t'' ''octocat'' ''Hello-World''
           (script [] (Resp no_content)) fresh) = Inr (Some True) \<and>
    fst (is_repository_starred (Some ''k'') ''https://api.github.com'' ''repo1'' ''user1''
           (script [] (Resp no_content)) fresh) = Inr True \<and>
    fst (check_starred default_config ''octocat'' ''Hello-World''
           (script [] (Resp no_content)) fresh) = Inr True \<and>
    calls (snd (check_starred default_config ''octocat'' ''Hello-World''
           (script [] (Resp no_content)) fresh)) = 1 \<and>
    (\<exists>w'. check_if_starred_adv2 default_config ''octocat'' ''Hello-World''
           (script [] (Resp no_content)) fresh = Some (Inr True, w') \<and> calls w' = 1)"
    using t204 by (simp add: s204 default_config_fields c0)
  have b: "fst (check_if_starred_ch2 ''t'' ''https://api.github.com'' ''octocat'' ''Hello-World''
           (script [] (Resp not_found)) fresh) = Inr False \<and>
    calls (snd (check_if_starred_ch2 ''t'' ''https://api.github.com'' ''octocat'' ''Hello-World''
           (script [] (Resp not_found)) fresh)) = 1 \<and>
    fst (check_if_starred_ch4 ''t'' ''octocat'' ''Hello-World''
           (script [] (Resp not_found)) fresh) = Inr (Some False) \<and>
    calls (snd (check_if_starred_ch4 ''t'' ''octocat'' ''Hello-World''
           (script [] (Resp not_found)) fresh)) = 1 \<and>
    fst (is_repository_starred (Some ''k'') ''https://api.github.com'' ''repo1'' ''user1''
           (script [] (Resp not_found)) fresh) = Inr False \<and>
    calls (snd (is_repository_starred (Some ''k'') ''https://api.github.com'' ''repo1'' ''user1''
           (script [] (Resp not_found)) fresh)) = 1 \<and>
    (\<exists>w'. check_if_starred_adv2 default_config ''octocat'' ''Hello-World''
           (script [] (Resp not_found)) fresh = Some (Inr False, w') \<and> calls w' = 1) \<and>
    fst (check_starred default_config ''octocat'' ''Hello-World''
           (script [] (Resp not_found)) fresh) = Inr False \<and>
    calls (snd (check_starred default_config ''octocat'' ''Hello-World''
           (script [] (Resp not_found)) fresh)) = 4"
    using t404 all by (simp add: s404 default_config_fields c0)
  have m: "fst (check_starred default_config ''octocat'' ''Hello-World'' mixed_failures fresh)
      = Inr False \<and>
    calls (snd (check_starred default_config ''octocat'' ''Hello-World'' mixed_failures fresh))
      = 4"
    using tmix allm by (simp add: s404 default_config_fields c0)
  have g: "fst (check_starred default_config ''octocat'' ''Hello-World''
           (script [Resp not_found] (Resp no_content)) fresh) = Inr True \<and>
    calls (snd (check_starred default_config ''octocat'' ''Hello-World''
           (script [Resp not_found] (Resp no_content)) fresh)) = 2"
    using tagain n2(2) by (simp add: s404 s204 default_config_fields c0)
  have c: "fst (check_if_starred_ch2 ''t'' ''https://api.github.com'' ''octocat'' ''Hello-World''
           (script [] (Resp ok_response)) fresh) = Inr False \<and>
    fst (is_repository_starred (Some ''k'') ''https://api.github.com'' ''repo1'' ''user1''
           (script [] (Resp ok_response)) fresh) = Inr True \<and>
    fst (check_starred default_config ''octocat'' ''Hello-World''
           (script [] (Resp ok_response)) fresh) = Inr True \<and>
    (\<exists>w'. check_if_starred_adv2 default_config ''octocat'' ''Hello-World''
           (script [] (Resp ok_response)) fresh = Some (Inr True, w'))"
    using t200 by (auto simp: s200 default_config_fields c0)
  from a b m g c show ?thesis by blast
qed

theorem check_if_starred_ch2_false_on_200:
  "fst (check_if_starred_ch2 ''t'' ''https://api.github.com'' ''octocat'' ''Hello-World''
          (script [] (Resp ok_response)) fresh) = Inr False"
  by (simp add: check_if_starred_ch2_def http_def script_def ok_response_def resp_fields)

section \<open>Lemmas about rate-limited rounds\<close>

lemma sleep_sent: "sleep d w = Inr w2 \<Longrightarrow> sent w2 = sent w"
  by (auto simp: sleep_def split: if_splits)

lemma py_int_nonneg: "0 \<le> d \<Longrightarrow> (0::rat) \<le> of_int (py_int d)"
  by (simp add: py_int_def)

lemma attempt_adv_429:
  assumes "status_code r = 429"
  shows "attempt_adv delay (Resp r) =
           (case retry_after r of
              Absent \<Rightarrow> RateLimited (py_int delay)
            | Num n \<Rightarrow> RateLimited n
            | Malformed \<Rightarrow> Escaped ValueError)"
  using assms by (simp add: attempt_adv_def)

lemma make_request_loop_429:
  assumes "net (length (sent w)) = Resp r" and "status_code r = 429"
    and "retries \<le> cfg_max_retries cfg" and "rq_method rq \<noteq> Unsupported"
    and "attempt_adv delay (Resp r) = RateLimited n" and "0 \<le> n"
  shows "make_request_loop cfg rq net retries delay w =
         make_request_loop cfg rq net (retries + 1) (delay * 2)
           (after_sleep (of_int n) (after_call rq w))"
  using assms by (subst make_request_loop_unfold) (simp add: sleep_after_sleep)

lemma make_request_loop_calls:
  "calls (snd (make_request_loop cfg rq net retries delay w))
     \<le> calls w + nat (cfg_max_retries cfg + 1 - retries)"
proof (induction "nat (cfg_max_retries cfg + 1 - retries)" arbitrary: retries delay w)
  case 0
  then have "\<not> retries \<le> cfg_max_retries cfg" by simp
  then show ?case by (subst make_request_loop_unfold) simp
next
  case (Suc n)
  from Suc(2) have le: "retries \<le> cfg_max_retries cfg"
    and n: "n = nat (cfg_max_retries cfg + 1 - (retries + 1))"
    and n1: "nat (cfg_max_retries cfg + 1 - retries) = Suc n"
    by simp_all
  from Suc(2) have n2: "nat (cfg_max_retries cfg - retries) = n" by linarith
  have ih: "calls (snd (make_request_loop cfg rq net (retries + 1) d w2)) \<le> calls w + Suc n"
    if "sent w2 = sent (after_call rq w)" for d w2
    using Suc(1)[OF n, of d w2] that by (simp add: calls_def after_call_fields n2)
  have step: "calls (snd (case sleep d (after_call rq w) of
                 Inl e \<Rightarrow> (Inl e, after_call rq w)
               | Inr w2 \<Rightarrow> make_request_loop cfg rq net (retries + 1) (delay * 2) w2))
               \<le> calls w + Suc n" for d
  proof (cases "sleep d (after_call rq w)")
    case (Inl e)
    then show ?thesis by (simp add: calls_def after_call_fields)
  next
    case (Inr w2)
    from ih[OF sleep_sent[OF Inr]] Inr show ?thesis by simp
  qed
  show ?case
    unfolding n1
    by (subst make_request_loop_unfold)
       (simp add: le calls_def after_call_fields step[unfolded calls_def, simplified]
          split: attempt.splits)
qed


lemma int_backoff_shift:
  "rat_of_int (py_int d) # map (\<lambda>i. rat_of_int (py_int (d * 2 * 2 ^ i))) [0..<k] =
   map (\<lambda>i. rat_of_int (py_int (d * 2 ^ i))) [0..<Suc k]"
  by (subst map_upt_Suc) (simp add: mult.assoc)

lemma make_request_loop_rate_limited:
  assumes "rq_method rq \<noteq> Unsupported"
    and "status_code r = 429" and "retry_after r = Absent" and "success r'"
    and "0 \<le> delay" and "retries + int k \<le> cfg_max_retries cfg"
    and "\<forall>i<k. net (length (sent w) + i) = Resp r"
    and "net (length (sent w) + k) = Resp r'"
  shows "\<exists>w'. make_request_loop cfg rq net retries delay w = (Inr r', w') \<and>
              sent w' = sent w @ replicate (Suc k) rq \<and>
              slept w' = slept w @ map (\<lambda>i. rat_of_int (py_int (delay * 2 ^ i))) [0..<k]"
  using assms(5-8)
proof (induction k arbitrary: w retries delay)
  case 0
  then have "retries \<le> cfg_max_retries cfg" by simp
  moreover have "attempt_adv delay (net (length (sent w))) = Returned r'"
    using 0(4) assms(4) by (simp add: attempt_adv_success)
  ultimately show ?case
    using assms(1) by (subst make_request_loop_unfold) (simp add: after_call_fields)
next
  case (Suc k)
  let ?w2 = "after_sleep (rat_of_int (py_int delay)) (after_call rq w)"
  have r: "retries \<le> cfg_max_retries cfg" using Suc(3) by simp
  have n: "net (length (sent w)) = Resp r" using Suc(4)[rule_format, of 0] by simp
  have a: "attempt_adv delay (Resp r) = RateLimited (py_int delay)"
    using assms(2,3) by (simp add: attempt_adv_429)
  have p: "0 \<le> py_int delay" using Suc(2) by (simp add: py_int_def)
  have step: "make_request_loop cfg rq net retries delay w =
              make_request_loop cfg rq net (retries + 1) (delay * 2) ?w2"
    by (rule make_request_loop_429[where r = r and net = net and w = w and n = "py_int delay",
          OF n assms(2) r assms(1) a p])
  have len2: "length (sent ?w2) = Suc (length (sent w))"
    by (simp add: after_sleep_fields after_call_fields)
  have d2: "0 \<le> delay * 2" using Suc(2) by simp
  have r2: "retries + 1 + int k \<le> cfg_max_retries cfg" using Suc(3) by simp
  have f2: "\<forall>i<k. net (length (sent ?w2) + i) = Resp r"
  proof (intro allI impI)
    fix i assume "i < k"
    then have "Suc i < Suc k" by simp
    from Suc(4)[rule_format, OF this] show "net (length (sent ?w2) + i) = Resp r"
      by (simp add: len2)
  qed
  have n2: "net (length (sent ?w2) + k) = Resp r'" using Suc(5) by (simp add: len2)
  from Suc(1)[OF d2 r2 f2 n2] obtain w' where
    w': "make_request_loop cfg rq net (retries + 1) (delay * 2) ?w2 = (Inr r', w')"
        "sent w' = sent ?w2 @ replicate (Suc k) rq"
        "slept w' = slept ?w2 @ map (\<lambda>i. rat_of_int (py_int (delay * 2 * 2 ^ i))) [0..<k]"
    by blast
  have "sent w' = sent w @ replicate (Suc (Suc k)) rq"
    using w'(2) by (simp add: after_sleep_fields after_call_fields replicate_app_Cons_same)
  moreover have "slept w' = slept w @ map (\<lambda>i. rat_of_int (py_int (delay * 2 ^ i))) [0..<Suc k]"
    unfolding w'(3) int_backoff_shift[symmetric]
    by (simp add: after_sleep_fields after_call_fields)
  ultimately show ?case using step w'(1) by simp
qed

lemma attempt_adv2_429_reset:
  assumes "status_code r = 429" and "ratelimit_reset r = Num t" and "0 < t"
  shows "attempt_adv2 raw_response now (Resp r) = Waited (reset_wait t now)"
  using assms by (simp add: attempt_adv2_def)

lemma attempt_adv2_429_plain:
  assumes "status_code r = 429" and "ratelimit_reset r \<noteq> Malformed" and "reset_time_of r \<le> 0"
  shows "attempt_adv2 raw_response now (Resp r) = Failed2 (HTTPError r)"
    and "fatal_adv2 (HTTPError r) = None"
  using assms
  by (simp_all add: attempt_adv2_def finish_adv2_def raise_for_status_def fatal_adv2_def
        reset_time_of_def split: hdr.splits)

lemma request_loop_adv2_429_reset:
  assumes "net (length (sent w)) = Resp r" and "status_code r = 429"
    and "ratelimit_reset r = Num t" and "0 < t" and "retries \<le> cfg_max_retries cfg"
  shows "request_loop_adv2 cfg rq raw_response net retries last_error w =
         request_loop_adv2 cfg rq raw_response net retries last_error
           (after_sleep (reset_wait t (clock w)) (after_call rq w))"
proof -
  have "0 \<le> reset_wait t (clock w)" by (simp add: reset_wait_def max_def)
  then show ?thesis
    using assms
    by (subst request_loop_adv2_unfold)
       (simp add: attempt_adv2_429_reset sleep_after_sleep)
qed

lemma request_loop_adv2_429_counted:
  assumes "net (length (sent w)) = Resp r" and "status_code r = 429"
    and "ratelimit_reset r \<noteq> Malformed" and "reset_time_of r \<le> 0"
    and "retries + 1 \<le> cfg_max_retries cfg" and "0 \<le> cfg_retry_delay cfg"
  shows "request_loop_adv2 cfg rq raw_response net retries last_error w =
         request_loop_adv2 cfg rq raw_response net (retries + 1) (Some (HTTPError r))
           (after_sleep (cfg_retry_delay cfg * 2 ^ nat retries) (after_call rq w))"
proof -
  have "0 \<le> cfg_retry_delay cfg * 2 ^ nat retries" using assms(6) by simp
  then show ?thesis
    using assms(1,5) attempt_adv2_429_plain[OF assms(2,3,4)]
    by (subst request_loop_adv2_unfold) (simp add: sleep_after_sleep)
qed

lemma request_loop_adv2_429_last:
  assumes "net (length (sent w)) = Resp r" and "status_code r = 429"
    and "ratelimit_reset r \<noteq> Malformed" and "reset_time_of r \<le> 0"
    and "retries = cfg_max_retries cfg"
  shows "request_loop_adv2 cfg rq raw_response net retries last_error w =
         Some (Inl (after_loop_adv2 cfg (Some (HTTPError r))), after_call rq w)"
  using assms(1,5) attempt_adv2_429_plain[OF assms(2,3,4)]
  by (subst request_loop_adv2_unfold) (simp add: request_loop_adv2_exhausted)

lemma request_out_429_step:
  assumes "net (length (sent w)) = Resp r" and "status_code r = 429"
    and "ratelimit_reset r \<noteq> Malformed"
  shows "request_out (Suc room) token base_url meth endpoint data params headers net w =
         request_out room token base_url meth endpoint data params headers net
           (after_sleep (reset_wait (reset_time_of r) (clock w))
              (after_call (request_for_out token base_url meth endpoint data params headers) w))"
  using request_out_429[where net = net and w = w and r = r, OF assms]
  by (simp add: after_sleep_def after_call_def)

text \<open>
  When the network answers 429 every time, \<open>_request\<close> of \<open>output.py\<close> goes on until
  the stack is used up: it makes \<open>room\<close> calls, sleeps after each, and raises
  \<open>RecursionError\<close>.
\<close>

lemma request_out_all_429:
  assumes "status_code r = 429" and "ratelimit_reset r \<noteq> Malformed"
    and "\<forall>i<room. net (length (sent w) + i) = Resp r"
  shows "fst (request_out room token base_url meth endpoint data params headers net w)
           = Inl RecursionError \<and>
         length (sent (snd (request_out room token base_url meth endpoint data params headers net w)))
           = length (sent w) + room \<and>
         length (slept (snd (request_out room token base_url meth endpoint data params headers net w)))
           = length (slept w) + room"
  using assms(3)
proof (induction room arbitrary: w)
  case 0
  show ?case by (simp add: request_out_no_room)
next
  case (Suc room)
  let ?w2 = "after_sleep (reset_wait (reset_time_of r) (clock w))
              (after_call (request_for_out token base_url meth endpoint data params headers) w)"
  have n: "net (length (sent w)) = Resp r" using Suc(2)[rule_format, of 0] by simp
  have len2: "length (sent ?w2) = Suc (length (sent w))"
    and sl2: "length (slept ?w2) = Suc (length (slept w))"
    by (simp_all add: after_sleep_fields after_call_fields)
  have f2: "\<forall>i<room. net (length (sent ?w2) + i) = Resp r"
  proof (intro allI impI)
    fix i assume "i < room"
    then have "Suc i < Suc room" by simp
    from Suc(2)[rule_format, OF this] show "net (length (sent ?w2) + i) = Resp r"
      by (simp add: len2)
  qed
  from Suc(1)[OF f2] show ?case
    unfolding request_out_429_step[where net = net and w = w and r = r, OF n assms(1,2)]
    by (simp add: len2 sl2)
qed

lemma request_loop_adv2_waits:
  assumes "status_code r = 429" and "ratelimit_reset r = Num t" and "0 < t"
    and "success r'" and "content r' = Json j" and "retries \<le> cfg_max_retries cfg"
    and "\<forall>i<k. net (length (sent w) + i) = Resp r"
    and "net (length (sent w) + k) = Resp r'"
  shows "\<exists>w'. request_loop_adv2 cfg rq False net retries last_error w
                 = Some (Inr (Decoded j), w') \<and>
              sent w' = sent w @ replicate (Suc k) rq \<and> length (slept w') = length (slept w) + k"
  using assms(7,8)
proof (induction k arbitrary: w)
  case 0
  have "attempt_adv2 False (clock w) (net (length (sent w))) = Returned2 (Decoded j)"
    using 0(2) assms(4,5) by (simp add: success_adv2)
  then show ?case
    using assms(6) by (subst request_loop_adv2_unfold) (simp add: after_call_fields)
next
  case (Suc k)
  let ?w2 = "after_sleep (reset_wait t (clock w)) (after_call rq w)"
  have n: "net (length (sent w)) = Resp r" using Suc(2)[rule_format, of 0] by simp
  have step: "request_loop_adv2 cfg rq False net retries last_error w =
              request_loop_adv2 cfg rq False net retries last_error ?w2"
    by (rule request_loop_adv2_429_reset[where r = r and net = net and w = w,
          OF n assms(1,2,3,6)])
  have len2: "length (sent ?w2) = Suc (length (sent w))"
    by (simp add: after_sleep_fields after_call_fields)
  have f2: "\<forall>i<k. net (length (sent ?w2) + i) = Resp r"
  proof (intro allI impI)
    fix i assume "i < k"
    then have "Suc i < Suc k" by simp
    from Suc(2)[rule_format, OF this] show "net (length (sent ?w2) + i) = Resp r"
      by (simp add: len2)
  qed
  have n2: "net (length (sent ?w2) + k) = Resp r'" using Suc(3) by (simp add: len2)
  from Suc(1)[OF f2 n2] obtain w' where
    w': "request_loop_adv2 cfg rq False net retries last_error ?w2 = Some (Inr (Decoded j), w')"
        "sent w' = sent ?w2 @ replicate (Suc k) rq"
        "length (slept w') = length (slept ?w2) + k"
    by blast
  have "sent w' = sent w @ replicate (Suc (Suc k)) rq"
    using w'(2) by (simp add: after_sleep_fields after_call_fields replicate_app_Cons_same)
  moreover have "length (slept w') = length (slept w) + Suc k"
    using w'(3) by (simp add: after_sleep_fields after_call_fields)
  ultimately show ?case using step w'(1) by simp
qed

section \<open>Rate limiting\<close>

text \<open>
  Claim C5, as amended. Let the call be answered by a response \<open>r\<close> with status 429.

  \<^item> \<open>_make_request\<close> of \<open>stargazers-advanced.py\<close> sleeps the seconds of \<open>Retry-After\<close>
    when the header is there and else \<open>int(delay)\<close>, counts a retry and doubles the
    delay; as the delay starts at \<open>retry_delay\<close>, \<open>k\<close> such responses without the header
    followed by a success are waited out with \<open>int(retry_delay * 2 ^ i)\<close> for
    \<open>i = 0, ..., k - 1\<close>, and the response is returned after \<open>k + 1\<close> calls. Whatever the
    network answers, it makes at most \<open>max_retries + 1\<close> calls.
  \<^item> \<open>_request\<close> of \<open>stargazers-advanced2.py\<close>, when \<open>X-RateLimit-Reset\<close> is a positive
    number, sleeps \<open>max(reset - now, 0) + 1\<close> and calls again with the retry counter
    unchanged: any number \<open>k\<close> of such responses followed by a success makes \<open>k + 1\<close>
    calls, whatever \<open>max_retries\<close> is. Without a positive reset time the 429 counts a
    retry: while \<open>retries + 1 \<le> max_retries\<close> the loop sleeps
    \<open>retry_delay * 2 ^ retries\<close> and calls again, and at \<open>retries = max_retries\<close> it
    raises the error made from this response.
  \<^item> \<open>_request\<close> of \<open>output.py\<close> sleeps \<open>max(reset - now, 0) + 1\<close>, with \<open>reset\<close> 0 when
    the header is absent, and calls itself again; it has no counter and no exponential
    delay. Only the interpreter's recursion limit ends a run of such responses: with
    room on the stack for \<open>room\<close> nested activations of \<open>_request\<close>, it makes \<open>room\<close>
    calls, sleeps after each, and raises \<open>RecursionError\<close>.

  (Sleeps are of non-negative durations: the delay and \<open>Retry-After\<close> are not negative;
  the headers read are not malformed; \<open>max_retries\<close> is not negative.)
\<close>

theorem rate_limit_handling:
  assumes "net (calls w) = Resp r" and "status_code r = 429"
  shows "(retries \<le> cfg_max_retries cfg \<and> rq_method rq \<noteq> Unsupported \<and>
          retry_after r = Num n \<and> 0 \<le> n \<longrightarrow>
            make_request_loop cfg rq net retries delay w =
            make_request_loop cfg rq net (retries + 1) (delay * 2)
              (after_sleep (of_int n) (after_call rq w))) \<and>
         (retries \<le> cfg_max_retries cfg \<and> rq_method rq \<noteq> Unsupported \<and>
          retry_after r = Absent \<and> 0 \<le> delay \<longrightarrow>
            make_request_loop cfg rq net retries delay w =
            make_request_loop cfg rq net (retries + 1) (delay * 2)
              (after_sleep (of_int (py_int delay)) (after_call rq w))) \<and>
         (meth \<noteq> Unsupported \<and> retry_after r = Absent \<and> 0 \<le> cfg_retry_delay cfg \<and>
          int k \<le> cfg_max_retries cfg \<and> (\<forall>i<k. net (calls w + i) = Resp r) \<and>
          net (calls w + k) = Resp r' \<and> success r' \<longrightarrow>
            (\<exists>w'. make_request cfg meth endpoint params data headers net w = (Inr r', w') \<and>
                  calls w' = calls w + k + 1 \<and>
                  slept w' = slept w @
                    map (\<lambda>i. of_int (py_int (cfg_retry_delay cfg * 2 ^ i))) [0..<k])) \<and>
         calls (snd (make_request cfg meth endpoint params data headers net w))
           \<le> calls w + nat (cfg_max_retries cfg + 1) \<and>
         (retries \<le> cfg_max_retries cfg \<and> ratelimit_reset r = Num t \<and> 0 < t \<longrightarrow>
            request_loop_adv2 cfg rq raw_response net retries last_error w =
            request_loop_adv2 cfg rq raw_response net retries last_error
              (after_sleep (reset_wait t (clock w)) (after_call rq w))) \<and>
         (0 \<le> cfg_max_retries cfg \<and> ratelimit_reset r = Num t \<and> 0 < t \<and>
          (\<forall>i<k. net (calls w + i) = Resp r) \<and>
          net (calls w + k) = Resp r' \<and> success r' \<and> content r' = Json j \<longrightarrow>
            (\<exists>w'. request_adv2 cfg meth endpoint params data headers False net w
                     = Some (Inr (Decoded j), w') \<and>
                  calls w' = calls w + k + 1 \<and> length (slept w') = length (slept w) + k)) \<and>
         (0 \<le> retries \<and> retries + 1 \<le> cfg_max_retries cfg \<and> 0 \<le> cfg_retry_delay cfg \<and>
          ratelimit_reset r \<noteq> Malformed \<and> reset_time_of r \<le> 0 \<longrightarrow>
            request_loop_adv2 cfg rq raw_response net retries last_error w =
            request_loop_adv2 cfg rq raw_response net (retries + 1) (Some (HTTPError r))
              (after_sleep (cfg_retry_delay cfg * 2 ^ nat retries) (after_call rq w))) \<and>
         (retries = cfg_max_retries cfg \<and>
          ratelimit_reset r \<noteq> Malformed \<and> reset_time_of r \<le> 0 \<longrightarrow>
            request_loop_adv2 cfg rq raw_response net retries last_error w =
            Some (Inl (after_loop_adv2 cfg (Some (HTTPError r))), after_call rq w)) \<and>
         (ratelimit_reset r \<noteq> Malformed \<longrightarrow>
            request_out (Suc room) token base_url meth ep dat ps hs net w =
            request_out room token base_url meth ep dat ps hs net
              (after_sleep (reset_wait (reset_time_of r) (clock w))
                 (after_call (request_for_out token base_url meth ep dat ps hs) w))) \<and>
         (ratelimit_reset r \<noteq> Malformed \<and> (\<forall>i<room. net (calls w + i) = Resp r) \<longrightarrow>
            fst (request_out room token base_url meth ep dat ps hs net w) = Inl RecursionError \<and>
            calls (snd (request_out room token base_url meth ep dat ps hs net w))
              = calls w + room \<and>
            length (slept (snd (request_out room token base_url meth ep dat ps hs net w)))
              = length (slept w) + room)"
proof -
  note n = assms(1)[unfolded calls_def]
  have a1: "make_request_loop cfg rq net retries delay w =
            make_request_loop cfg rq net (retries + 1) (delay * 2)
              (after_sleep (of_int n) (after_call rq w))"
    if "retries \<le> cfg_max_retries cfg \<and> rq_method rq \<noteq> Unsupported \<and>
        retry_after r = Num n \<and> 0 \<le> n"
    using that
    by (intro make_request_loop_429[where r = r and net = net and w = w, OF n assms(2)])
       (simp_all add: attempt_adv_429[OF assms(2)])
  have a2: "make_request_loop cfg rq net retries delay w =
            make_request_loop cfg rq net (retries + 1) (delay * 2)
              (after_sleep (of_int (py_int delay)) (after_call rq w))"
    if "retries \<le> cfg_max_retries cfg \<and> rq_method rq \<noteq> Unsupported \<and>
        retry_after r = Absent \<and> 0 \<le> delay"
    using that
    by (intro make_request_loop_429[where r = r and net = net and w = w, OF n assms(2)])
       (simp_all add: attempt_adv_429[OF assms(2)] py_int_def)
  have a3: "\<exists>w'. make_request cfg meth endpoint params data headers net w = (Inr r', w') \<and>
                  calls w' = calls w + k + 1 \<and>
                  slept w' = slept w @
                    map (\<lambda>i. of_int (py_int (cfg_retry_delay cfg * 2 ^ i))) [0..<k]"
    if h: "meth \<noteq> Unsupported \<and> retry_after r = Absent \<and> 0 \<le> cfg_retry_delay cfg \<and>
        int k \<le> cfg_max_retries cfg \<and> (\<forall>i<k. net (calls w + i) = Resp r) \<and>
        net (calls w + k) = Resp r' \<and> success r'"
  proof -
    let ?rq = "request_for_adv cfg meth endpoint params data headers"
    have m: "rq_method ?rq \<noteq> Unsupported" using h by (simp add: request_for_adv_method)
    have k: "0 + int k \<le> cfg_max_retries cfg" using h by simp
    have f: "\<forall>i<k. net (length (sent w) + i) = Resp r" using h by (simp add: calls_def)
    have l: "net (length (sent w) + k) = Resp r'" using h by (simp add: calls_def)
    from make_request_loop_rate_limited[where net = net and w = w and k = k and r = r
        and r' = r' and rq = ?rq and cfg = cfg and retries = 0 and delay = "cfg_retry_delay cfg",
        OF m assms(2) _ _ _ k f l] h
    obtain w' where "make_request_loop cfg ?rq net 0 (cfg_retry_delay cfg) w = (Inr r', w')"
      "sent w' = sent w @ replicate (Suc k) ?rq"
      "slept w' = slept w @ map (\<lambda>i. of_int (py_int (cfg_retry_delay cfg * 2 ^ i))) [0..<k]"
      by auto
    then show ?thesis by (simp add: make_request_def calls_def)
  qed
  have a4: "calls (snd (make_request cfg meth endpoint params data headers net w))
              \<le> calls w + nat (cfg_max_retries cfg + 1)"
    using make_request_loop_calls[of cfg "request_for_adv cfg meth endpoint params data headers"
        net 0 "cfg_retry_delay cfg" w]
    by (simp add: make_request_def)
  have b1: "request_loop_adv2 cfg rq raw_response net retries last_error w =
            request_loop_adv2 cfg rq raw_response net retries last_error
              (after_sleep (reset_wait t (clock w)) (after_call rq w))"
    if "retries \<le> cfg_max_retries cfg \<and> ratelimit_reset r = Num t \<and> 0 < t"
    using that
    by (intro request_loop_adv2_429_reset[where r = r and net = net and w = w, OF n assms(2)])
       simp_all
  have b2: "\<exists>w'. request_adv2 cfg meth endpoint params data headers False net w
                     = Some (Inr (Decoded j), w') \<and>
                  calls w' = calls w + k + 1 \<and> length (slept w') = length (slept w) + k"
    if h: "0 \<le> cfg_max_retries cfg \<and> ratelimit_reset r = Num t \<and> 0 < t \<and>
          (\<forall>i<k. net (calls w + i) = Resp r) \<and>
          net (calls w + k) = Resp r' \<and> success r' \<and> content r' = Json j"
  proof -
    let ?rq = "request_for_adv2 cfg meth endpoint params data headers"
    have f: "\<forall>i<k. net (length (sent w) + i) = Resp r" using h by (simp add: calls_def)
    have l: "net (length (sent w) + k) = Resp r'" using h by (simp add: calls_def)
    from request_loop_adv2_waits[where net = net and w = w and k = k and r = r and t = t
        and r' = r' and j = j and rq = ?rq and cfg = cfg and retries = 0 and last_error = None,
        OF assms(2) _ _ _ _ _ f l] h
    obtain w' where "request_loop_adv2 cfg ?rq False net 0 None w = Some (Inr (Decoded j), w')"
      "sent w' = sent w @ replicate (Suc k) ?rq"
      "length (slept w') = length (slept w) + k"
      by auto
    then show ?thesis by (simp add: request_adv2_def calls_def)
  qed
  have b3: "request_loop_adv2 cfg rq raw_response net retries last_error w =
            request_loop_adv2 cfg rq raw_response net (retries + 1) (Some (HTTPError r))
              (after_sleep (cfg_retry_delay cfg * 2 ^ nat retries) (after_call rq w))"
    if "0 \<le> retries \<and> retries + 1 \<le> cfg_max_retries cfg \<and> 0 \<le> cfg_retry_delay cfg \<and>
        ratelimit_reset r \<noteq> Malformed \<and> reset_time_of r \<le> 0"
    using that
    by (intro request_loop_adv2_429_counted[where r = r and net = net and w = w,
          OF n assms(2)]) simp_all
  have b4: "request_loop_adv2 cfg rq raw_response net retries last_error w =
            Some (Inl (after_loop_adv2 cfg (Some (HTTPError r))), after_call rq w)"
    if "retries = cfg_max_retries cfg \<and>
        ratelimit_reset r \<noteq> Malformed \<and> reset_time_of r \<le> 0"
    using that
    by (intro request_loop_adv2_429_last[where r = r and net = net and w = w,
          OF n assms(2)]) simp_all
  have c: "request_out (Suc room) token base_url meth ep dat ps hs net w =
            request_out room token base_url meth ep dat ps hs net
              (after_sleep (reset_wait (reset_time_of r) (clock w))
                 (after_call (request_for_out token base_url meth ep dat ps hs) w))"
    if "ratelimit_reset r \<noteq> Malformed"
    using that
    by (intro request_out_429_step[where r = r and net = net and w = w, OF n assms(2)])
  have d: "fst (request_out room token base_url meth ep dat ps hs net w) = Inl RecursionError \<and>
            calls (snd (request_out room token base_url meth ep dat ps hs net w))
              = calls w + room \<and>
            length (slept (snd (request_out room token base_url meth ep dat ps hs net w)))
              = length (slept w) + room"
    if "ratelimit_reset r \<noteq> Malformed \<and> (\<forall>i<room. net (calls w + i) = Resp r)"
    using that
      request_out_all_429[where r = r and net = net and w = w and room = room, OF assms(2)]
    by (simp add: calls_def)
  from a1 a2 a3 a4 b1 b2 b3 b4 c d show ?thesis by blast
qed


theorem rate_limit_handling_witness:
  "make_request_loop default_config (request_for_adv default_config GET ''user'' None None None)
       (script [Resp (retry_in 7)] (Resp ok_response)) 0 1 fresh
     = make_request_loop default_config (request_for_adv default_config GET ''user'' None None None)
         (script [Resp (retry_in 7)] (Resp ok_response)) 1 2
         (after_sleep 7 (after_call (request_for_adv default_config GET ''user'' None None None)
            fresh)) \<and>
   (\<exists>w'. make_request default_config GET ''user'' None None None
            (script [Resp rate_limited, Resp rate_limited] (Resp ok_response)) fresh
          = (Inr ok_response, w') \<and> calls w' = 3 \<and> slept w' = [1, 2]) \<and>
   calls (snd (make_request default_config GET ''user'' None None None
            (script [Resp rate_limited, Resp rate_limited] (Resp ok_response)) fresh)) \<le> 4 \<and>
   request_loop_adv2 default_config (request_for_adv2 default_config GET ''user'' None None None)
       False (script [Resp (limited_until 5)] (Resp ok_response)) 0 None fresh
     = request_loop_adv2 default_config (request_for_adv2 default_config GET ''user'' None None None)
         False (script [Resp (limited_until 5)] (Resp ok_response)) 0 None
         (after_sleep 6 (after_call (request_for_adv2 default_config GET ''user'' None None None)
            fresh)) \<and>
   (\<exists>w'. request_adv2 default_config GET ''user'' None None None False
            (script [Resp (limited_until 5)] (Resp ok_response)) fresh
          = Some (Inr (Decoded (JDict [(''data'', JStr ''test'')])), w') \<and>
          calls w' = 2 \<and> length (slept w') = 1) \<and>
   request_loop_adv2 default_config (request_for_adv2 default_config GET ''user'' None None None)
       False (script [Resp rate_limited, Resp rate_limited] (Resp ok_response)) 0 None fresh
     = request_loop_adv2 default_config (request_for_adv2 default_config GET ''user'' None None None)
         False (script [Resp rate_limited, Resp rate_limited] (Resp ok_response)) 1
         (Some (HTTPError rate_limited))
         (after_sleep 1 (after_call (request_for_adv2 default_config GET ''user'' None None None)
            fresh)) \<and>
   request_out (Suc plenty) ''t'' ''https://api.github.com'' GET ''/user'' None None None
       (script [Resp (limited_until 5)] (Resp ok_response)) fresh
     = request_out plenty ''t'' ''https://api.github.com'' GET ''/user'' None None None
         (script [Resp (limited_until 5)] (Resp ok_response))
         (after_sleep 6 (after_call
            (request_for_out ''t'' ''https://api.github.com'' GET ''/user'' None None None) fresh)) \<and>
   fst (request_out plenty ''t'' ''https://api.github.com'' GET ''/user'' None None None
          (script [] (Resp (limited_until 5))) fresh) = Inl RecursionError \<and>
   calls (snd (request_out plenty ''t'' ''https://api.github.com'' GET ''/user'' None None None
          (script [] (Resp (limited_until 5))) fresh)) = plenty \<and>
   length (slept (snd (request_out plenty ''t'' ''https://api.github.com'' GET ''/user'' None None
          None (script [] (Resp (limited_until 5))) fresh))) = plenty"
proof -
  let ?rq = "request_for_adv default_config GET ''user'' None None None"
  let ?rq2 = "request_for_adv2 default_config GET ''user'' None None None"
  let ?n7 = "script [Resp (retry_in 7)] (Resp ok_response)"
  let ?n5 = "script [Resp (limited_until 5)] (Resp ok_response)"
  let ?n0 = "script [Resp rate_limited, Resp rate_limited] (Resp ok_response)"
  have f7: "status_code (retry_in 7) = 429" "retry_after (retry_in 7) = Num 7"
    by (simp_all add: retry_in_def rate_limited_def resp_fields)
  have f5: "status_code (limited_until 5) = 429" "ratelimit_reset (limited_until 5) = Num 5"
    "reset_time_of (limited_until 5) = 5"
    by (simp_all add: limited_until_def rate_limited_def resp_fields reset_time_of_def)
  have f0: "status_code rate_limited = 429" "retry_after rate_limited = Absent"
    "ratelimit_reset rate_limited = Absent" "reset_time_of rate_limited = 0"
    by (simp_all add: rate_limited_def resp_fields reset_time_of_def)
  have ok: "success ok_response" "content ok_response = Json (JDict [(''data'', JStr ''test'')])"
    by (simp_all add: success_def ok_response_def resp_fields)
  have n7: "?n7 (calls fresh) = Resp (retry_in 7)"
    and n5: "?n5 (calls fresh) = Resp (limited_until 5)"
    and n0: "?n0 (calls fresh) = Resp rate_limited"
    by (simp_all add: script_def calls_def fresh_fields)
  have l5: "(\<forall>i<Suc 0. ?n5 (calls fresh + i) = Resp (limited_until 5)) \<and>
            ?n5 (calls fresh + Suc 0) = Resp ok_response"
    by (simp add: script_def calls_def fresh_fields)
  have l0: "(\<forall>i<Suc (Suc 0). ?n0 (calls fresh + i) = Resp rate_limited) \<and>
            ?n0 (calls fresh + Suc (Suc 0)) = Resp ok_response"
    by (simp add: script_def calls_def fresh_fields less_Suc_eq)
  note t7 = rate_limit_handling[where net = ?n7 and w = fresh and r = "retry_in 7"
      and cfg = default_config and rq = ?rq and retries = 0 and delay = 1 and n = 7,
      OF n7 f7(1)]
  note t0 = rate_limit_handling[where net = ?n0 and w = fresh and r = rate_limited
      and cfg = default_config and rq = ?rq2 and retries = 0 and k = "Suc (Suc 0)"
      and r' = ok_response and meth = GET and endpoint = "''user''" and params = None
      and data = None and headers = None and raw_response = False and last_error = None,
      OF n0 f0(1)]
  note t5 = rate_limit_handling[where net = ?n5 and w = fresh and r = "limited_until 5"
      and cfg = default_config and rq = ?rq2 and retries = 0 and k = "Suc 0" and t = 5
      and r' = ok_response and j = "JDict [(''data'', JStr ''test'')]"
      and meth = GET and endpoint = "''user''" and params = None
      and data = None and headers = None and raw_response = False and last_error = None
      and token = "''t''" and base_url = "''https://api.github.com''" and ep = "''/user''"
      and dat = None and ps = None and hs = None and room = plenty,
      OF n5 f5(1)]
  have n9: "script [] (Resp (limited_until 5)) (calls fresh) = Resp (limited_until 5)"
    and l9: "\<forall>i<plenty. script [] (Resp (limited_until 5)) (calls fresh + i)
                          = Resp (limited_until 5)"
    by (simp_all add: script_def)
  note t9 = rate_limit_handling[where net = "script [] (Resp (limited_until 5))" and w = fresh
      and r = "limited_until 5" and token = "''t''" and base_url = "''https://api.github.com''"
      and ep = "''/user''" and dat = None and ps = None and hs = None and meth = GET
      and room = plenty, OF n9 f5(1)]
  have c1: "make_request_loop default_config ?rq ?n7 0 1 fresh
     = make_request_loop default_config ?rq ?n7 1 2 (after_sleep 7 (after_call ?rq fresh))"
    using t7 by (simp add: f7 default_config_fields request_for_adv_method)
  have c2: "\<exists>w'. make_request default_config GET ''user'' None None None ?n0 fresh
          = (Inr ok_response, w') \<and> calls w' = 3 \<and> slept w' = [1, 2]"
    using t0 l0
    by (simp add: f0 ok default_config_fields calls_def fresh_fields py_int_def eval_nat_numeral)
  have c3: "calls (snd (make_request default_config GET ''user'' None None None ?n0 fresh)) \<le> 4"
    using t0 by (simp add: default_config_fields calls_def fresh_fields)
  have c4: "request_loop_adv2 default_config ?rq2 False ?n5 0 None fresh
     = request_loop_adv2 default_config ?rq2 False ?n5 0 None (after_sleep 6 (after_call ?rq2 fresh))"
    using t5 by (simp add: f5 default_config_fields fresh_fields reset_wait_def)
  have c5: "\<exists>w'. request_adv2 default_config GET ''user'' None None None False ?n5 fresh
          = Some (Inr (Decoded (JDict [(''data'', JStr ''test'')])), w') \<and>
          calls w' = 2 \<and> length (slept w') = 1"
    using t5 l5
    by (simp add: f5 ok default_config_fields calls_def fresh_fields eval_nat_numeral)
  have c6: "request_loop_adv2 default_config ?rq2 False ?n0 0 None fresh
     = request_loop_adv2 default_config ?rq2 False ?n0 1 (Some (HTTPError rate_limited))
         (after_sleep 1 (after_call ?rq2 fresh))"
    using t0 by (simp add: f0 default_config_fields)
  have c7: "request_out (Suc plenty) ''t'' ''https://api.github.com'' GET ''/user'' None None None
               ?n5 fresh
     = request_out plenty ''t'' ''https://api.github.com'' GET ''/user'' None None None ?n5
         (after_sleep 6 (after_call
            (request_for_out ''t'' ''https://api.github.com'' GET ''/user'' None None None) fresh))"
    using t5 by (simp add: f5 fresh_fields reset_wait_def)
  have c8: "fst (request_out plenty ''t'' ''https://api.github.com'' GET ''/user'' None None None
          (script [] (Resp (limited_until 5))) fresh) = Inl RecursionError \<and>
   calls (snd (request_out plenty ''t'' ''https://api.github.com'' GET ''/user'' None None None
          (script [] (Resp (limited_until 5))) fresh)) = plenty \<and>
   length (slept (snd (request_out plenty ''t'' ''https://api.github.com'' GET ''/user'' None None
          None (script [] (Resp (limited_until 5))) fresh))) = plenty"
    using t9 l9 by (simp add: f5 fresh_fields calls_def)
  from c1 c2 c3 c4 c5 c6 c7 c8 show ?thesis by blast
qed

theorem request_adv2_waits_past_max_retries:
  "map_option (map_prod id calls)
     (request_adv2 default_config GET ''user'' None None None False
        (script (replicate 4 (Resp (limited_until 5))) (Resp ok_response)) fresh)
   = Some (Inr (Decoded (JDict [(''data'', JStr ''test'')])), 5)"
proof -
  let ?net = "script (replicate 4 (Resp (limited_until 5))) (Resp ok_response)"
  let ?rq = "request_for_adv2 default_config GET ''user'' None None None"
  have f: "\<forall>i<4. ?net (length (sent fresh) + i) = Resp (limited_until 5)"
    by (simp add: script_def fresh_fields)
  have l: "?net (length (sent fresh) + 4) = Resp ok_response"
    by (simp add: script_def fresh_fields)
  from request_loop_adv2_waits[where net = ?net and w = fresh and k = 4
      and r = "limited_until 5" and t = 5 and r' = ok_response
      and j = "JDict [(''data'', JStr ''test'')]" and rq = ?rq and cfg = default_config
      and retries = 0 and last_error = None, OF _ _ _ _ _ _ f l]
  obtain w' where "request_loop_adv2 default_config ?rq False ?net 0 None fresh
      = Some (Inr (Decoded (JDict [(''data'', JStr ''test'')])), w')"
    "sent w' = sent fresh @ replicate (Suc 4) ?rq"
    by (auto simp: limited_until_def rate_limited_def resp_fields success_def ok_response_def
          default_config_fields)
  then show ?thesis by (simp add: request_adv2_def calls_def fresh_fields)
qed

end
